(* ===== verification/Tarn_Prelude.thy ===== *)
theory Tarn_Prelude
  imports Main "HOL-Library.Word" "HOL-Library.Sublist"
begin

text \<open>
  Shared vocabulary of the development: machine integers at their Rust widths, Rust's
  checked and saturating arithmetic, little-endian byte encodings, UTF-8 validity, and the
  generic lemmas on lists, options and words that the component theories use.

  Fallible code returns a sum: \<^term>\<open>Inl e\<close> is the error (a Rust \<^verbatim>\<open>Err\<close>, or a kernel
  panic where the theory says so) and \<^term>\<open>Inr x\<close> the ordinary result.
\<close>

unbundle bit_operations_syntax

subsection \<open>Collections\<close>

named_theorems inv_intros \<open>preservation of the kernel's invariants by the operations that cannot fail\<close>

subsection \<open>Machine integers\<close>

type_synonym u8 = "8 word"
type_synonym u16 = "16 word"
type_synonym u32 = "32 word"
type_synonym u64 = "64 word"
type_synonym bytes = "8 word list"

text \<open>\<^verbatim>\<open>checked_add\<close> and \<^verbatim>\<open>checked_mul\<close> of an unsigned Rust integer.\<close>

definition checked_add :: "'a::len word \<Rightarrow> 'a word \<Rightarrow> 'a word option" where
  "checked_add a b = (if unat a + unat b < 2 ^ LENGTH('a) then Some (a + b) else None)"

definition checked_mul :: "'a::len word \<Rightarrow> 'a word \<Rightarrow> 'a word option" where
  "checked_mul a b = (if unat a * unat b < 2 ^ LENGTH('a) then Some (a * b) else None)"

text \<open>\<^verbatim>\<open>div_ceil\<close> on \<^verbatim>\<open>usize\<close> and \<^verbatim>\<open>u64\<close> values, read as naturals.\<close>

definition div_ceil :: "nat \<Rightarrow> nat \<Rightarrow> nat" where
  "div_ceil a b = (if a mod b = 0 then a div b else a div b + 1)"

lemma checked_add_Some_iff:
  "checked_add a b = Some c \<longleftrightarrow> unat c = unat a + unat b"
  for a b c :: "'a::len word"
proof
  assume "checked_add a b = Some c"
  then show "unat c = unat a + unat b"
    by (auto simp: checked_add_def unat_word_ariths split: if_splits)
next
  assume c: "unat c = unat a + unat b"
  have "unat c < 2 ^ LENGTH('a)" by (rule unsigned_less)
  moreover have "a + b = c"
    using c calculation by (simp add: word_unat_eq_iff unat_word_ariths)
  ultimately show "checked_add a b = Some c" using c by (simp add: checked_add_def)
qed

lemma checked_mul_Some_iff:
  "checked_mul a b = Some c \<longleftrightarrow> unat c = unat a * unat b"
  for a b c :: "'a::len word"
proof
  assume "checked_mul a b = Some c"
  then show "unat c = unat a * unat b"
    by (auto simp: checked_mul_def unat_word_ariths split: if_splits)
next
  assume c: "unat c = unat a * unat b"
  have "unat c < 2 ^ LENGTH('a)" by (rule unsigned_less)
  moreover have "a * b = c"
    using c calculation by (simp add: word_unat_eq_iff unat_word_ariths)
  ultimately show "checked_mul a b = Some c" using c by (simp add: checked_mul_def)
qed

lemma div_ceil_le_iff: "0 < b \<Longrightarrow> div_ceil a b \<le> k \<longleftrightarrow> a \<le> k * b"
proof -
  assume b: "0 < b"
  have a: "a = a div b * b + a mod b" by simp
  have m: "a mod b < b" using b by simp
  show ?thesis
  proof (cases "a mod b = 0")
    case True
    then show ?thesis using a b by (metis add.right_neutral div_ceil_def mult_le_cancel2 not_gr0)
  next
    case False
    have "a div b + 1 \<le> k \<longleftrightarrow> a div b < k" by auto
    also have "\<dots> \<longleftrightarrow> a < k * b" using b by (simp add: div_less_iff_less_mult)
    also have "\<dots> \<longleftrightarrow> a \<le> k * b" using False by (metis le_neq_implies_less less_imp_le_nat mod_mult_self2_is_0)
    finally show ?thesis using False by (simp add: div_ceil_def)
  qed
qed

lemma less_div_ceil_iff: "0 < b \<Longrightarrow> k < div_ceil a b \<longleftrightarrow> k * b < a"
  using div_ceil_le_iff [of b a k] by (meson not_le)

subsection \<open>Little-endian encodings\<close>

text \<open>\<^verbatim>\<open>uN::from_le_bytes\<close> and \<^verbatim>\<open>u64::to_le_bytes\<close>.\<close>

fun from_le_bytes :: "bytes \<Rightarrow> 'a::len word" where
  "from_le_bytes [] = 0"
| "from_le_bytes (b # bs) = ucast b OR push_bit 8 (from_le_bytes bs)"

definition to_le_bytes :: "u64 \<Rightarrow> bytes" where
  "to_le_bytes w = map (\<lambda>i. ucast (drop_bit (8 * i) w)) [0..<8]"

lemma bit_from_le_bytes:
  "bit (from_le_bytes bs :: 'a::len word) n
     \<longleftrightarrow> n < LENGTH('a) \<and> n div 8 < length bs \<and> bit (bs ! (n div 8)) (n mod 8)"
proof (induction bs arbitrary: n)
  case Nil
  show ?case by simp
next
  case (Cons b bs)
  show ?case
  proof (cases "n < 8")
    case True
    then show ?thesis by (auto simp: bit_or_iff bit_push_bit_iff bit_ucast_iff)
  next
    case False
    then obtain m where n: "n = 8 + m" using le_Suc_ex not_less by blast
    have "\<not> bit b n" using False by (auto dest: bit_imp_le_length)
    moreover have "n div 8 = Suc (m div 8)" "n mod 8 = m mod 8" using n by auto
    ultimately show ?thesis
      using Cons.IH [of m] n by (auto simp: bit_or_iff bit_push_bit_iff bit_ucast_iff)
  qed
qed

lemma length_to_le_bytes [simp]: "length (to_le_bytes w) = 8"
  by (simp add: to_le_bytes_def)

lemma nth_to_le_bytes: "i < 8 \<Longrightarrow> to_le_bytes w ! i = ucast (drop_bit (8 * i) w)"
  by (simp add: to_le_bytes_def)

lemma to_from_le_bytes:
  assumes "length bs = 8"
  shows "to_le_bytes (from_le_bytes bs) = bs"
proof (rule nth_equalityI)
  fix i assume "i < length (to_le_bytes (from_le_bytes bs))"
  then have i: "i < 8" by simp
  show "to_le_bytes (from_le_bytes bs) ! i = bs ! i"
  proof (rule bit_word_eqI)
    fix n assume n: "n < LENGTH(8)"
    then have "n < 8" by simp
    then have "(8 * i + n) div 8 = i" "(8 * i + n) mod 8 = n" "8 * i + n < 64" using i by auto
    then show "bit (to_le_bytes (from_le_bytes bs) ! i) n = bit (bs ! i) n"
      using i n assms
      by (simp add: nth_to_le_bytes bit_ucast_iff bit_drop_bit_eq bit_from_le_bytes)
  qed
qed (simp add: assms)

lemma from_to_le_bytes: "from_le_bytes (to_le_bytes w) = w"
proof (rule bit_word_eqI)
  fix n assume n: "n < LENGTH(64)"
  then have i: "n div 8 < 8" by auto
  have "8 * (n div 8) + n mod 8 = n" by simp
  then show "bit (from_le_bytes (to_le_bytes w) :: u64) n = bit w n"
    using n i by (simp add: bit_from_le_bytes nth_to_le_bytes bit_ucast_iff bit_drop_bit_eq)
qed

subsection \<open>Pages\<close>

text \<open>\<^verbatim>\<open>addr & !0xFFF\<close>: the start of the 4 KiB page an address lies in.\<close>

definition page_of :: "u64 \<Rightarrow> u64" where
  "page_of a = a AND NOT 0xFFF"

lemma and_split: "(a AND NOT m) + (a AND m) = a" for a m :: "'a::len word"
proof -
  have "(a AND NOT m) AND (a AND m) = 0"
    by (intro bit_word_eqI) (auto simp: bit_and_iff bit_not_iff)
  then have "(a AND NOT m) + (a AND m) = (a AND NOT m) OR (a AND m)" by (rule disjunctive_add_eq_or)
  also have "\<dots> = a" by (intro bit_word_eqI) (auto simp: bit_and_iff bit_or_iff bit_not_iff)
  finally show ?thesis .
qed

lemma unat_page_offset: "unat (a AND 0xFFF) = unat a mod 4096" for a :: u64
proof -
  have "(0xFFF :: u64) = mask 12" by (simp add: mask_eq_exp_minus_1)
  then have "a AND 0xFFF = take_bit 12 a" by (simp only: take_bit_eq_mask)
  then show ?thesis by (simp add: unsigned_take_bit_eq take_bit_eq_mod [where ?'a = nat] unat_mod_distrib)
qed

lemma page_of_split: "page_of a + (a AND 0xFFF) = a"
  unfolding page_of_def by (rule and_split)

lemma unat_page_of: "unat (page_of a) = unat a - unat a mod 4096"
proof -
  have p: "page_of a = a - (a AND 0xFFF)" using page_of_split [of a] by (simp add: eq_diff_eq)
  have "a AND 0xFFF \<le> a" by (simp add: word_le_nat_alt unat_page_offset)
  then show ?thesis by (simp add: p unat_sub unat_page_offset)
qed

lemma page_of_aligned: "unat (page_of a) mod 4096 = 0"
  unfolding unat_page_of by (metis minus_mod_eq_mult_div mod_mult_self1_is_0)

lemma page_of_le: "page_of a \<le> a"
  by (simp add: word_le_nat_alt unat_page_of)

lemma less_page_end: "unat a < unat (page_of a) + 4096"
  unfolding unat_page_of by (metis add.commute diff_less_mono2 le_add_diff_inverse2 less_add_same_cancel1
      mod_less_divisor mod_less_eq_dividend nat_add_left_cancel_less zero_less_numeral)

lemma multiple_step:
  assumes "m mod d = 0" "n mod d = 0" "m < n"
  shows "m + d \<le> (n :: nat)"
proof -
  have "d dvd n - m" using assms by (simp add: mod_eq_0_iff_dvd dvd_diff_nat)
  then have "d \<le> n - m" using assms(3) by (intro dvd_imp_le) auto
  then show ?thesis using assms(3) by linarith
qed

lemma page_of_mono: "a \<le> b \<Longrightarrow> page_of a \<le> page_of b"
proof -
  assume "a \<le> b"
  then have "unat a div 4096 * 4096 \<le> unat b div 4096 * 4096" by (intro mult_le_mono1 div_le_mono) (simp add: word_le_nat_alt)
  then show ?thesis by (simp add: word_le_nat_alt unat_page_of minus_mod_eq_div_mult)
qed

subsection \<open>Byte-addressed memory\<close>

text \<open>\<^verbatim>\<open>&data[off..off + n]\<close>.\<close>

definition slice :: "bytes \<Rightarrow> nat \<Rightarrow> nat \<Rightarrow> bytes" where
  "slice data off n = take n (drop off data)"

lemma slice_length: "off + n \<le> length data \<Longrightarrow> length (slice data off n) = n"
  by (simp add: slice_def)

text \<open>Writing bytes from an address on, and reading them back.\<close>

definition mem_write :: "u64 \<Rightarrow> bytes \<Rightarrow> (u64 \<Rightarrow> u8) \<Rightarrow> u64 \<Rightarrow> u8" where
  "mem_write addr bs f = (\<lambda>a. let o' = unat (a - addr) in if o' < length bs then bs ! o' else f a)"

definition mem_read :: "u64 \<Rightarrow> nat \<Rightarrow> (u64 \<Rightarrow> u8) \<Rightarrow> bytes" where
  "mem_read addr n f = map (\<lambda>k. f (addr + of_nat k)) [0..<n]"

lemma mem_read_length [simp]: "length (mem_read addr n f) = n"
  by (simp add: mem_read_def)

lemma mem_write_at: "n < length bs \<Longrightarrow> n < 2 ^ 64 \<Longrightarrow> mem_write addr bs f (addr + of_nat n) = bs ! n"
  by (simp add: mem_write_def unat_of_nat take_bit_nat_eq_self)

lemma mem_read_write: "length bs \<le> 2 ^ 64 \<Longrightarrow> mem_read addr (length bs) (mem_write addr bs f) = bs"
  by (intro nth_equalityI) (auto simp: mem_read_def mem_write_at)

subsection \<open>UTF-8 validity\<close>

text \<open>
  \<^verbatim>\<open>core::str::from_utf8\<close> accepts exactly the well-formed byte sequences of the Unicode
  standard (no overlong forms, no surrogates, nothing above U+10FFFF).
\<close>

definition utf8_cont :: "u8 \<Rightarrow> bool" where
  "utf8_cont b \<longleftrightarrow> 0x80 \<le> b \<and> b \<le> 0xBF"

fun utf8_valid :: "bytes \<Rightarrow> bool" where
  "utf8_valid [] = True"
| "utf8_valid (a # r) =
    (if a < 0x80 then utf8_valid r
     else case r of
       [] \<Rightarrow> False
     | b # r2 \<Rightarrow>
        (if 0xC2 \<le> a \<and> a \<le> 0xDF then utf8_cont b \<and> utf8_valid r2
         else case r2 of
           [] \<Rightarrow> False
         | c # r3 \<Rightarrow>
            (if a = 0xE0 then 0xA0 \<le> b \<and> b \<le> 0xBF \<and> utf8_cont c \<and> utf8_valid r3
             else if a = 0xED then 0x80 \<le> b \<and> b \<le> 0x9F \<and> utf8_cont c \<and> utf8_valid r3
             else if 0xE1 \<le> a \<and> a \<le> 0xEF then utf8_cont b \<and> utf8_cont c \<and> utf8_valid r3
             else case r3 of
               [] \<Rightarrow> False
             | d # r4 \<Rightarrow>
                (if a = 0xF0 then 0x90 \<le> b \<and> b \<le> 0xBF \<and> utf8_cont c \<and> utf8_cont d \<and> utf8_valid r4
                 else if a = 0xF4 then 0x80 \<le> b \<and> b \<le> 0x8F \<and> utf8_cont c \<and> utf8_cont d \<and> utf8_valid r4
                 else if 0xF1 \<le> a \<and> a \<le> 0xF3
                   then utf8_cont b \<and> utf8_cont c \<and> utf8_cont d \<and> utf8_valid r4
                 else False))))"

definition ascii_bytes :: "bytes \<Rightarrow> bool" where
  "ascii_bytes bs \<longleftrightarrow> (\<forall>b \<in> set bs. b < 0x80)"

lemma ascii_utf8_valid: "ascii_bytes bs \<Longrightarrow> utf8_valid bs"
  unfolding ascii_bytes_def by (induction bs) auto

lemma ascii_take: "ascii_bytes bs \<Longrightarrow> ascii_bytes (take n bs)"
  unfolding ascii_bytes_def by (auto dest: in_set_takeD)

subsection \<open>Lists\<close>

lemma list_all_nth: "list_all P xs \<longleftrightarrow> (\<forall>i < length xs. P (xs ! i))"
  by (auto simp: list_all_length)

lemma length_distinct_bounded:
  assumes "distinct xs" "set xs \<subseteq> {..<n}"
  shows "length xs \<le> n"
  using assms card_mono [of "{..<n}" "set xs"] by (simp add: distinct_card)

end
