(* ===== verification/Abi.thy ===== *)
theory Abi
  imports Tarn_Prelude
begin

text \<open>
  The kernel/userland contract, \<^verbatim>\<open>libs/tarnos-abi/src/lib.rs\<close>: system call numbers,
  well-known capability indices, \<^verbatim>\<open>Message\<close>, \<^verbatim>\<open>ExitStatus\<close>, \<^verbatim>\<open>Rights\<close>, the short-name
  packing and \<^verbatim>\<open>SyscallError\<close>.  A Rust \<^verbatim>\<open>&str\<close> is its byte sequence.
\<close>

subsection \<open>System call numbers and well-known capabilities\<close>

definition SYS_YIELD :: u64 where "SYS_YIELD = 0"
definition SYS_SEND :: u64 where "SYS_SEND = 1"
definition SYS_RECV :: u64 where "SYS_RECV = 2"
definition SYS_EXIT :: u64 where "SYS_EXIT = 3"
definition SYS_SPAWN :: u64 where "SYS_SPAWN = 4"
definition SYS_GRANT :: u64 where "SYS_GRANT = 5"
definition SYS_PROCESS_START :: u64 where "SYS_PROCESS_START = 6"
definition SYS_WAIT :: u64 where "SYS_WAIT = 7"
definition SYS_KILL :: u64 where "SYS_KILL = 8"
definition SYS_SBRK :: u64 where "SYS_SBRK = 9"
definition SYS_BLOCK_READ :: u64 where "SYS_BLOCK_READ = 10"
definition SYS_FILE_READ :: u64 where "SYS_FILE_READ = 11"

lemmas sys_numbers = SYS_YIELD_def SYS_SEND_def SYS_RECV_def SYS_EXIT_def SYS_SPAWN_def
  SYS_GRANT_def SYS_PROCESS_START_def SYS_WAIT_def SYS_KILL_def SYS_SBRK_def
  SYS_BLOCK_READ_def SYS_FILE_READ_def

datatype cap_index = CapIndex (cap_raw: u32)

definition CONSOLE_CAP :: cap_index where "CONSOLE_CAP = CapIndex 0"
definition CHILD_LINK_CAP :: cap_index where "CHILD_LINK_CAP = CapIndex 1"
definition BLOCK_CAP :: cap_index where "BLOCK_CAP = CapIndex 2"
definition FS_CAP :: cap_index where "FS_CAP = CapIndex 3"

subsection \<open>Messages\<close>

definition MESSAGE_INLINE_WORDS :: nat where "MESSAGE_INLINE_WORDS = 4"

text \<open>The array \<^verbatim>\<open>words: [u64; 4]\<close> is a list; \<^term>\<open>length\<close> 4 is the type's invariant.\<close>

record message =
  msg_tag :: u64
  msg_words :: "u64 list"

definition message_wf :: "message \<Rightarrow> bool" where
  "message_wf m \<longleftrightarrow> length (msg_words m) = MESSAGE_INLINE_WORDS"

text \<open>\<^verbatim>\<open>buf[..len].copy_from_slice(&bytes[..len])\<close> into a zeroed buffer of \<^term>\<open>cap\<close> bytes.\<close>

definition zero_padded :: "nat \<Rightarrow> bytes \<Rightarrow> bytes" where
  "zero_padded cap bs = (let len = min (length bs) cap in take len bs @ replicate (cap - len) 0)"

definition from_str_lossy :: "bytes \<Rightarrow> message" where
  "from_str_lossy s =
    (let cap = MESSAGE_INLINE_WORDS * 8;
         len = min (length s) cap;
         buf = zero_padded cap s
     in \<lparr>msg_tag = of_nat len,
         msg_words = map (\<lambda>i. from_le_bytes (take 8 (drop (i * 8) buf))) [0..<MESSAGE_INLINE_WORDS]\<rparr>)"

text \<open>The bytes of the literal \<^verbatim>\<open>"<invalid utf-8>"\<close>.\<close>

definition invalid_utf8 :: bytes where
  "invalid_utf8 = map of_char ''<invalid utf-8>''"

definition str_or_invalid :: "bytes \<Rightarrow> bytes" where
  "str_or_invalid bs = (if utf8_valid bs then bs else invalid_utf8)"

definition as_str_lossy :: "message \<Rightarrow> bytes" where
  "as_str_lossy m =
    (let buf = concat (map to_le_bytes (msg_words m));
         len = min (unat (msg_tag m)) (length buf)
     in str_or_invalid (take len buf))"

subsection \<open>Exit status\<close>

text \<open>The \<^verbatim>\<open>i32\<close> code is its 32-bit pattern.\<close>

datatype exit_status = Exited (exit_code: "32 word") | Faulted | Killed

fun to_regs :: "exit_status \<Rightarrow> u64 \<times> u64" where
  "to_regs (Exited code) = (0, ucast code)"
| "to_regs Faulted = (1, 0)"
| "to_regs Killed = (2, 0)"

definition from_regs :: "u64 \<Rightarrow> u64 \<Rightarrow> exit_status" where
  "from_regs kind code =
    (if kind = 0 then Exited (ucast code) else if kind = 1 then Faulted else Killed)"

subsection \<open>Rights\<close>

text \<open>
  A \<^verbatim>\<open>bitflags\<close> set over \<^verbatim>\<open>u8\<close>; \<^verbatim>\<open>contains\<close> is the subset test and \<^verbatim>\<open>from_bits_truncate\<close>
  drops every bit that names no flag.
\<close>

type_synonym rights = u8

definition R_SEND :: rights where "R_SEND = 1"
definition R_RECV :: rights where "R_RECV = 2"
definition R_READ :: rights where "R_READ = 4"

definition rights_contains :: "rights \<Rightarrow> rights \<Rightarrow> bool" where
  "rights_contains r other \<longleftrightarrow> r AND other = other"

definition rights_from_bits_truncate :: "u8 \<Rightarrow> rights" where
  "rights_from_bits_truncate b = b AND 7"

lemma rights_contains_refl [simp]: "rights_contains r r"
  by (simp add: rights_contains_def)

lemma rights_contains_trans:
  "rights_contains r s \<Longrightarrow> rights_contains s t \<Longrightarrow> rights_contains r t"
  unfolding rights_contains_def by (metis and.assoc)

lemma rights_contains_bits:
  "rights_contains r s \<longleftrightarrow> (\<forall>n. bit s n \<longrightarrow> bit r n)"
proof
  assume "rights_contains r s"
  then show "\<forall>n. bit s n \<longrightarrow> bit r n"
    unfolding rights_contains_def by (metis bit_and_iff)
next
  assume "\<forall>n. bit s n \<longrightarrow> bit r n"
  then show "rights_contains r s"
    unfolding rights_contains_def by (auto intro!: bit_word_eqI simp: bit_and_iff)
qed

subsection \<open>Short names\<close>

definition SHORT_NAME_MAX :: nat where "SHORT_NAME_MAX = 16"

definition pack_short_name :: "bytes \<Rightarrow> u64 \<times> u64 \<times> u64" where
  "pack_short_name name =
    (let len = min (length name) SHORT_NAME_MAX;
         buf = zero_padded SHORT_NAME_MAX name
     in (from_le_bytes (take 8 buf), from_le_bytes (take 8 (drop 8 buf)), of_nat len))"

definition unpack_short_name :: "u64 \<Rightarrow> u64 \<Rightarrow> u64 \<Rightarrow> bytes" where
  "unpack_short_name lo hi len =
    (let buf = to_le_bytes lo @ to_le_bytes hi
     in str_or_invalid (take (min (unat len) (length buf)) buf))"

subsection \<open>Errors\<close>

datatype syscall_error =
    NoSuchSyscall | BadCapability | PermissionDenied | ResourceExhausted | NoSuchProgram
  | InvalidTarget | SpawnFailed | InvalidArgument | PeerClosed | IoOutOfRange | IoError | NoSuchFile

text \<open>The discriminants of the \<^verbatim>\<open>#[repr(u64)]\<close> enum.\<close>

fun error_code :: "syscall_error \<Rightarrow> u64" where
  "error_code NoSuchSyscall = 1"
| "error_code BadCapability = 2"
| "error_code PermissionDenied = 3"
| "error_code ResourceExhausted = 4"
| "error_code NoSuchProgram = 5"
| "error_code InvalidTarget = 6"
| "error_code SpawnFailed = 7"
| "error_code InvalidArgument = 8"
| "error_code PeerClosed = 9"
| "error_code IoOutOfRange = 10"
| "error_code IoError = 11"
| "error_code NoSuchFile = 12"

text \<open>An \<^verbatim>\<open>i64\<close> is its 64-bit pattern, so negation is two's complement.\<close>

definition as_retval :: "syscall_error \<Rightarrow> u64" where
  "as_retval e = - error_code e"

text \<open>\<^verbatim>\<open>i64::unsigned_abs\<close>: total, also at \<^verbatim>\<open>i64::MIN\<close>.\<close>

definition unsigned_abs :: "u64 \<Rightarrow> u64" where
  "unsigned_abs w = (if bit w 63 then - w else w)"

definition from_retval :: "u64 \<Rightarrow> syscall_error" where
  "from_retval retval =
    (let a = unsigned_abs retval in
     if a = 2 then BadCapability else if a = 3 then PermissionDenied
     else if a = 4 then ResourceExhausted else if a = 5 then NoSuchProgram
     else if a = 6 then InvalidTarget else if a = 7 then SpawnFailed
     else if a = 8 then InvalidArgument else if a = 9 then PeerClosed
     else if a = 10 then IoOutOfRange else if a = 11 then IoError
     else if a = 12 then NoSuchFile else NoSuchSyscall)"

datatype abi_kind = TarnosNative | LinuxCompat

subsection \<open>Lemmas\<close>

lemma zero_padded_length [simp]: "length (zero_padded cap bs) = cap"
  by (simp add: zero_padded_def Let_def)

lemma take_zero_padded: "n \<le> min (length bs) cap \<Longrightarrow> take n (zero_padded cap bs) = take n bs"
  by (cases "length bs \<le> cap") (simp_all add: zero_padded_def Let_def min_def)

lemma str_or_invalid_ascii: "ascii_bytes bs \<Longrightarrow> str_or_invalid bs = bs"
  by (simp add: str_or_invalid_def ascii_utf8_valid)

lemma chunk_take_drop: "take n xs @ take m (drop n xs) = take (n + m) xs"
  by (simp add: take_add)

lemma unpack_pack_buffer:
  assumes "length buf = 16"
  shows "to_le_bytes (from_le_bytes (take 8 buf)) @ to_le_bytes (from_le_bytes (take 8 (drop 8 buf))) = buf"
  using assms by (simp add: to_from_le_bytes chunk_take_drop)

lemma chunks4:
  "take 8 buf @ take 8 (drop 8 buf) @ take 8 (drop 16 buf) @ take 8 (drop 24 buf) = take 32 buf"
proof -
  have "take 8 (drop 16 buf) @ take 8 (drop 24 buf) = take 16 (drop 16 buf)"
    using chunk_take_drop [of 8 "drop 16 buf" 8] by simp
  moreover have "take 8 (drop 8 buf) @ take 16 (drop 16 buf) = take 24 (drop 8 buf)"
    using chunk_take_drop [of 8 "drop 8 buf" 16] by simp
  ultimately show ?thesis using chunk_take_drop [of 8 buf 24] by simp
qed

lemma message_words_buffer:
  assumes "length buf = 32"
  shows "concat (map (\<lambda>i. to_le_bytes (from_le_bytes (take 8 (drop (i * 8) buf)))) [0..<4]) = buf"
proof -
  have "concat (map (\<lambda>i. to_le_bytes (from_le_bytes (take 8 (drop (i * 8) buf)))) [0..<4])
      = concat (map (\<lambda>i. take 8 (drop (i * 8) buf)) [0..<4])"
    using assms by (intro arg_cong [where f = concat] map_cong) (auto simp: to_from_le_bytes)
  also have "\<dots> = take 8 buf @ take 8 (drop 8 buf) @ take 8 (drop 16 buf) @ take 8 (drop 24 buf)"
    by (simp add: upt_rec)
  also have "\<dots> = take 32 buf" by (rule chunks4)
  finally show ?thesis using assms by simp
qed

lemma pack_unpack_ascii:
  assumes "ascii_bytes name" "pack_short_name name = (lo, hi, len)"
  shows "unpack_short_name lo hi len = take SHORT_NAME_MAX name"
proof -
  let ?buf = "zero_padded 16 name"
  have len: "unat len = min (length name) 16"
    using assms(2) by (auto simp: pack_short_name_def SHORT_NAME_MAX_def Let_def unat_of_nat take_bit_nat_eq_self_iff)
  have "to_le_bytes lo @ to_le_bytes hi = ?buf"
    using assms(2) unpack_pack_buffer [of ?buf]
    by (auto simp: pack_short_name_def SHORT_NAME_MAX_def Let_def)
  then have "unpack_short_name lo hi len = str_or_invalid (take (min (length name) 16) ?buf)"
    by (simp add: unpack_short_name_def Let_def len)
  also have "take (min (length name) 16) ?buf = take 16 name"
    by (simp add: take_zero_padded) (simp add: min_def)
  finally show ?thesis
    using assms(1) by (simp add: SHORT_NAME_MAX_def str_or_invalid_ascii ascii_take)
qed

lemma message_roundtrip_ascii:
  assumes "ascii_bytes s"
  shows "as_str_lossy (from_str_lossy s) = take (MESSAGE_INLINE_WORDS * 8) s"
proof -
  let ?buf = "zero_padded 32 s"
  have len: "unat (of_nat (min (length s) 32) :: u64) = min (length s) 32"
    by (simp add: unat_of_nat take_bit_nat_eq_self_iff)
  have "as_str_lossy (from_str_lossy s) = str_or_invalid (take (min (length s) 32) ?buf)"
    using message_words_buffer [of ?buf]
    by (simp add: as_str_lossy_def from_str_lossy_def MESSAGE_INLINE_WORDS_def Let_def len comp_def
        del: of_nat_min)
  also have "take (min (length s) 32) ?buf = take 32 s"
    by (simp add: take_zero_padded) (simp add: min_def)
  finally show ?thesis
    using assms by (simp add: MESSAGE_INLINE_WORDS_def str_or_invalid_ascii ascii_take)
qed

lemma message_wf_from_str: "message_wf (from_str_lossy s)"
  by (simp add: message_wf_def from_str_lossy_def Let_def)

lemma unsigned_abs_as_retval: "unsigned_abs (as_retval e) = error_code e"
  by (cases e) (simp_all add: unsigned_abs_def as_retval_def)

subsection \<open>Properties\<close>

text \<open>Every error code and every exit status survives the register encoding: decoding
  what the kernel puts in RAX (or in RAX and RDI for \<^verbatim>\<open>sys_wait\<close>) gives the value back, and an
  error is always a negative \<^verbatim>\<open>i64\<close>, so the sign test separates it from a success.\<close>

lemma wire_codes_roundtrip:
  "from_retval (as_retval e) = e \<and> bit (as_retval e) 63
   \<and> case_prod from_regs (to_regs st) = st"
proof -
  have "from_retval (as_retval e) = e"
    unfolding from_retval_def unsigned_abs_as_retval by (cases e) simp_all
  moreover have "bit (as_retval e) 63"
    by (cases e) (simp_all add: as_retval_def)
  moreover have "case_prod from_regs (to_regs st) = st"
    by (cases st) (simp_all add: from_regs_def ucast_up_ucast_id is_up)
  ultimately show ?thesis by blast
qed

text \<open>ASCII text survives both register packings: a short name comes back as its first
  16 bytes, a message as its first 32, so names and messages within the bound come back whole.\<close>

lemma packing_roundtrip:
  assumes "ascii_bytes s"
  shows "(case pack_short_name s of (lo, hi, len) \<Rightarrow> unpack_short_name lo hi len) = take SHORT_NAME_MAX s
    \<and> as_str_lossy (from_str_lossy s) = take (MESSAGE_INLINE_WORDS * 8) s"
  using assms pack_unpack_ascii message_roundtrip_ascii by (auto split: prod.split)

end
