(* ===== verification/Ring.thy ===== *)
theory Ring
  imports Tarn_Prelude
begin

text \<open>
  \<^verbatim>\<open>libs/tarnos-kcore/src/ring.rs\<close>: the fixed-capacity FIFO behind the scheduler's ready
  queue and every endpoint's sender queue.  The const generic \<^verbatim>\<open>N\<close> is the length of the
  backing array.  The locale \<^verbatim>\<open>bounded_fifo\<close> is what the clients rely on; it is interpreted
  on the ring buffer at the end of the theory.
\<close>

subsection \<open>The ring buffer\<close>

record 'a ring =
  buffer :: "'a option list"
  head :: nat
  len :: nat

definition ring_new :: "nat \<Rightarrow> 'a ring" where
  "ring_new n = \<lparr>buffer = replicate n None, head = 0, len = 0\<rparr>"

definition ring_is_empty :: "'a ring \<Rightarrow> bool" where
  "ring_is_empty r \<longleftrightarrow> len r = 0"

definition ring_is_full :: "'a ring \<Rightarrow> bool" where
  "ring_is_full r \<longleftrightarrow> len r = length (buffer r)"

definition ring_push :: "'a \<Rightarrow> 'a ring \<Rightarrow> bool \<times> 'a ring" where
  "ring_push value r =
    (if len r = length (buffer r) then (False, r)
     else let idx = (head r + len r) mod length (buffer r)
          in (True, r\<lparr>buffer := (buffer r)[idx := Some value], len := len r + 1\<rparr>))"

definition ring_pop :: "'a ring \<Rightarrow> 'a option \<times> 'a ring" where
  "ring_pop r =
    (if len r = 0 then (None, r)
     else let value = buffer r ! head r
          in (value, r\<lparr>buffer := (buffer r)[head r := None],
                       head := (head r + 1) mod length (buffer r),
                       len := len r - 1\<rparr>))"

subsection \<open>Abstraction and invariant\<close>

definition ring_at :: "'a ring \<Rightarrow> nat \<Rightarrow> 'a option" where
  "ring_at r i = buffer r ! ((head r + i) mod length (buffer r))"

definition ring_list :: "'a ring \<Rightarrow> 'a list" where
  "ring_list r = map (\<lambda>i. the (ring_at r i)) [0..<len r]"

text \<open>Exactly the \<^term>\<open>len r\<close> cells from the head on are occupied: a popped value is not kept.\<close>

definition ring_wf :: "'a ring \<Rightarrow> bool" where
  "ring_wf r \<longleftrightarrow> len r \<le> length (buffer r) \<and> (buffer r \<noteq> [] \<longrightarrow> head r < length (buffer r))
     \<and> (\<forall>i < length (buffer r). ring_at r i \<noteq> None \<longleftrightarrow> i < len r)"

lemma length_ring_list [simp]: "length (ring_list r) = len r"
  by (simp add: ring_list_def)

lemma ring_index_inj:
  fixes h i j n :: nat
  assumes "i < n" "j < n"
  shows "(h + i) mod n = (h + j) mod n \<longleftrightarrow> i = j"
proof
  assume eq: "(h + i) mod n = (h + j) mod n"
  have *: "a = b" if le: "a \<le> b" "b < n" and m: "(h + a) mod n = (h + b) mod n" for a b :: nat
  proof -
    have "n dvd (h + b) - (h + a)"
      using m le by (metis mod_eq_dvd_iff_nat add_le_cancel_left)
    then have "n dvd b - a" by simp
    then show ?thesis using le by (metis diff_is_0_eq' dvd_imp_le le_antisym less_imp_diff_less not_le zero_less_diff)
  qed
  show "i = j"
    using * [of i j] * [of j i] eq assms by (cases "i \<le> j") auto
qed simp

lemma ring_new_wf: "ring_wf (ring_new n)"
proof -
  have "ring_at (ring_new n) i = None" if "i < n" for i
  proof -
    have "i mod n < n" using that by simp
    then show ?thesis by (simp add: ring_at_def ring_new_def del: mod_less)
  qed
  then show ?thesis by (auto simp: ring_wf_def ring_new_def)
qed

lemma ring_new_list [simp]: "ring_list (ring_new n) = []"
  by (simp add: ring_list_def ring_new_def)

lemma ring_push_cap: "ring_push x r = (b, r') \<Longrightarrow> length (buffer r') = length (buffer r)"
  by (auto simp: ring_push_def Let_def split: if_splits)

lemma ring_pop_cap: "ring_pop r = (v, r') \<Longrightarrow> length (buffer r') = length (buffer r)"
  by (auto simp: ring_pop_def Let_def split: if_splits)

lemma ring_push_True:
  assumes "ring_wf r" "ring_push x r = (True, r')"
  shows "len r < length (buffer r)"
    "r' = r\<lparr>buffer := (buffer r)[(head r + len r) mod length (buffer r) := Some x], len := len r + 1\<rparr>"
  using assms by (auto simp: ring_wf_def ring_push_def Let_def split: if_splits)

lemma ring_push_at:
  assumes wf: "ring_wf r" and push: "ring_push x r = (True, r')" and i: "i < length (buffer r)"
  shows "ring_at r' i = (if i = len r then Some x else ring_at r i)"
proof -
  note r = ring_push_True [OF wf push]
  have lt: "(head r + i) mod length (buffer r) < length (buffer r)"
    "(head r + len r) mod length (buffer r) < length (buffer r)" using i by (auto intro!: mod_less_divisor)
  have "ring_at r' i = (buffer r)[(head r + len r) mod length (buffer r) := Some x]
      ! ((head r + i) mod length (buffer r))"
    by (simp add: ring_at_def r(2))
  also have "\<dots> = (if i = len r then Some x else ring_at r i)"
    using ring_index_inj [OF i r(1), of "head r"] lt
    by (auto simp: nth_list_update ring_at_def)
  finally show ?thesis .
qed

lemma ring_push_spec:
  assumes wf: "ring_wf r" and push: "ring_push x r = (b, r')"
  shows "ring_wf r'" "b \<longleftrightarrow> len r < length (buffer r)"
    "ring_list r' = (if b then ring_list r @ [x] else ring_list r)" "\<not> b \<Longrightarrow> r' = r"
proof -
  have le: "len r \<le> length (buffer r)" using wf by (simp add: ring_wf_def)
  show b: "b \<longleftrightarrow> len r < length (buffer r)" "\<not> b \<Longrightarrow> r' = r"
    using push le by (auto simp: ring_push_def Let_def split: if_splits)
  have "ring_wf r' \<and> ring_list r' = ring_list r @ [x]" if b
  proof -
    have p: "ring_push x r = (True, r')" using push that by simp
    note r = ring_push_True [OF wf p]
    have f: "length (buffer r') = length (buffer r)" "head r' = head r" "len r' = len r + 1"
      by (simp_all add: r(2))
    note at = ring_push_at [OF wf p]
    have "\<forall>i < length (buffer r'). ring_at r' i \<noteq> None \<longleftrightarrow> i < len r'"
      using wf unfolding f by (simp add: at ring_wf_def less_Suc_eq)
    then have "ring_wf r'" using wf r(1) f by (auto simp: ring_wf_def)
    moreover have "map (\<lambda>i. the (ring_at r' i)) [0..<len r] = ring_list r"
      using r(1) at by (simp add: ring_list_def)
    then have "ring_list r' = ring_list r @ [x]"
      using at [of "len r"] r(1) by (simp add: ring_list_def f)
    ultimately show ?thesis by blast
  qed
  then show "ring_wf r'" "ring_list r' = (if b then ring_list r @ [x] else ring_list r)"
    using wf b by auto
qed

lemma ring_pop_nonempty:
  assumes "0 < len r" "ring_pop r = (v, r')"
  shows "v = buffer r ! head r"
    "r' = r\<lparr>buffer := (buffer r)[head r := None], head := (head r + 1) mod length (buffer r), len := len r - 1\<rparr>"
  using assms by (auto simp: ring_pop_def Let_def)

lemma ring_pop_at:
  assumes wf: "ring_wf r" and pop: "ring_pop r = (v, r')" and n: "0 < len r"
    and i: "i < length (buffer r)"
  shows "ring_at r' i = (if i + 1 < length (buffer r) then ring_at r (i + 1) else None)"
proof -
  let ?n = "length (buffer r)"
  have h: "head r < ?n" using wf n by (auto simp: ring_wf_def)
  have idx: "((head r + 1) mod ?n + i) mod ?n = (head r + (i + 1)) mod ?n"
    by (metis add.assoc add.commute mod_add_left_eq)
  have at: "ring_at r' i = (buffer r)[head r := None] ! ((head r + (i + 1)) mod ?n)"
    using idx by (simp add: ring_at_def ring_pop_nonempty(2) [OF n pop])
  show ?thesis
  proof (cases "i + 1 < ?n")
    case True
    have "(head r + (i + 1)) mod ?n \<noteq> (head r + 0) mod ?n"
      using ring_index_inj [OF True, of 0 "head r"] i by (metis add_is_0 gr_implies_not0 neq0_conv one_neq_zero)
    then have "(head r + (i + 1)) mod ?n \<noteq> head r" using h by simp
    then show ?thesis using True unfolding at by (simp add: ring_at_def)
  next
    case False
    then have "i + 1 = ?n" using i by simp
    then have "(head r + (i + 1)) mod ?n = head r" using h by simp
    then show ?thesis using False h by (simp only: at) simp
  qed
qed

lemma ring_list_Cons:
  assumes "ring_wf r" "0 < len r"
  shows "ring_list r = the (ring_at r 0) # map (\<lambda>i. the (ring_at r (i + 1))) [0..<len r - 1]"
  using assms(2)
  by (cases "len r") (simp_all add: ring_list_def upt_conv_Cons comp_def flip: map_Suc_upt del: upt_Suc)

lemma ring_pop_spec:
  assumes wf: "ring_wf r" and pop: "ring_pop r = (v, r')"
  shows "ring_wf r'" "ring_list r' = tl (ring_list r)"
    "v = (case ring_list r of [] \<Rightarrow> None | x # _ \<Rightarrow> Some x)"
proof -
  let ?n = "length (buffer r)"
  have "ring_wf r' \<and> ring_list r' = tl (ring_list r) \<and> v = (case ring_list r of [] \<Rightarrow> None | x # _ \<Rightarrow> Some x)"
  proof (cases "len r = 0")
    case True
    then show ?thesis using wf pop by (simp add: ring_pop_def ring_list_def)
  next
    case False
    then have h: "head r < ?n" and l: "0 < len r" "len r \<le> ?n" using wf by (auto simp: ring_wf_def)
    note r = ring_pop_nonempty [OF l(1) pop]
    have "0 < ?n" using h by linarith
    then have m: "(head r + 1) mod ?n < ?n" by (rule mod_less_divisor)
    have f: "length (buffer r') = ?n" "len r' = len r - 1" "head r' < ?n" "v = ring_at r 0"
      using h m by (simp_all add: r ring_at_def)
    note at = ring_pop_at [OF wf pop l(1)]
    have occ: "\<And>i. i < ?n \<Longrightarrow> (ring_at r i \<noteq> None) = (i < len r)" using wf by (simp add: ring_wf_def)
    have "(ring_at r' i \<noteq> None) = (i < len r')" if "i < ?n" for i
      using at [OF that] occ [of "i + 1"] f(2) l by (cases "i + 1 < ?n") auto
    then have "ring_wf r'" using f l by (auto simp: ring_wf_def)
    moreover have "ring_list r' = map (\<lambda>i. the (ring_at r (i + 1))) [0..<len r - 1]"
      unfolding ring_list_def f(2) using l at by (intro map_cong refl) (simp add: less_diff_conv)
    moreover have "ring_at r 0 \<noteq> None" using occ [of 0] l by fastforce
    ultimately show ?thesis using ring_list_Cons [OF wf l(1)] f(4) by simp
  qed
  then show "ring_wf r'" "ring_list r' = tl (ring_list r)"
    "v = (case ring_list r of [] \<Rightarrow> None | x # _ \<Rightarrow> Some x)" by blast+
qed

subsection \<open>What the clients rely on\<close>

text \<open>
  A bounded first-in first-out queue: \<^term>\<open>push\<close> appends unless the queue holds
  \<^term>\<open>cap\<close> values, \<^term>\<open>pop\<close> takes the oldest value.
\<close>

locale bounded_fifo =
  fixes empty :: 'q
    and push :: "'a \<Rightarrow> 'q \<Rightarrow> bool \<times> 'q"
    and pop :: "'q \<Rightarrow> 'a option \<times> 'q"
    and items :: "'q \<Rightarrow> 'a list"
    and ok :: "'q \<Rightarrow> bool"
    and cap :: nat
  assumes ok_empty: "ok empty"
    and items_empty: "items empty = []"
    and push_law: "ok q \<Longrightarrow> push x q = (b, q') \<Longrightarrow>
        ok q' \<and> (b \<longleftrightarrow> length (items q) < cap) \<and> items q' = (if b then items q @ [x] else items q)"
    and pop_law: "ok q \<Longrightarrow> pop q = (v, q') \<Longrightarrow>
        ok q' \<and> items q' = tl (items q) \<and> v = (case items q of [] \<Rightarrow> None | x # _ \<Rightarrow> Some x)"
    and bounded: "ok q \<Longrightarrow> length (items q) \<le> cap"
begin

lemma push_ok: "ok q \<Longrightarrow> ok (snd (push x q))"
  using push_law [of q x "fst (push x q)" "snd (push x q)"] by simp

lemma push_accepts: "ok q \<Longrightarrow> fst (push x q) \<longleftrightarrow> length (items q) < cap"
  using push_law [of q x "fst (push x q)" "snd (push x q)"] by simp

lemma push_items:
  "ok q \<Longrightarrow> items (snd (push x q)) = (if length (items q) < cap then items q @ [x] else items q)"
  using push_law [of q x "fst (push x q)" "snd (push x q)"] by simp

lemma pop_ok: "ok q \<Longrightarrow> ok (snd (pop q))"
  using pop_law [of q "fst (pop q)" "snd (pop q)"] by simp

lemma pop_items: "ok q \<Longrightarrow> items (snd (pop q)) = tl (items q)"
  using pop_law [of q "fst (pop q)" "snd (pop q)"] by simp

lemma pop_value: "ok q \<Longrightarrow> fst (pop q) = (case items q of [] \<Rightarrow> None | x # _ \<Rightarrow> Some x)"
  using pop_law [of q "fst (pop q)" "snd (pop q)"] by simp

lemma pop_None_iff: "ok q \<Longrightarrow> fst (pop q) = None \<longleftrightarrow> items q = []"
  by (simp add: pop_value split: list.splits)

lemma pop_SomeD: "ok q \<Longrightarrow> fst (pop q) = Some x \<Longrightarrow> items q = x # items (snd (pop q))"
  by (simp add: pop_value pop_items split: list.splits)

lemma push_singleton: "0 < cap \<Longrightarrow> ok (snd (push x empty)) \<and> items (snd (push x empty)) = [x]"
  by (simp add: push_ok ok_empty push_items items_empty)

end

text \<open>Sequences of operations, on a queue and on the list it stands for.\<close>

datatype 'a fifo_op = Push 'a | Pop
datatype 'a fifo_out = Pushed bool | Popped "'a option"

fun ring_run :: "'a fifo_op list \<Rightarrow> 'a ring \<Rightarrow> 'a fifo_out list" where
  "ring_run [] r = []"
| "ring_run (Push x # ops) r = (case ring_push x r of (b, r') \<Rightarrow> Pushed b # ring_run ops r')"
| "ring_run (Pop # ops) r = (case ring_pop r of (v, r') \<Rightarrow> Popped v # ring_run ops r')"

fun fifo_run :: "nat \<Rightarrow> 'a fifo_op list \<Rightarrow> 'a list \<Rightarrow> 'a fifo_out list" where
  "fifo_run n [] xs = []"
| "fifo_run n (Push x # ops) xs =
    (if length xs < n then Pushed True # fifo_run n ops (xs @ [x]) else Pushed False # fifo_run n ops xs)"
| "fifo_run n (Pop # ops) [] = Popped None # fifo_run n ops []"
| "fifo_run n (Pop # ops) (x # xs) = Popped (Some x) # fifo_run n ops xs"

text \<open>A ring of capacity \<^term>\<open>n\<close>: the const generic is part of the type in the source.\<close>

definition ring_ok :: "nat \<Rightarrow> 'a ring \<Rightarrow> bool" where
  "ring_ok n r \<longleftrightarrow> ring_wf r \<and> length (buffer r) = n"

interpretation ring: bounded_fifo "ring_new n" ring_push ring_pop ring_list "ring_ok n" n for n
proof
  show "ring_ok n (ring_new n)" by (simp add: ring_ok_def ring_new_wf) (simp add: ring_new_def)
next
  fix q :: "'a ring" and x b q'
  assume "ring_ok n q" "ring_push x q = (b, q')"
  then show "ring_ok n q' \<and> (b \<longleftrightarrow> length (ring_list q) < n)
      \<and> ring_list q' = (if b then ring_list q @ [x] else ring_list q)"
    using ring_push_spec [of q x b q'] ring_push_cap [of x q b q'] by (auto simp: ring_ok_def)
next
  fix q :: "'a ring" and v q'
  assume "ring_ok n q" "ring_pop q = (v, q')"
  then show "ring_ok n q' \<and> ring_list q' = tl (ring_list q)
      \<and> v = (case ring_list q of [] \<Rightarrow> None | x # _ \<Rightarrow> Some x)"
    using ring_pop_spec [of q v q'] ring_pop_cap [of q v q'] by (auto simp: ring_ok_def)
next
  fix q :: "'a ring"
  assume "ring_ok n q"
  then show "length (ring_list q) \<le> n" by (simp add: ring_ok_def ring_wf_def)
qed simp

lemma ring_is_empty_iff: "ring_is_empty r \<longleftrightarrow> ring_list r = []"
  by (metis length_0_conv length_ring_list ring_is_empty_def)

lemma ring_is_full_iff: "ring_ok n r \<Longrightarrow> ring_is_full r \<longleftrightarrow> length (ring_list r) = n"
  by (simp add: ring_is_full_def ring_ok_def)

lemma ring_run_eq_fifo_run:
  "ring_ok n r \<Longrightarrow> ring_run ops r = fifo_run n ops (ring_list r)"
proof (induction ops arbitrary: r)
  case (Cons a ops)
  show ?case
  proof (cases a)
    case (Push x)
    then show ?thesis
      using Cons.IH [OF ring.push_ok [OF Cons.prems]] ring.push_accepts [OF Cons.prems, of x]
        ring.push_items [OF Cons.prems, of x]
      by (simp add: case_prod_beta)
  next
    case Pop
    then show ?thesis
      using Cons.IH [OF ring.pop_ok [OF Cons.prems]] ring.pop_law [OF Cons.prems, of "fst (ring_pop r)" "snd (ring_pop r)"]
      by (cases "ring_list r") (simp_all add: case_prod_beta)
  qed
qed simp

text \<open>C12. The ring buffer is a bounded first-in first-out queue: from \<^verbatim>\<open>new\<close>, every sequence
  of pushes and pops gives exactly the results it gives on a list of at most \<^verbatim>\<open>N\<close> values, at
  any capacity and across any number of wrap-arounds.\<close>

theorem ring_refines_fifo: "ring_run ops (ring_new n) = fifo_run n ops []"
  using ring_run_eq_fifo_run [OF ring.ok_empty] by simp

subsection \<open>Draining a queue\<close>

text \<open>
  The loop \<^verbatim>\<open>while let Some(x) = q.pop() { if x != target { kept.push(x); } }\<close> of the scheduler's
  \<^verbatim>\<open>remove_from_ready_queue\<close>; it stops because every pop that returns a value shortens the queue.
\<close>

function ring_drain_except :: "'a \<Rightarrow> 'a ring \<Rightarrow> 'a ring \<Rightarrow> 'a ring" where
  "ring_drain_except target q kept =
    (case ring_pop q of
       (None, _) \<Rightarrow> kept
     | (Some x, q') \<Rightarrow> ring_drain_except target q' (if x \<noteq> target then snd (ring_push x kept) else kept))"
  by pat_completeness auto
termination
  by (relation "measure (\<lambda>(_, q, _). len q)") (auto simp: ring_pop_def Let_def split: if_splits)

declare ring_drain_except.simps [simp del]

lemma ring_drain_except_spec:
  assumes "ring_ok n q" "ring_ok n kept" "length (ring_list kept) + length (ring_list q) \<le> n"
  shows "ring_ok n (ring_drain_except t q kept)
    \<and> ring_list (ring_drain_except t q kept) = ring_list kept @ filter (\<lambda>x. x \<noteq> t) (ring_list q)"
  using assms
proof (induction "ring_list q" arbitrary: q kept)
  case Nil
  then have "fst (ring_pop q) = None" using ring.pop_None_iff by metis
  then show ?case using Nil by (subst (1 2) ring_drain_except.simps) (simp add: case_prod_beta)
next
  case (Cons x xs)
  obtain q' where pop: "ring_pop q = (Some x, q')"
    using ring.pop_law [OF Cons.prems(1), of "fst (ring_pop q)" "snd (ring_pop q)"] Cons.hyps(2)
    by (metis list.simps(5) prod.collapse)
  have q': "ring_ok n q'" "ring_list q' = xs"
    using ring.pop_law [OF Cons.prems(1) pop] Cons.hyps(2) by (metis list.sel(3))+
  let ?kept = "if x \<noteq> t then snd (ring_push x kept) else kept"
  have k: "ring_ok n ?kept" "ring_list ?kept = ring_list kept @ (if x \<noteq> t then [x] else [])"
    using ring.push_ok [OF Cons.prems(2)] ring.push_items [OF Cons.prems(2), of x] Cons.prems(2,3)
    by (auto simp flip: Cons.hyps(2))
  have "ring_drain_except t q kept = ring_drain_except t q' ?kept"
    by (subst ring_drain_except.simps) (simp add: pop)
  moreover have "length (ring_list ?kept) + length (ring_list q') \<le> n"
    using Cons.prems(3) k(2) q'(2) by (simp flip: Cons.hyps(2) del: length_ring_list)
  ultimately show ?case
    using Cons.hyps(1) [OF q'(2) [symmetric] q'(1) k(1)] k(2) q'(2)
    by (simp flip: Cons.hyps(2) del: length_ring_list)
qed

end
