(* ===== verification/Bitmap.thy ===== *)
theory Bitmap
  imports Tarn_Prelude
begin

text \<open>
  \<^verbatim>\<open>libs/tarnos-kcore/src/bitmap.rs\<close>: the free-index bitmap of the physical frame allocator
  (a set bit is a free index) and the rounding of a firmware memory region to whole frames.
  The locale \<^verbatim>\<open>index_pool\<close> is the contract the frame allocator relies on.
\<close>

subsection \<open>The bitmap\<close>

record bitmap =
  words :: "u64 list"
  frame_count :: nat

definition capacity :: "bitmap \<Rightarrow> nat" where
  "capacity b = length (words b) * 64"

definition bitmap_new :: "nat \<Rightarrow> bitmap" where
  "bitmap_new n = \<lparr>words = replicate n 0, frame_count = 0\<rparr>"

definition set_free :: "bitmap \<Rightarrow> nat \<Rightarrow> bitmap" where
  "set_free b index =
    (if index \<ge> capacity b then b
     else let b' = b\<lparr>words := (words b)[index div 64 := (words b ! (index div 64)) OR push_bit (index mod 64) 1]\<rparr>
          in if index \<ge> frame_count b then b'\<lparr>frame_count := index + 1\<rparr> else b')"

definition set_used :: "bitmap \<Rightarrow> nat \<Rightarrow> bitmap" where
  "set_used b index =
    (if index \<ge> capacity b then b
     else b\<lparr>words := (words b)[index div 64 := (words b ! (index div 64)) AND NOT (push_bit (index mod 64) 1)]\<rparr>)"

definition is_free :: "bitmap \<Rightarrow> nat \<Rightarrow> bool" where
  "is_free b index \<longleftrightarrow>
    index < capacity b \<and> (words b ! (index div 64)) AND push_bit (index mod 64) 1 \<noteq> 0"

text \<open>\<^verbatim>\<open>u64::count_ones\<close> and \<^verbatim>\<open>u64::trailing_zeros\<close>.\<close>

definition count_ones :: "u64 \<Rightarrow> nat" where
  "count_ones w = length (filter (bit w) [0..<64])"

definition trailing_zeros :: "u64 \<Rightarrow> nat" where
  "trailing_zeros w = length (takeWhile (\<lambda>i. \<not> bit w i) [0..<64])"

definition free_count :: "bitmap \<Rightarrow> nat" where
  "free_count b = sum_list (map count_ones (words b))"

text \<open>The \<^verbatim>\<open>for word_index in 0..frame_count.div_ceil(64)\<close> loop of \<^verbatim>\<open>allocate\<close>.\<close>

fun scan_words :: "bitmap \<Rightarrow> nat list \<Rightarrow> nat option" where
  "scan_words b [] = None"
| "scan_words b (i # is) =
    (let word = words b ! i
     in if word \<noteq> 0 then Some (i * 64 + trailing_zeros word) else scan_words b is)"

definition allocate :: "bitmap \<Rightarrow> nat option \<times> bitmap" where
  "allocate b =
    (case scan_words b [0..<div_ceil (frame_count b) 64] of
       Some index \<Rightarrow> (Some index, set_used b index)
     | None \<Rightarrow> (None, b))"

text \<open>
  \<^verbatim>\<open>usable_frame_range\<close> as the bounds of the returned \<^verbatim>\<open>Range<usize>\<close>; \<^term>\<open>None\<close> is the overflow
  of \<^verbatim>\<open>base + length\<close>, a panic under the dev profile's overflow checks.
\<close>

definition usable_frame_range :: "u64 \<Rightarrow> u64 \<Rightarrow> u64 \<Rightarrow> (nat \<times> nat) option" where
  "usable_frame_range base len frame_size =
    (case checked_add base len of
       None \<Rightarrow> None
     | Some limit \<Rightarrow> Some (div_ceil (unat base) (unat frame_size), unat limit div unat frame_size))"

subsection \<open>Bits\<close>

declare push_bit_of_1 [simp del]

lemma and_single_bit: "(w AND push_bit n 1 \<noteq> 0) \<longleftrightarrow> bit w n" for w :: u64
proof (cases "n < 64")
  case True
  have "w AND push_bit n 1 = (if bit w n then push_bit n 1 else 0)"
    using True by (intro bit_word_eqI) (auto simp: bit_and_iff bit_push_bit_iff bit_1_iff)
  moreover have "bit (push_bit n 1 :: u64) n" using True by (simp add: bit_push_bit_iff)
  then have "(push_bit n 1 :: u64) \<noteq> 0" by fastforce
  ultimately show ?thesis by simp
next
  case False
  then have "w AND push_bit n 1 = 0"
    by (intro bit_word_eqI) (auto simp: bit_and_iff bit_push_bit_iff bit_1_iff)
  then show ?thesis using False by (auto dest: bit_imp_le_length)
qed

lemma bit_set_bit: "n < 64 \<Longrightarrow> bit (w OR push_bit n 1) m \<longleftrightarrow> bit w m \<or> m = n" for w :: u64
  by (auto simp: bit_or_iff bit_push_bit_iff bit_1_iff)

lemma bit_clear_bit: "bit (w AND NOT (push_bit n 1)) m \<longleftrightarrow> bit w m \<and> m \<noteq> n" for w :: u64
  by (auto simp: bit_and_iff bit_not_iff bit_push_bit_iff bit_1_iff dest: bit_imp_le_length)

lemma word_nonzero_bit: "w \<noteq> 0 \<longleftrightarrow> (\<exists>n < 64. bit w n)" for w :: u64
proof -
  have "(\<forall>n < 64. \<not> bit w n) \<Longrightarrow> w = 0" by (intro bit_word_eqI) auto
  then show ?thesis by auto
qed

lemma trailing_zeros_least:
  assumes "w \<noteq> 0"
  shows "trailing_zeros w < 64" "bit w (trailing_zeros w)" "i < trailing_zeros w \<Longrightarrow> \<not> bit w i"
proof -
  let ?t = "takeWhile (\<lambda>i. \<not> bit w i) [0..<64]"
  have "\<exists>n \<in> set [0..<64]. bit w n" using assms by (auto simp: word_nonzero_bit)
  then have "?t \<noteq> [0..<64]" by (metis set_takeWhileD)
  then have "length ?t < length [0..<64]"
    by (metis length_takeWhile_le le_neq_implies_less nth_equalityI takeWhile_nth)
  then show lt: "trailing_zeros w < 64" by (simp add: trailing_zeros_def)
  show "bit w (trailing_zeros w)"
    using nth_length_takeWhile [of "\<lambda>i. \<not> bit w i" "[0..<64]"] lt by (simp add: trailing_zeros_def)
  assume i: "i < trailing_zeros w"
  then have "?t ! i = i" using lt by (simp add: takeWhile_nth trailing_zeros_def)
  then have "i \<in> set ?t" using i by (metis nth_mem trailing_zeros_def)
  then show "\<not> bit w i" by (rule set_takeWhileD [THEN conjunct2])
qed

subsection \<open>The set of free indices\<close>

definition free_set :: "bitmap \<Rightarrow> nat set" where
  "free_set b = {i. is_free b i}"

definition bitmap_wf :: "bitmap \<Rightarrow> bool" where
  "bitmap_wf b \<longleftrightarrow> frame_count b \<le> capacity b \<and> (\<forall>i. is_free b i \<longrightarrow> i < frame_count b)"

lemma is_free_bit: "is_free b i \<longleftrightarrow> i < capacity b \<and> bit (words b ! (i div 64)) (i mod 64)"
  by (simp add: is_free_def and_single_bit)

lemma capacity_set [simp]:
  "capacity (set_free b i) = capacity b" "capacity (set_used b i) = capacity b"
  by (simp_all add: capacity_def set_free_def set_used_def Let_def)

lemma word_index_less: "i < capacity b \<Longrightarrow> i div 64 < length (words b)"
  by (simp add: capacity_def div_less_iff_less_mult)

lemma div_mod_64_eq: "i div 64 = j div 64 \<and> i mod 64 = j mod 64 \<longleftrightarrow> i = j" for i j :: nat
  by (metis div_mult_mod_eq)

lemma is_free_set_free: "is_free (set_free b i) j \<longleftrightarrow> is_free b j \<or> (j = i \<and> i < capacity b)"
proof (cases "i < capacity b")
  case True
  have "words (set_free b i) = (words b)[i div 64 := (words b ! (i div 64)) OR push_bit (i mod 64) 1]"
    using True by (simp add: set_free_def Let_def)
  then show ?thesis
    using True word_index_less [OF True] div_mod_64_eq [of i j]
    by (cases "i div 64 = j div 64") (auto simp: is_free_bit bit_set_bit nth_list_update)
qed (simp add: set_free_def)

lemma is_free_set_used: "is_free (set_used b i) j \<longleftrightarrow> is_free b j \<and> j \<noteq> i"
proof (cases "i < capacity b")
  case True
  have "words (set_used b i) = (words b)[i div 64 := (words b ! (i div 64)) AND NOT (push_bit (i mod 64) 1)]"
    using True by (simp add: set_used_def)
  then show ?thesis
    using True word_index_less [OF True] div_mod_64_eq [of i j]
    by (cases "i div 64 = j div 64") (auto simp: is_free_bit bit_clear_bit nth_list_update)
qed (auto simp: set_used_def is_free_def)

lemma free_set_set_free: "free_set (set_free b i) = (if i < capacity b then insert i (free_set b) else free_set b)"
  by (auto simp: free_set_def is_free_set_free)

lemma free_set_set_used: "free_set (set_used b i) = free_set b - {i}"
  by (auto simp: free_set_def is_free_set_used)

lemma finite_free_set [simp]: "finite (free_set b)"
  by (rule finite_subset [of _ "{..<capacity b}"]) (auto simp: free_set_def is_free_def)

lemma bitmap_wf_new: "bitmap_wf (bitmap_new n)"
proof -
  have "\<not> is_free (bitmap_new n) i" for i
    using word_index_less [of i "bitmap_new n"] by (auto simp: is_free_bit bitmap_new_def)
  then show ?thesis by (simp add: bitmap_wf_def) (simp add: bitmap_new_def)
qed

lemma free_set_new: "free_set (bitmap_new n) = {}"
  using bitmap_wf_new [of n] by (auto simp: bitmap_wf_def free_set_def) (simp add: bitmap_new_def)

lemma bitmap_wf_set_free: "bitmap_wf b \<Longrightarrow> bitmap_wf (set_free b i)"
  by (auto simp: bitmap_wf_def is_free_set_free) (auto simp: set_free_def Let_def)

lemma bitmap_wf_set_used: "bitmap_wf b \<Longrightarrow> bitmap_wf (set_used b i)"
  by (auto simp: bitmap_wf_def is_free_set_used) (auto simp: set_used_def)

subsection \<open>Counting and allocating\<close>

lemma count_ones_card: "count_ones w = card {n. n < 64 \<and> bit w n}"
proof -
  have "set (filter (bit w) [0..<64]) = {n. n < 64 \<and> bit w n}" by auto
  then show ?thesis unfolding count_ones_def by (metis distinct_card distinct_filter distinct_upt)
qed

lemma card_set_bits:
  "card {i. i < length ws * 64 \<and> bit (ws ! (i div 64)) (i mod 64)} = sum_list (map count_ones ws)"
  for ws :: "u64 list"
proof (induction ws rule: rev_induct)
  case (snoc w ws)
  let ?S = "\<lambda>ws :: u64 list. {i. i < length ws * 64 \<and> bit (ws ! (i div 64)) (i mod 64)}"
  let ?T = "(\<lambda>n. length ws * 64 + n) ` {n. n < 64 \<and> bit w n}"
  have "i \<in> ?S (ws @ [w]) \<longleftrightarrow> i \<in> ?S ws \<union> ?T" for i
  proof (cases "i < length ws * 64")
    case True
    then have "i div 64 < length ws" by (simp add: div_less_iff_less_mult)
    then show ?thesis using True by (auto simp: nth_append)
  next
    case False
    then obtain n where n: "i = length ws * 64 + n" by (metis le_add_diff_inverse not_less)
    show ?thesis
    proof (cases "n < 64")
      case True
      then have "i div 64 = length ws" "i mod 64 = n" using n by auto
      then show ?thesis using n True by (auto simp: nth_append)
    qed (auto simp: n)
  qed
  then have "?S (ws @ [w]) = ?S ws \<union> ?T" by blast
  moreover have "?S ws \<inter> ?T = {}" by auto
  moreover have "card ?T = count_ones w" by (simp add: count_ones_card card_image)
  ultimately show ?case using snoc by (simp add: card_Un_disjoint)
qed simp

lemma free_count_card: "free_count b = card (free_set b)"
  using card_set_bits [of "words b"] by (simp add: free_count_def free_set_def is_free_bit capacity_def)

lemma scan_words_None: "scan_words b is = None \<longleftrightarrow> (\<forall>i \<in> set is. words b ! i = 0)"
  by (induction "is") (auto simp: Let_def)

lemma scan_words_Some:
  assumes "scan_words b is = Some x"
  shows "\<exists>us i vs. is = us @ i # vs \<and> (\<forall>u \<in> set us. words b ! u = 0) \<and> words b ! i \<noteq> 0
    \<and> x = i * 64 + trailing_zeros (words b ! i)"
  using assms
proof (induction "is")
  case (Cons i "is")
  show ?case
  proof (cases "words b ! i = 0")
    case True
    then obtain us j vs where "is = us @ j # vs" "\<forall>u \<in> set us. words b ! u = 0" "words b ! j \<noteq> 0"
      "x = j * 64 + trailing_zeros (words b ! j)" using Cons by auto
    then show ?thesis using True by (intro exI [of _ "i # us"] exI [of _ j] exI [of _ vs]) simp
  next
    case False
    then show ?thesis using Cons.prems by (intro exI [of _ "[]"] exI [of _ i] exI [of _ "is"]) (simp add: Let_def)
  qed
qed simp

lemma upt_split:
  assumes "[0..<n] = us @ i # vs"
  shows "i = length us \<and> i < n \<and> set us = {..<i}"
proof -
  have n: "n = length us + Suc (length vs)" using arg_cong [OF assms, of length] by simp
  have "us = take (length us) [0..<n]" using assms by simp
  also have "\<dots> = [0..<length us]" using n by simp
  finally have us: "us = [0..<length us]" .
  have "i = [0..<n] ! length us" using assms by simp
  then have "i = length us" using n by (simp del: upt_Suc)
  moreover have "set us = {..<length us}" by (subst us) auto
  ultimately show ?thesis using n by simp
qed

lemma scan_words_least:
  assumes "bitmap_wf b" "scan_words b [0..<div_ceil (frame_count b) 64] = Some x"
  shows "is_free b x" "is_free b y \<Longrightarrow> x \<le> y"
proof -
  obtain us i vs where is_split: "[0..<div_ceil (frame_count b) 64] = us @ i # vs"
    and zero: "\<forall>u \<in> set us. words b ! u = 0" and nz: "words b ! i \<noteq> 0"
    and x: "x = i * 64 + trailing_zeros (words b ! i)"
    using scan_words_Some [OF assms(2)] by blast
  have i: "i < div_ceil (frame_count b) 64" "set us = {..<i}" using upt_split [OF is_split] by auto
  note tz = trailing_zeros_least [OF nz]
  have dm: "x div 64 = i" "x mod 64 = trailing_zeros (words b ! i)" using x tz(1) by auto
  have "i * 64 < frame_count b" using i(1) by (simp add: less_div_ceil_iff)
  then have "i < length (words b)" using assms(1) by (auto simp: bitmap_wf_def capacity_def)
  then have "x < capacity b" using x tz(1) by (simp add: capacity_def)
  then show "is_free b x" using dm tz(2) by (simp add: is_free_bit)
  assume y: "is_free b y"
  show "x \<le> y"
  proof (rule ccontr)
    assume "\<not> x \<le> y"
    then have "y < x" by simp
    then have "y div 64 \<le> i" using dm(1) by (metis div_le_mono less_imp_le)
    moreover have "y div 64 \<noteq> i"
      using y \<open>y < x\<close> tz(3) [of "y mod 64"] dm by (auto simp: is_free_bit)
         (metis dm div_mult_mod_eq nat_add_left_cancel_less)
    ultimately have "words b ! (y div 64) = 0" using zero i(2) by auto
    then show False using y by (simp add: is_free_bit)
  qed
qed

lemma scan_words_none_free:
  assumes "bitmap_wf b" "scan_words b [0..<div_ceil (frame_count b) 64] = None"
  shows "free_set b = {}"
proof -
  have "\<not> is_free b i" for i
  proof
    assume i: "is_free b i"
    then have "i div 64 * 64 < frame_count b"
      using assms(1) by (metis bitmap_wf_def div_times_less_eq_dividend le_less_trans)
    then have "words b ! (i div 64) = 0"
      using assms(2) by (simp add: scan_words_None less_div_ceil_iff)
    then show False using i by (simp add: is_free_bit)
  qed
  then show ?thesis by (simp add: free_set_def)
qed

subsection \<open>What the frame allocator relies on\<close>

text \<open>
  A pool of indices below a bound: taking gives the least member and removes it, returning adds
  an index, and the counter is the pool's cardinality.
\<close>

locale index_pool =
  fixes pool :: "'s \<Rightarrow> nat set"
    and ok :: "'s \<Rightarrow> bool"
    and bound :: "'s \<Rightarrow> nat"
    and take_one :: "'s \<Rightarrow> nat option \<times> 's"
    and give_back :: "'s \<Rightarrow> nat \<Rightarrow> 's"
    and count :: "'s \<Rightarrow> nat"
  assumes finite_pool: "finite (pool s)"
    and take_none: "ok s \<Longrightarrow> take_one s = (None, s') \<Longrightarrow> pool s = {} \<and> s' = s"
    and take_some: "ok s \<Longrightarrow> take_one s = (Some i, s') \<Longrightarrow>
        i = Min (pool s) \<and> i \<in> pool s \<and> pool s' = pool s - {i} \<and> ok s' \<and> bound s' = bound s"
    and give_back: "ok s \<Longrightarrow> ok (give_back s i) \<and> bound (give_back s i) = bound s
        \<and> pool (give_back s i) = (if i < bound s then insert i (pool s) else pool s)"
    and counted: "count s = card (pool s)"
    and bounded: "pool s \<subseteq> {..<bound s}"
begin

lemma take_ok: "ok s \<Longrightarrow> take_one s = (r, s') \<Longrightarrow> ok s' \<and> bound s' = bound s"
  using take_none [of s s'] take_some [of s _ s'] by (cases r) blast+

lemma take_count: "ok s \<Longrightarrow> take_one s = (Some i, s') \<Longrightarrow> count s = Suc (count s')"
  using take_some [of s i s'] finite_pool [of s] by (metis card_Suc_Diff1 counted)

lemma give_back_restores:
  "ok s \<Longrightarrow> take_one s = (Some i, s') \<Longrightarrow> pool (give_back s' i) = pool s"
  using take_some [of s i s'] give_back [of s' i] bounded [of s] by auto

lemma give_back_count:
  "ok s \<Longrightarrow> i < bound s \<Longrightarrow> i \<notin> pool s \<Longrightarrow> count (give_back s i) = Suc (count s)"
  using give_back [of s i] finite_pool [of s] by (simp add: counted)

lemma take_succeeds: "ok s \<Longrightarrow> pool s \<noteq> {} \<Longrightarrow> \<exists>i s'. take_one s = (Some i, s')"
  using take_none [of s "snd (take_one s)"] by (cases "take_one s"; cases "fst (take_one s)") auto

end

interpretation bitmap: index_pool free_set bitmap_wf capacity allocate set_free free_count
proof
  fix s s' :: bitmap
  assume "bitmap_wf s" "allocate s = (None, s')"
  then show "free_set s = {} \<and> s' = s"
    using scan_words_none_free by (auto simp: allocate_def split: option.splits)
next
  fix s s' :: bitmap and i
  assume wf: "bitmap_wf s" and a: "allocate s = (Some i, s')"
  have sc: "scan_words s [0..<div_ceil (frame_count s) 64] = Some i" "s' = set_used s i"
    using a by (auto simp: allocate_def split: option.splits)
  note l = scan_words_least [OF wf sc(1)]
  have "i = Min (free_set s)" using l by (intro Min_eqI [symmetric] finite_free_set) (auto simp: free_set_def)
  then show "i = Min (free_set s) \<and> i \<in> free_set s \<and> free_set s' = free_set s - {i} \<and> bitmap_wf s' \<and> capacity s' = capacity s"
    using l(1) wf sc(2) by (simp add: free_set_set_used bitmap_wf_set_used) (simp add: free_set_def)
next
  fix s :: bitmap
  show "free_set s \<subseteq> {..<capacity s}" by (auto simp: free_set_def is_free_def)
qed (simp_all add: free_set_set_free bitmap_wf_set_free free_count_card)

subsection \<open>Properties\<close>

text \<open>C34. \<^verbatim>\<open>Bitmap::allocate\<close> hands out the lowest free index and nothing else: it fails exactly
  when nothing is free, a returned index was free and is the least such, afterwards exactly that
  index has become used, and the free count drops by one.\<close>

theorem allocate_lowest_free:
  assumes "bitmap_wf b" "allocate b = (r, b')"
  shows "case r of
      None \<Rightarrow> free_count b = 0 \<and> b' = b \<and> (\<nexists>i. is_free b i)
    | Some i \<Rightarrow> is_free b i \<and> (\<forall>j. is_free b j \<longrightarrow> i \<le> j)
        \<and> (\<forall>j. is_free b' j \<longleftrightarrow> is_free b j \<and> j \<noteq> i) \<and> free_count b = Suc (free_count b') \<and> bitmap_wf b'"
proof (cases r)
  case None
  then have "free_set b = {} \<and> b' = b" using assms bitmap.take_none by blast
  then show ?thesis using None by (simp add: free_count_card) (simp add: free_set_def)
next
  case (Some i)
  note a = assms(2) [unfolded Some]
  have s: "i = Min (free_set b)" "i \<in> free_set b" "free_set b' = free_set b - {i}" "bitmap_wf b'"
    using bitmap.take_some [OF assms(1) a] by auto
  moreover have "i \<le> j" if "is_free b j" for j
    using s(1) that by (simp add: free_set_def Min_le finite_free_set [unfolded free_set_def])
  ultimately show ?thesis
    using bitmap.take_count [OF assms(1) a] Some by (auto simp: free_set_def)
qed

theorem allocate_lowest_free_witness:
  "bitmap_wf (set_free (set_free (bitmap_new 2) 70) 5)
   \<and> fst (allocate (set_free (set_free (bitmap_new 2) 70) 5)) = Some 5
   \<and> free_count (set_free (set_free (bitmap_new 2) 70) 5) = 2"
proof -
  let ?b = "set_free (set_free (bitmap_new 2) 70) 5"
  have wf: "bitmap_wf ?b" by (intro bitmap_wf_set_free bitmap_wf_new)
  have fr: "is_free ?b j \<longleftrightarrow> j = 5 \<or> j = 70" for j
    using free_set_new [of 2] by (auto simp: is_free_set_free free_set_def) (simp_all add: capacity_def bitmap_new_def)
  obtain r b' where a: "allocate ?b = (r, b')" by fastforce
  note p = allocate_lowest_free [OF wf a]
  have "free_set ?b = {5, 70}" using fr by (auto simp: free_set_def)
  then have "free_count ?b = 2" by (simp add: free_count_card)
  moreover have "r = Some 5" using p fr by (auto split: option.splits)
  ultimately show ?thesis using wf a by simp
qed

text \<open>C35. \<^verbatim>\<open>usable_frame_range\<close> returns exactly the frames that lie wholly inside the firmware
  region: a frame index is in the range iff its first byte is at or above \<^verbatim>\<open>base\<close> and its last
  byte below \<^verbatim>\<open>base + length\<close>.\<close>

theorem usable_frame_range_exact:
  assumes "usable_frame_range base len fs = Some (lo, hi)" "0 < unat fs"
  shows "lo \<le> i \<and> i < hi \<longleftrightarrow> unat base \<le> i * unat fs \<and> (i + 1) * unat fs \<le> unat base + unat len"
proof -
  obtain lim :: u64 where lim: "unat lim = unat base + unat len" "lo = div_ceil (unat base) (unat fs)"
    "hi = unat lim div unat fs"
    using assms(1) by (auto simp: usable_frame_range_def checked_add_Some_iff split: option.splits)
  have "i < hi \<longleftrightarrow> (i + 1) * unat fs \<le> unat lim"
    using assms(2) lim(3) by (metis Suc_eq_plus1 Suc_le_eq less_eq_div_iff_mult_less_eq)
  then show ?thesis using lim assms(2) by (simp add: div_ceil_le_iff)
qed

theorem usable_frame_range_exact_witness:
  "usable_frame_range 0x9fc01 0x3400 0x1000 = Some (160, 163) \<and> (0::nat) < unat (0x1000 :: u64)
   \<and> (160 \<le> (162::nat) \<and> 162 < (163::nat)
        \<longleftrightarrow> unat (0x9fc01 :: u64) \<le> 162 * unat (0x1000 :: u64)
          \<and> (162 + 1) * unat (0x1000 :: u64) \<le> unat (0x9fc01 :: u64) + unat (0x3400 :: u64))"
proof -
  have r: "usable_frame_range 0x9fc01 0x3400 0x1000 = Some (160, 163)"
    by (simp add: usable_frame_range_def checked_add_def div_ceil_def)
  have "0 < unat (0x1000 :: u64)" by simp
  then show ?thesis using r usable_frame_range_exact [OF r, of 162] by blast
qed

end
