(* ===== verification/Captable.thy ===== *)
theory Captable
  imports Abi
begin

text \<open>
  \<^verbatim>\<open>libs/tarnos-kcore/src/captable.rs\<close>: a process's capability table, a growable sparse array
  indexed by \<^verbatim>\<open>CapIndex\<close>.  The locale \<^verbatim>\<open>cap_store\<close> is what the system calls rely on.
\<close>

subsection \<open>The table\<close>

record 'a capability_slot =
  cap_object :: 'a
  cap_rights :: rights

record 'a captable =
  slots :: "'a capability_slot option list"

definition captable_new :: "'a captable" where
  "captable_new = \<lparr>slots = []\<rparr>"

text \<open>\<^verbatim>\<open>Vec::resize_with(n, || None)\<close> for growth.\<close>

definition resize_none :: "nat \<Rightarrow> 'b option list \<Rightarrow> 'b option list" where
  "resize_none n xs = take n xs @ replicate (n - length xs) None"

definition captable_insert :: "'a captable \<Rightarrow> cap_index \<Rightarrow> 'a capability_slot \<Rightarrow> 'a captable" where
  "captable_insert t index slot =
    (let i = unat (cap_raw index);
         xs = (if i \<ge> length (slots t) then resize_none (i + 1) (slots t) else slots t)
     in t\<lparr>slots := xs[i := Some slot]\<rparr>)"

definition captable_get :: "'a captable \<Rightarrow> cap_index \<Rightarrow> syscall_error + 'a capability_slot" where
  "captable_get t index =
    (let i = unat (cap_raw index)
     in if i < length (slots t)
        then (case slots t ! i of Some s \<Rightarrow> Inr s | None \<Rightarrow> Inl BadCapability)
        else Inl BadCapability)"

definition captable_lookup ::
  "'a captable \<Rightarrow> cap_index \<Rightarrow> rights \<Rightarrow> syscall_error + 'a capability_slot" where
  "captable_lookup t index required =
    (case captable_get t index of
       Inl e \<Rightarrow> Inl e
     | Inr slot \<Rightarrow> if rights_contains (cap_rights slot) required then Inr slot else Inl PermissionDenied)"

definition captable_iter :: "'a captable \<Rightarrow> 'a capability_slot list" where
  "captable_iter t = List.map_filter (\<lambda>s. s) (slots t)"

subsection \<open>Lemmas\<close>

definition cap_at :: "'a captable \<Rightarrow> nat \<Rightarrow> 'a capability_slot option" where
  "cap_at t i = (if i < length (slots t) then slots t ! i else None)"

lemma captable_get_at:
  "captable_get t i = (case cap_at t (unat (cap_raw i)) of Some s \<Rightarrow> Inr s | None \<Rightarrow> Inl BadCapability)"
  by (simp add: captable_get_def cap_at_def Let_def)

lemma nth_resize_none:
  "i < n \<Longrightarrow> resize_none n xs ! i = (if i < length xs then xs ! i else None)"
  by (auto simp: resize_none_def nth_append)

lemma length_resize_none [simp]: "length (resize_none n xs) = n"
  by (simp add: resize_none_def)

lemma cap_at_insert:
  "cap_at (captable_insert t j s) i = (if i = unat (cap_raw j) then Some s else cap_at t i)"
  by (auto simp: cap_at_def captable_insert_def Let_def nth_resize_none)

lemma cap_at_new: "cap_at captable_new i = None"
  by (simp add: cap_at_def captable_new_def)

lemma cap_raw_inject: "unat (cap_raw i) = unat (cap_raw j) \<longleftrightarrow> i = j"
  by (metis cap_index.expand word_unat_eq_iff)

lemma captable_get_insert:
  "captable_get (captable_insert t j s) i = (if i = j then Inr s else captable_get t i)"
  by (simp add: captable_get_at cap_at_insert cap_raw_inject)

lemma captable_get_new: "captable_get captable_new i = Inl BadCapability"
  by (simp add: captable_get_at cap_at_new)

lemma set_map_filter_id: "s \<in> set (List.map_filter (\<lambda>s. s) xs) \<longleftrightarrow> Some s \<in> set xs"
  by (induction xs) (auto split: option.splits)

lemma set_captable_iter: "s \<in> set (captable_iter t) \<longleftrightarrow> (\<exists>i. cap_at t i = Some s)"
  unfolding captable_iter_def set_map_filter_id cap_at_def
  by (auto simp: in_set_conv_nth)

lemma captable_iter_new: "captable_iter captable_new = []"
  by (simp add: captable_iter_def captable_new_def)

lemma captable_get_iter: "captable_get t i = Inr s \<Longrightarrow> s \<in> set (captable_iter t)"
  by (auto simp: captable_get_at set_captable_iter split: option.splits)

lemma captable_lookup_Inr:
  "captable_lookup t i r = Inr s \<longleftrightarrow> captable_get t i = Inr s \<and> rights_contains (cap_rights s) r"
  by (auto simp: captable_lookup_def split: sum.splits)

lemma captable_lookup_Inl:
  "captable_lookup t i r = Inl e \<Longrightarrow> e = BadCapability \<or> e = PermissionDenied"
  by (auto simp: captable_lookup_def captable_get_def Let_def split: sum.splits if_splits option.splits)

subsection \<open>What the system calls rely on\<close>

text \<open>
  A store of capabilities by index: what is put at an index is what is found there, other indices
  keep their contents, and \<^term>\<open>held\<close> lists what some index holds.
\<close>

locale cap_store =
  fixes empty :: 't
    and put :: "'t \<Rightarrow> 'i \<Rightarrow> 'v \<Rightarrow> 't"
    and find :: "'t \<Rightarrow> 'i \<Rightarrow> 'e + 'v"
    and held :: "'t \<Rightarrow> 'v list"
  assumes put_find: "find (put t j v) i = (if i = j then Inr v else find t i)"
    and held_empty: "held empty = []"
    and held_put: "set (held (put t j v)) \<subseteq> insert v (set (held t))"
    and held_put_new: "v \<in> set (held (put t j v))"
    and find_held: "find t i = Inr v \<Longrightarrow> v \<in> set (held t)"
begin

text \<open>A sequence of insertions: the last one at an index decides.\<close>

lemma put_all_find:
  "find (fold (\<lambda>(i, v) t. put t i v) ps t) i =
    (case map_of (rev ps) i of Some v \<Rightarrow> Inr v | None \<Rightarrow> find t i)"
  by (induction ps arbitrary: t) (auto simp: put_find map_add_def split: option.splits)

lemma put_all_held:
  "set (held (fold (\<lambda>(i, v) t. put t i v) ps t)) \<subseteq> snd ` set ps \<union> set (held t)"
proof (induction ps arbitrary: t)
  case (Cons p ps)
  obtain i v where p: "p = (i, v)" by fastforce
  show ?case using Cons.IH [of "put t i v"] held_put [of t i v] by (auto simp: p)
qed simp

end

interpretation caps: cap_store captable_new captable_insert captable_get captable_iter
proof
  fix t :: "'a captable" and j v
  show "set (captable_iter (captable_insert t j v)) \<subseteq> insert v (set (captable_iter t))"
    by (auto simp: set_captable_iter cap_at_insert split: if_splits)
  show "v \<in> set (captable_iter (captable_insert t j v))"
    by (auto simp: set_captable_iter cap_at_insert)
qed (simp_all add: captable_get_insert captable_get_iter captable_iter_new)

text \<open>C33. A capability lookup is decided by the last insertion at that index, whatever else was
  inserted in whatever order: nothing inserted there gives \<^verbatim>\<open>BadCapability\<close>, an insertion whose
  rights cover the request gives that slot, any other gives \<^verbatim>\<open>PermissionDenied\<close>.\<close>

theorem lookup_last_insert:
  "captable_lookup (fold (\<lambda>(i, s) t. captable_insert t i s) ps captable_new) i required =
    (case map_of (rev ps) i of
       None \<Rightarrow> Inl BadCapability
     | Some s \<Rightarrow> if rights_contains (cap_rights s) required then Inr s else Inl PermissionDenied)"
  by (simp add: captable_lookup_def caps.put_all_find captable_get_new split: option.splits)

end
