(* ===== verification/Proc.thy ===== *)
theory Proc
  imports Abi Captable
begin

text \<open>
  The data of processes: \<^verbatim>\<open>Pid\<close> (\<^verbatim>\<open>kernel/src/task/mod.rs\<close>), \<^verbatim>\<open>TrapFrame\<close>
  (\<^verbatim>\<open>kernel/src/arch/x86_64/context_switch.rs\<close>), \<^verbatim>\<open>ProcessState\<close>, \<^verbatim>\<open>Process\<close> and the fixed
  virtual memory layout of kernel stacks and trap frames (\<^verbatim>\<open>kernel/src/task/process.rs\<close>),
  \<^verbatim>\<open>KernelObjectRef\<close> (\<^verbatim>\<open>kernel/src/ipc/capability.rs\<close>) and \<^verbatim>\<open>WakeResult\<close>
  (\<^verbatim>\<open>kernel/src/task/scheduler.rs\<close>).  An \<^verbatim>\<open>Arc<Endpoint>\<close> is the identifier of the endpoint,
  so \<^verbatim>\<open>Arc::ptr_eq\<close> is equality of identifiers.
\<close>

subsection \<open>Process identifiers\<close>

datatype pid = Pid (pid_raw: u64)

instantiation pid :: linorder
begin

definition less_eq_pid :: "pid \<Rightarrow> pid \<Rightarrow> bool" where
  "less_eq_pid p q \<longleftrightarrow> pid_raw p \<le> pid_raw q"

definition less_pid :: "pid \<Rightarrow> pid \<Rightarrow> bool" where
  "less_pid p q \<longleftrightarrow> pid_raw p < pid_raw q"

instance
  by standard (auto simp: less_eq_pid_def less_pid_def pid.expand)

end

instantiation cap_index :: linorder
begin

definition less_eq_cap_index :: "cap_index \<Rightarrow> cap_index \<Rightarrow> bool" where
  "less_eq_cap_index i j \<longleftrightarrow> cap_raw i \<le> cap_raw j"

definition less_cap_index :: "cap_index \<Rightarrow> cap_index \<Rightarrow> bool" where
  "less_cap_index i j \<longleftrightarrow> cap_raw i < cap_raw j"

instance
  by standard (auto simp: less_eq_cap_index_def less_cap_index_def cap_index.expand)

end

definition pid_new :: "nat \<Rightarrow> u32 \<Rightarrow> pid" where
  "pid_new index generation = Pid (of_nat index OR push_bit 32 (ucast generation))"

definition pid_index :: "pid \<Rightarrow> nat" where
  "pid_index p = unat (pid_raw p AND 0xFFFFFFFF)"

definition pid_generation :: "pid \<Rightarrow> u32" where
  "pid_generation p = ucast (drop_bit 32 (pid_raw p))"

subsection \<open>Trap frames\<close>

record trap_frame =
  r15 :: u64  r14 :: u64  r13 :: u64  r12 :: u64  r11 :: u64  r10 :: u64  r9 :: u64  r8 :: u64
  rbp :: u64  rdi :: u64  rsi :: u64  rdx :: u64  rcx :: u64  rbx :: u64  rax :: u64
  rip :: u64  cs :: u64  rflags :: u64  rsp :: u64  ss :: u64

definition zero_frame :: trap_frame where
  "zero_frame = \<lparr>r15 = 0, r14 = 0, r13 = 0, r12 = 0, r11 = 0, r10 = 0, r9 = 0, r8 = 0,
    rbp = 0, rdi = 0, rsi = 0, rdx = 0, rcx = 0, rbx = 0, rax = 0,
    rip = 0, cs = 0, rflags = 0, rsp = 0, ss = 0\<rparr>"

definition RFLAGS_IF_AND_RESERVED :: u64 where "RFLAGS_IF_AND_RESERVED = 0x202"

text \<open>The two selectors are what \<^verbatim>\<open>gdt::selectors()\<close> holds.\<close>

definition initial_user_frame :: "u64 \<Rightarrow> u64 \<Rightarrow> u64 \<Rightarrow> u64 \<Rightarrow> trap_frame" where
  "initial_user_frame user_code user_data entry user_stack_top =
    zero_frame\<lparr>rip := entry, cs := user_code, rflags := RFLAGS_IF_AND_RESERVED,
               rsp := user_stack_top, ss := user_data\<rparr>"

subsection \<open>Kernel objects, wake results, processes\<close>

datatype kernel_object = KEndpoint nat | KBlockDevice | KFsRoot

datatype wake_result =
    SendCompleted
  | RecvCompleted u64 u64 u64 u64
  | WaitCompleted exit_status
  | WakePeerClosed

datatype process_state = Ready | Running | Blocked | Suspended

text \<open>
  \<^verbatim>\<open>trap_frame\<close> is a reference into the per-index array of guarded trap-frame slots; the array
  itself is part of the kernel state.  \<^verbatim>\<open>address_space\<close> is its level 4 frame.
\<close>

record process =
  pid :: pid
  pml4 :: u64
  cap_table :: "kernel_object captable"
  pstate :: process_state
  parent :: "pid option"
  wait_waiter :: "pid option"
  pending_wake :: "wake_result option"
  heap_end :: u64

subsection \<open>Virtual memory layout\<close>

definition MAX_PROCESSES :: nat where "MAX_PROCESSES = 16"
definition MAX_CORES :: nat where "MAX_CORES = 8"
definition KERNEL_STACK_PAGES :: u64 where "KERNEL_STACK_PAGES = 4"
definition USER_STACK_PAGES :: u64 where "USER_STACK_PAGES = 4"
definition USER_STACK_TOP :: u64 where "USER_STACK_TOP = 0x00007ffffffff000"
definition USER_HEAP_START :: u64 where "USER_HEAP_START = 0x0000000040000000"
definition KERNEL_STACKS_BASE :: u64 where "KERNEL_STACKS_BASE = 0xffff980000000000"
definition KERNEL_STACK_SLOT_STRIDE :: u64 where
  "KERNEL_STACK_SLOT_STRIDE = 4096 * (1 + KERNEL_STACK_PAGES)"
definition TRAP_FRAME_BASE :: u64 where "TRAP_FRAME_BASE = 0xffff975000000000"
definition TRAP_FRAME_STRIDE :: u64 where "TRAP_FRAME_STRIDE = 0x10000"

lemmas layout_consts = KERNEL_STACK_PAGES_def KERNEL_STACKS_BASE_def KERNEL_STACK_SLOT_STRIDE_def
  TRAP_FRAME_BASE_def TRAP_FRAME_STRIDE_def USER_STACK_TOP_def USER_STACK_PAGES_def USER_HEAP_START_def

definition kernel_stack_slot_base :: "pid \<Rightarrow> u64" where
  "kernel_stack_slot_base p = KERNEL_STACKS_BASE + of_nat (pid_index p) * KERNEL_STACK_SLOT_STRIDE"

definition kernel_stack_top :: "pid \<Rightarrow> u64" where
  "kernel_stack_top p = kernel_stack_slot_base p + (1 + KERNEL_STACK_PAGES) * 4096"

definition describe_kernel_stack_address :: "u64 \<Rightarrow> (nat \<times> u64) option" where
  "describe_kernel_stack_address addr =
    (if addr < KERNEL_STACKS_BASE then None
     else let offset = addr - KERNEL_STACKS_BASE;
              slot = offset div KERNEL_STACK_SLOT_STRIDE
          in if slot \<ge> of_nat MAX_PROCESSES then None
             else let offset_in_slot = offset mod KERNEL_STACK_SLOT_STRIDE
                  in if offset_in_slot < 4096 then None else Some (unat slot, offset_in_slot))"

definition trap_frame_slot_base :: "pid \<Rightarrow> u64" where
  "trap_frame_slot_base p = TRAP_FRAME_BASE + of_nat (pid_index p) * TRAP_FRAME_STRIDE"

subsection \<open>Spawnable modules\<close>

text \<open>A boot module is its command line and its data.\<close>

definition init_spawnable_modules :: "(bytes \<times> bytes) list \<Rightarrow> (bytes \<times> bytes) list" where
  "init_spawnable_modules modules = filter (\<lambda>(cmdline, _). cmdline \<noteq> map of_char ''init'') modules"

definition lookup_spawnable_module :: "(bytes \<times> bytes) list \<Rightarrow> bytes \<Rightarrow> bytes option" where
  "lookup_spawnable_module modules name = map_option snd (List.find (\<lambda>(n, _). n = name) modules)"

subsection \<open>Lemmas\<close>

lemma mask_32: "(0xFFFFFFFF :: u64) = mask 32"
  by (simp add: mask_eq_exp_minus_1)

lemma pid_index_eq: "pid_index p = unat (take_bit 32 (pid_raw p))"
  by (simp add: pid_index_def mask_32 take_bit_eq_mask)

lemma pid_index_bound: "pid_index p < 2 ^ 32"
  using take_bit_nat_less_exp [of 32 "unat (pid_raw p)"] by (simp add: pid_index_eq unsigned_take_bit_eq)

lemma of_nat_take_bit_32: "n < 2 ^ 32 \<Longrightarrow> take_bit 32 (of_nat n :: u64) = of_nat n"
  by (metis take_bit_nat_eq_self_iff take_bit_of_nat)

lemma pid_index_new [simp]: "i < 2 ^ 32 \<Longrightarrow> pid_index (pid_new i g) = i"
proof -
  assume i: "i < 2 ^ 32"
  have "take_bit 32 (of_nat i OR push_bit 32 (ucast g) :: u64) = of_nat i"
    using of_nat_take_bit_32 [OF i] by (simp add: take_bit_or take_bit_push_bit)
  then show ?thesis
    using i by (simp add: pid_index_eq pid_new_def unat_of_nat take_bit_nat_eq_self_iff)
qed

lemma pid_generation_new [simp]: "i < 2 ^ 32 \<Longrightarrow> pid_generation (pid_new i g) = g"
proof -
  assume i: "i < 2 ^ 32"
  have z: "\<not> bit (of_nat i :: u64) (32 + n)" for n
    using of_nat_take_bit_32 [OF i] bit_take_bit_iff [of 32 "of_nat i :: u64" "32 + n"] by simp
  show ?thesis
    unfolding pid_generation_def pid_new_def
    by (intro bit_word_eqI) (simp add: bit_ucast_iff bit_drop_bit_eq bit_or_iff bit_push_bit_iff z)
qed

lemma pid_new_parts: "pid_new (pid_index p) (pid_generation p) = p"
proof -
  have "of_nat (unat (take_bit 32 (pid_raw p))) OR push_bit 32 (ucast (ucast (drop_bit 32 (pid_raw p)) :: u32)) = pid_raw p"
    by (intro bit_word_eqI)
       (auto simp: bit_or_iff bit_take_bit_iff bit_push_bit_iff bit_ucast_iff bit_drop_bit_eq)
  then show ?thesis by (simp add: pid_new_def pid_generation_def pid_index_eq)
qed

lemma pid_eq_iff: "p = q \<longleftrightarrow> pid_index p = pid_index q \<and> pid_generation p = pid_generation q"
  by (metis pid_new_parts)

lemma pid_new_inj:
  "i < 2 ^ 32 \<Longrightarrow> j < 2 ^ 32 \<Longrightarrow> pid_new i g = pid_new j h \<longleftrightarrow> i = j \<and> g = h"
  by (auto simp: pid_eq_iff)

lemma stack_offset_value:
  assumes "i < MAX_PROCESSES" "unat off < 20480"
  shows "unat (of_nat i * KERNEL_STACK_SLOT_STRIDE + off :: u64) = i * 20480 + unat off"
proof -
  have "unat (of_nat i :: u64) = i"
    using assms(1) by (simp add: MAX_PROCESSES_def unat_of_nat take_bit_nat_eq_self_iff)
  moreover have "i * 20480 + unat off < 2 ^ 64" using assms by (simp add: MAX_PROCESSES_def)
  ultimately show ?thesis by (simp add: layout_consts unat_word_ariths)
qed

lemma describe_stack_address:
  assumes i: "pid_index p < MAX_PROCESSES" and off: "off < 20480"
  shows "describe_kernel_stack_address (kernel_stack_slot_base p + off)
    = (if off < 4096 then None else Some (pid_index p, off))"
proof -
  let ?o = "of_nat (pid_index p) * KERNEL_STACK_SLOT_STRIDE + off :: u64"
  have off': "unat off < 20480" using off by (simp add: word_less_nat_alt)
  note o = stack_offset_value [OF i off']
  have lt: "unat ?o < 327680" using o i off' by (simp add: MAX_PROCESSES_def)
  have "unat (KERNEL_STACKS_BASE + ?o) = unat KERNEL_STACKS_BASE + unat ?o"
    using lt by (subst unat_word_ariths) (simp add: KERNEL_STACKS_BASE_def)
  then have ge: "\<not> KERNEL_STACKS_BASE + ?o < KERNEL_STACKS_BASE" by (simp add: word_less_nat_alt)
  have dv: "unat (?o div KERNEL_STACK_SLOT_STRIDE) = pid_index p"
    and md: "unat (?o mod KERNEL_STACK_SLOT_STRIDE) = unat off"
    using off' by (simp_all add: unat_div_distrib unat_mod_distrib o) (simp_all add: layout_consts)
  then have md': "?o mod KERNEL_STACK_SLOT_STRIDE = off" by (simp add: word_unat_eq_iff)
  have "\<not> of_nat MAX_PROCESSES \<le> ?o div KERNEL_STACK_SLOT_STRIDE"
    using i dv by (simp add: word_le_nat_alt) (simp add: MAX_PROCESSES_def)
  then show ?thesis
    using ge dv md' by (simp add: describe_kernel_stack_address_def kernel_stack_slot_base_def Let_def add.assoc)
qed

text \<open>C40. Kernel stacks do not overlap and their guard pages are never stack memory: for every
  process-table index, each address of the 16 KiB above the guard page is attributed to that index
  and no other, each address of the guard page to no stack at all, and the stack top the scheduler
  loads into TSS.RSP0 is the end of that region.\<close>

theorem kernel_stack_layout:
  assumes "pid_index p < MAX_PROCESSES" "off < 20480"
  shows "describe_kernel_stack_address (kernel_stack_slot_base p + off)
      = (if off < 4096 then None else Some (pid_index p, off))
    \<and> kernel_stack_top p = kernel_stack_slot_base p + 20480"
  using describe_stack_address [OF assms] by (simp add: kernel_stack_top_def KERNEL_STACK_PAGES_def)

theorem kernel_stack_layout_witness:
  "pid_index (pid_new 3 7) < MAX_PROCESSES \<and> (0x2345 :: u64) < 20480
   \<and> describe_kernel_stack_address (kernel_stack_slot_base (pid_new 3 7) + 0x2345) = Some (3, 0x2345)"
proof -
  have "pid_index (pid_new 3 7) < MAX_PROCESSES" "(0x2345 :: u64) < 20480" by (simp_all add: MAX_PROCESSES_def)
  then show ?thesis using kernel_stack_layout [of "pid_new 3 7" "0x2345"] by simp
qed

text \<open>A \<^verbatim>\<open>Pid\<close> is exactly its index and generation: packing loses nothing, every raw value is
  the packing of its two halves, and two pids are equal only when both halves agree, so a pid of an
  earlier generation never equals the current occupant of its slot.\<close>

lemma pid_roundtrip:
  assumes "i < 2 ^ 32"
  shows "pid_index (pid_new i g) = i \<and> pid_generation (pid_new i g) = g
    \<and> pid_new (pid_index p) (pid_generation p) = p
    \<and> (pid_new i g = p \<longleftrightarrow> pid_index p = i \<and> pid_generation p = g)"
  using assms pid_new_parts by auto

end
