(* ===== verification/Rendezvous.thy ===== *)
theory Rendezvous
  imports Ring
begin

text \<open>
  \<^verbatim>\<open>libs/tarnos-kcore/src/endpoint.rs\<close>: the rendezvous state machine behind every IPC endpoint.
  A \<^verbatim>\<open>core::task::Waker\<close> is the identifier of the task it wakes.  The \<^verbatim>\<open>expect\<close> in \<^verbatim>\<open>try_recv\<close>
  is modelled: \<^term>\<open>None\<close> is its panic, and the theory shows it is never reached.
\<close>

subsection \<open>The state machine\<close>

datatype 'p waiter = Task nat | Process 'p | NoWaiter

datatype 'p send_outcome = SendDelivered "'p waiter" | SendEnqueued | SendQueueFull

datatype ('m, 'p) recv_outcome = RecvDelivered 'm "'p waiter" | RecvEnqueued | RecvQueueFull

datatype ('m, 'p) rslot =
    SlotEmpty
  | SendersWaiting "('m \<times> 'p waiter) ring"
  | ReceiverWaiting "'p waiter"

definition slot_try_send ::
  "nat \<Rightarrow> 'm \<Rightarrow> 'p waiter \<Rightarrow> ('m, 'p) rslot \<Rightarrow> 'p send_outcome \<times> ('m, 'p) rslot" where
  "slot_try_send n message sender slot =
    (case slot of
       ReceiverWaiting receiver \<Rightarrow>
         (let queue = snd (ring_push (message, NoWaiter) (ring_new n))
          in (SendDelivered receiver, SendersWaiting queue))
     | SlotEmpty \<Rightarrow>
         (let queue = snd (ring_push (message, sender) (ring_new n))
          in (SendEnqueued, SendersWaiting queue))
     | SendersWaiting queue \<Rightarrow>
         (case ring_push (message, sender) queue of
            (True, queue') \<Rightarrow> (SendEnqueued, SendersWaiting queue')
          | (False, queue') \<Rightarrow> (SendQueueFull, SendersWaiting queue')))"

definition slot_try_recv ::
  "'p waiter \<Rightarrow> ('m, 'p) rslot \<Rightarrow> (('m, 'p) recv_outcome \<times> ('m, 'p) rslot) option" where
  "slot_try_recv receiver slot =
    (case slot of
       SendersWaiting queue \<Rightarrow>
         (case ring_pop queue of
            (None, _) \<Rightarrow> None
          | (Some (message, sender), queue') \<Rightarrow>
              Some (RecvDelivered message sender,
                    if ring_is_empty queue' then SlotEmpty else SendersWaiting queue'))
     | SlotEmpty \<Rightarrow> Some (RecvEnqueued, ReceiverWaiting receiver)
     | ReceiverWaiting w \<Rightarrow> Some (RecvQueueFull, ReceiverWaiting w))"

subsection \<open>Abstract view and invariant\<close>

text \<open>The messages on their way, oldest first, each with whoever is to be told of its delivery.\<close>

fun pending :: "('m, 'p) rslot \<Rightarrow> ('m \<times> 'p waiter) list" where
  "pending SlotEmpty = []"
| "pending (SendersWaiting q) = ring_list q"
| "pending (ReceiverWaiting w) = []"

fun receiver_of :: "('m, 'p) rslot \<Rightarrow> 'p waiter option" where
  "receiver_of (ReceiverWaiting w) = Some w"
| "receiver_of SlotEmpty = None"
| "receiver_of (SendersWaiting q) = None"

fun slot_ok :: "nat \<Rightarrow> ('m, 'p) rslot \<Rightarrow> bool" where
  "slot_ok n (SendersWaiting q) \<longleftrightarrow> ring_ok n q \<and> ring_list q \<noteq> []"
| "slot_ok n SlotEmpty \<longleftrightarrow> True"
| "slot_ok n (ReceiverWaiting w) \<longleftrightarrow> True"

lemma slot_try_send_spec:
  assumes ok: "slot_ok n slot" and n: "0 < n" and send: "slot_try_send n m s slot = (out, slot')"
  shows "slot_ok n slot' \<and> receiver_of slot' = None
    \<and> (case receiver_of slot of
        Some r \<Rightarrow> out = SendDelivered r \<and> pending slot' = [(m, NoWaiter)]
      | None \<Rightarrow> if length (pending slot) < n then out = SendEnqueued \<and> pending slot' = pending slot @ [(m, s)]
                else out = SendQueueFull \<and> slot' = slot)"
proof (cases slot)
  case (SendersWaiting q)
  obtain b q' where p: "ring_push (m, s) q = (b, q')" by fastforce
  have "ring_ok n q" "ring_list q \<noteq> []" using ok SendersWaiting by auto
  then show ?thesis
    using ring.push_law [of n q "(m, s)" b q'] ring_push_spec(4) [of q "(m, s)" b q'] p send SendersWaiting
    by (auto simp: slot_try_send_def ring_ok_def split: if_splits bool.splits)
qed (use n send in \<open>auto simp: slot_try_send_def Let_def ring.push_singleton\<close>)

lemma slot_try_recv_spec:
  assumes ok: "slot_ok n slot"
  shows "\<exists>out slot'. slot_try_recv w slot = Some (out, slot') \<and> slot_ok n slot'
    \<and> (case pending slot of
        (m, s) # ps \<Rightarrow> out = RecvDelivered m s \<and> pending slot' = ps \<and> receiver_of slot' = None
      | [] \<Rightarrow> (case receiver_of slot of
          None \<Rightarrow> out = RecvEnqueued \<and> slot' = ReceiverWaiting w
        | Some _ \<Rightarrow> out = RecvQueueFull \<and> slot' = slot))"
proof (cases slot)
  case (SendersWaiting q)
  have q: "ring_ok n q" using ok SendersWaiting by simp
  obtain m s ps where ps: "ring_list q = (m, s) # ps"
    using ok SendersWaiting by (cases "ring_list q") auto
  obtain v q' where pop: "ring_pop q = (v, q')" by fastforce
  have q': "ring_ok n q'" "v = Some (m, s)" "ring_list q' = ps"
    using ring.pop_law [OF q pop] ps by auto
  have "slot_try_recv w slot = Some (RecvDelivered m s, if ps = [] then SlotEmpty else SendersWaiting q')"
    using SendersWaiting pop q' by (simp add: slot_try_recv_def ring_is_empty_iff)
  then show ?thesis using SendersWaiting ps q' by (cases "ps = []") auto
qed (auto simp: slot_try_recv_def)

subsection \<open>Sequences of sends and receives\<close>

datatype ('m, 'p) slot_op = Send 'm "'p waiter" | Recv "'p waiter"

text \<open>
  A run returns the accepted messages (with whoever is to be told of the delivery), the
  received ones with the waiter that is then told, and the final slot.
\<close>

fun slot_run ::
  "nat \<Rightarrow> ('m, 'p) slot_op list \<Rightarrow> ('m, 'p) rslot
     \<Rightarrow> (('m \<times> 'p waiter) list \<times> ('m \<times> 'p waiter) list \<times> ('m, 'p) rslot) option" where
  "slot_run n [] slot = Some ([], [], slot)"
| "slot_run n (Send m w # ops) slot =
    (case slot_try_send n m w slot of (out, slot') \<Rightarrow>
      (case slot_run n ops slot' of
         None \<Rightarrow> None
       | Some (sent, got, final) \<Rightarrow>
           Some (case out of
                   SendDelivered _ \<Rightarrow> (m, NoWaiter) # sent
                 | SendEnqueued \<Rightarrow> (m, w) # sent
                 | SendQueueFull \<Rightarrow> sent, got, final)))"
| "slot_run n (Recv w # ops) slot =
    (case slot_try_recv w slot of
       None \<Rightarrow> None
     | Some (out, slot') \<Rightarrow>
         (case slot_run n ops slot' of
            None \<Rightarrow> None
          | Some (sent, got, final) \<Rightarrow>
              Some (sent, case out of
                            RecvDelivered m s \<Rightarrow> (m, s) # got
                          | RecvEnqueued \<Rightarrow> got
                          | RecvQueueFull \<Rightarrow> got, final)))"

lemma slot_run_conserves:
  assumes "slot_ok (Suc n) slot"
  shows "\<exists>sent got final. slot_run (Suc n) ops slot = Some (sent, got, final)
    \<and> slot_ok (Suc n) final \<and> pending slot @ sent = got @ pending final"
  using assms
proof (induction ops arbitrary: slot)
  case (Cons a ops)
  show ?case
  proof (cases a)
    case (Send m w)
    obtain out slot' where s: "slot_try_send (Suc n) m w slot = (out, slot')" by fastforce
    note spec = slot_try_send_spec [OF Cons.prems zero_less_Suc s]
    obtain sent got final where r: "slot_run (Suc n) ops slot' = Some (sent, got, final)"
      "slot_ok (Suc n) final" "pending slot' @ sent = got @ pending final"
      using Cons.IH [of slot'] spec by blast
    have "receiver_of slot \<noteq> None \<Longrightarrow> pending slot = []" by (cases slot) auto
    then show ?thesis using spec r Send s by (auto split: option.splits if_splits)
  next
    case (Recv w)
    obtain out slot' where s: "slot_try_recv w slot = Some (out, slot')" "slot_ok (Suc n) slot'"
      and spec: "case pending slot of
        (m, s) # ps \<Rightarrow> out = RecvDelivered m s \<and> pending slot' = ps \<and> receiver_of slot' = None
      | [] \<Rightarrow> (case receiver_of slot of
          None \<Rightarrow> out = RecvEnqueued \<and> slot' = ReceiverWaiting w
        | Some _ \<Rightarrow> out = RecvQueueFull \<and> slot' = slot)"
      using slot_try_recv_spec [OF Cons.prems, of w] by blast
    obtain sent got final where r: "slot_run (Suc n) ops slot' = Some (sent, got, final)"
      "slot_ok (Suc n) final" "pending slot' @ sent = got @ pending final"
      using Cons.IH [OF s(2)] by blast
    then show ?thesis using spec s Recv by (auto split: list.splits option.splits)
  qed
qed auto

text \<open>C5. Rendezvous delivers exactly once and in order: over any sequence of sends and receives
  on a fresh endpoint the code never reaches its \<^verbatim>\<open>expect\<close> panic, the messages received are the
  first ones accepted, in the order they were accepted, the rest are still queued (at most the
  queue's capacity), and every receive names as the party to wake exactly the sender that was
  queued with that message, or nobody if that send had already been answered.\<close>

theorem rendezvous_exactly_once:
  "\<exists>sent got final. slot_run (Suc n) ops SlotEmpty = Some (sent, got, final)
    \<and> sent = got @ pending final \<and> length (pending final) \<le> Suc n"
proof -
  obtain sent got final where r: "slot_run (Suc n) ops SlotEmpty = Some (sent, got, final)"
    "slot_ok (Suc n) final" "sent = got @ pending final"
    using slot_run_conserves [of n SlotEmpty ops] by auto
  then have "length (pending final) \<le> Suc n"
    using ring.bounded [of "Suc n"] by (cases final) auto
  then show ?thesis using r by blast
qed

end
