(* ===== verification/Phys.thy ===== *)
theory Phys
  imports Bitmap
begin

text \<open>
  \<^verbatim>\<open>kernel/src/memory/phys.rs\<close>: the global 4 KiB frame allocator.  A frame is named by its
  physical start address.  The pool it draws from is the bitmap of theory \<^verbatim>\<open>Bitmap\<close>, used
  through the interpretation of \<^verbatim>\<open>index_pool\<close>.  A panic (an overflowing memory-map entry, or a
  failed \<^verbatim>\<open>debug_assert!\<close> when a frame is freed) is \<^term>\<open>None\<close>.
\<close>

subsection \<open>The allocator\<close>

definition FRAME_SIZE :: u64 where "FRAME_SIZE = 4096"
definition MAX_TRACKED_FRAMES :: nat where "MAX_TRACKED_FRAMES = 4194304"
definition BITMAP_WORDS :: nat where "BITMAP_WORDS = MAX_TRACKED_FRAMES div 64"

record frame_allocator =
  fa_bitmap :: bitmap
  fa_usable :: bitmap

definition frame_allocator_new :: "nat \<Rightarrow> frame_allocator" where
  "frame_allocator_new n = \<lparr>fa_bitmap = bitmap_new n, fa_usable = bitmap_new n\<rparr>"

text \<open>A memory-map entry; \<^term>\<open>me_usable\<close> is \<^verbatim>\<open>entry.type_ == MEMMAP_USABLE\<close>.\<close>

record memmap_entry =
  me_base :: u64
  me_length :: u64
  me_usable :: bool

definition seed_frame :: "nat \<Rightarrow> frame_allocator \<Rightarrow> frame_allocator" where
  "seed_frame i fa = fa\<lparr>fa_bitmap := set_free (fa_bitmap fa) i, fa_usable := set_free (fa_usable fa) i\<rparr>"

fun populate :: "memmap_entry list \<Rightarrow> frame_allocator \<Rightarrow> frame_allocator option" where
  "populate [] fa = Some fa"
| "populate (entry # entries) fa =
    (if \<not> me_usable entry then populate entries fa
     else case usable_frame_range (me_base entry) (me_length entry) FRAME_SIZE of
            None \<Rightarrow> None
          | Some (lo, hi) \<Rightarrow> populate entries (fold seed_frame [lo..<hi] fa))"

definition frame_addr :: "nat \<Rightarrow> u64" where
  "frame_addr i = of_nat i * FRAME_SIZE"

definition frame_index :: "u64 \<Rightarrow> nat" where
  "frame_index a = unat (a div FRAME_SIZE)"

definition allocate_frame :: "frame_allocator \<Rightarrow> u64 option \<times> frame_allocator" where
  "allocate_frame fa =
    (case allocate (fa_bitmap fa) of
       (None, b) \<Rightarrow> (None, fa\<lparr>fa_bitmap := b\<rparr>)
     | (Some i, b) \<Rightarrow> (Some (frame_addr i), fa\<lparr>fa_bitmap := b\<rparr>))"

definition deallocate_frame :: "frame_allocator \<Rightarrow> u64 \<Rightarrow> frame_allocator option" where
  "deallocate_frame fa frame =
    (let i = frame_index frame in
     if is_free (fa_usable fa) i \<and> \<not> is_free (fa_bitmap fa) i
     then Some (fa\<lparr>fa_bitmap := set_free (fa_bitmap fa) i\<rparr>)
     else None)"

definition free_frame_count :: "frame_allocator \<Rightarrow> nat" where
  "free_frame_count fa = free_count (fa_bitmap fa)"

subsection \<open>Invariant\<close>

text \<open>Both bitmaps have the same size, small enough for 64-bit addresses, and free frames are usable ones.\<close>

definition fa_wf :: "frame_allocator \<Rightarrow> bool" where
  "fa_wf fa \<longleftrightarrow> bitmap_wf (fa_bitmap fa) \<and> bitmap_wf (fa_usable fa)
    \<and> capacity (fa_bitmap fa) = capacity (fa_usable fa) \<and> capacity (fa_usable fa) \<le> MAX_TRACKED_FRAMES
    \<and> free_set (fa_bitmap fa) \<subseteq> free_set (fa_usable fa)"

lemma frame_index_addr: "i < 2 ^ 52 \<Longrightarrow> frame_index (frame_addr i) = i"
proof -
  assume i: "i < 2 ^ 52"
  have u: "unat (of_nat i :: u64) = i" using i by (simp add: unat_of_nat take_bit_nat_eq_self_iff)
  have "unat (of_nat i * FRAME_SIZE :: u64) = i * 4096"
    using i by (simp add: FRAME_SIZE_def unat_word_ariths u)
  then show ?thesis
    unfolding frame_index_def frame_addr_def by (simp add: unat_div_distrib FRAME_SIZE_def)
qed

lemma frame_addr_inj: "i < 2 ^ 52 \<Longrightarrow> j < 2 ^ 52 \<Longrightarrow> frame_addr i = frame_addr j \<longleftrightarrow> i = j"
  by (metis frame_index_addr)

lemma fa_wf_new: "n \<le> BITMAP_WORDS \<Longrightarrow> fa_wf (frame_allocator_new n)"
  by (simp add: fa_wf_def frame_allocator_new_def bitmap_wf_new)
     (simp add: capacity_def bitmap_new_def BITMAP_WORDS_def MAX_TRACKED_FRAMES_def)

lemma fa_wf_seed: "fa_wf fa \<Longrightarrow> fa_wf (seed_frame i fa)"
  by (auto simp: fa_wf_def seed_frame_def bitmap_wf_set_free free_set_set_free)

lemma seed_frames:
  assumes "fa_wf fa" "free_set (fa_bitmap fa) = free_set (fa_usable fa)"
  shows "fa_wf (fold seed_frame is fa)
    \<and> free_set (fa_bitmap (fold seed_frame is fa)) = free_set (fa_usable (fold seed_frame is fa))
    \<and> free_set (fa_usable (fold seed_frame is fa)) = free_set (fa_usable fa) \<union> {i \<in> set is. i < capacity (fa_usable fa)}
    \<and> capacity (fa_usable (fold seed_frame is fa)) = capacity (fa_usable fa)"
  using assms
proof (induction "is" arbitrary: fa)
  case (Cons i "is")
  have "capacity (fa_bitmap fa) = capacity (fa_usable fa)" using Cons.prems by (simp add: fa_wf_def)
  then have "free_set (fa_bitmap (seed_frame i fa)) = free_set (fa_usable (seed_frame i fa))"
    "free_set (fa_usable (seed_frame i fa)) = free_set (fa_usable fa) \<union> {j. j = i \<and> j < capacity (fa_usable fa)}"
    "capacity (fa_usable (seed_frame i fa)) = capacity (fa_usable fa)"
    using Cons.prems by (auto simp: seed_frame_def free_set_set_free)
  then show ?case using Cons.IH [of "seed_frame i fa"] fa_wf_seed [OF Cons.prems(1), of i] by auto
qed auto

text \<open>The frames the firmware's memory map makes usable.\<close>

definition region_frames :: "memmap_entry list \<Rightarrow> nat set" where
  "region_frames entries = {i. \<exists>e \<in> set entries. me_usable e \<and>
     unat (me_base e) \<le> i * 4096 \<and> (i + 1) * 4096 \<le> unat (me_base e) + unat (me_length e)}"

lemma usable_range_frames:
  assumes "usable_frame_range base len FRAME_SIZE = Some (lo, hi)"
  shows "lo \<le> i \<and> i < hi \<longleftrightarrow> unat base \<le> i * 4096 \<and> (i + 1) * 4096 \<le> unat base + unat len"
proof -
  obtain lim :: u64 where lim: "unat lim = unat base + unat len" "lo = div_ceil (unat base) 4096"
    "hi = unat lim div 4096"
    using assms by (auto simp: usable_frame_range_def checked_add_Some_iff FRAME_SIZE_def split: option.splits)
  then have "i < hi \<longleftrightarrow> (i + 1) * 4096 \<le> unat lim"
    by (metis Suc_eq_plus1 Suc_le_eq less_eq_div_iff_mult_less_eq zero_less_numeral)
  then show ?thesis using lim by (simp add: div_ceil_le_iff)
qed

lemma populate_frames:
  assumes "populate entries fa = Some fa'" "fa_wf fa" "free_set (fa_bitmap fa) = free_set (fa_usable fa)"
  shows "fa_wf fa' \<and> free_set (fa_bitmap fa') = free_set (fa_usable fa')
    \<and> capacity (fa_usable fa') = capacity (fa_usable fa)
    \<and> free_set (fa_usable fa') = free_set (fa_usable fa) \<union> {i \<in> region_frames entries. i < capacity (fa_usable fa)}"
  using assms
proof (induction entries arbitrary: fa)
  case (Cons e entries)
  show ?case
  proof (cases "me_usable e")
    case False
    then have "region_frames (e # entries) = region_frames entries" by (auto simp: region_frames_def)
    then show ?thesis using Cons False by simp
  next
    case True
    obtain lo hi where r: "usable_frame_range (me_base e) (me_length e) FRAME_SIZE = Some (lo, hi)"
      and p: "populate entries (fold seed_frame [lo..<hi] fa) = Some fa'"
      using Cons.prems(1) True by (auto split: option.splits)
    note s = seed_frames [OF Cons.prems(2,3), of "[lo..<hi]"]
    have "set [lo..<hi] \<union> region_frames entries = region_frames (e # entries)"
      using usable_range_frames [OF r] True by (auto simp: region_frames_def)
    then have "{i \<in> set [lo..<hi]. i < c} \<union> {i \<in> region_frames entries. i < c}
        = {i \<in> region_frames (e # entries). i < c}" for c by blast
    then show ?thesis using Cons.IH [OF p] s by (simp add: Un_assoc)
  qed
qed (simp add: region_frames_def)

subsection \<open>Ownership of frames\<close>

text \<open>
  Every history of the allocator: boot populates it from the memory map, and from then on the
  kernel takes frames and gives back frames it holds.  The third argument is the set of frames
  currently held.
\<close>

inductive fa_history :: "memmap_entry list \<Rightarrow> frame_allocator \<Rightarrow> u64 set \<Rightarrow> bool" for entries where
  boot: "populate entries (frame_allocator_new BITMAP_WORDS) = Some fa \<Longrightarrow> fa_history entries fa {}"
| take: "fa_history entries fa held \<Longrightarrow> allocate_frame fa = (Some f, fa')
    \<Longrightarrow> fa_history entries fa' (insert f held)"
| give: "fa_history entries fa held \<Longrightarrow> f \<in> held \<Longrightarrow> deallocate_frame fa f = Some fa'
    \<Longrightarrow> fa_history entries fa' (held - {f})"

text \<open>Held frames are exactly the usable ones that are not free.\<close>

definition fa_inv :: "memmap_entry list \<Rightarrow> frame_allocator \<Rightarrow> u64 set \<Rightarrow> bool" where
  "fa_inv entries fa held \<longleftrightarrow> fa_wf fa
    \<and> free_set (fa_usable fa) = {i \<in> region_frames entries. i < MAX_TRACKED_FRAMES}
    \<and> capacity (fa_usable fa) = MAX_TRACKED_FRAMES
    \<and> held = frame_addr ` (free_set (fa_usable fa) - free_set (fa_bitmap fa))"

lemma tracked_bound: "fa_wf fa \<Longrightarrow> i \<in> free_set (fa_usable fa) \<Longrightarrow> i < 2 ^ 52"
  using bitmap.bounded [of "fa_usable fa"] by (fastforce simp: fa_wf_def MAX_TRACKED_FRAMES_def)

lemma frame_addr_inj_on: "fa_wf fa \<Longrightarrow> inj_on frame_addr (free_set (fa_usable fa))"
  by (rule inj_onI) (metis frame_addr_inj tracked_bound)

lemma allocate_frame_cases:
  assumes "fa_wf fa" "allocate_frame fa = (r, fa')"
  obtains (None) "r = None" "fa' = fa" "free_set (fa_bitmap fa) = {}"
  | (Some) i where "r = Some (frame_addr i)" "i \<in> free_set (fa_bitmap fa)" "fa_wf fa'"
      "fa_usable fa' = fa_usable fa" "free_set (fa_bitmap fa') = free_set (fa_bitmap fa) - {i}"
proof -
  obtain x b where a: "allocate (fa_bitmap fa) = (x, b)" by fastforce
  have wf: "bitmap_wf (fa_bitmap fa)" using assms(1) by (simp add: fa_wf_def)
  show thesis
  proof (cases x)
    case None
    then have "free_set (fa_bitmap fa) = {} \<and> b = fa_bitmap fa" using bitmap.take_none [OF wf] a by simp
    then show thesis using that(1) assms(2) a None by (simp add: allocate_frame_def)
  next
    case (Some i)
    note t = bitmap.take_some [OF wf a [unfolded Some]]
    show thesis
      by (rule that(2) [of i]) (use assms a Some t in \<open>auto simp: allocate_frame_def fa_wf_def\<close>)
  qed
qed

lemma fa_inv_boot:
  assumes "populate entries (frame_allocator_new BITMAP_WORDS) = Some fa"
  shows "fa_inv entries fa {}"
proof -
  have c: "capacity (bitmap_new BITMAP_WORDS) = MAX_TRACKED_FRAMES"
    by (simp add: capacity_def bitmap_new_def BITMAP_WORDS_def MAX_TRACKED_FRAMES_def)
  have "fa_wf (frame_allocator_new BITMAP_WORDS)" by (rule fa_wf_new) simp
  then show ?thesis
    using populate_frames [OF assms] c by (simp add: fa_inv_def frame_allocator_new_def free_set_new)
qed

lemma fa_inv_take:
  assumes inv: "fa_inv entries fa held" and a: "allocate_frame fa = (Some f, fa')"
  shows "fa_inv entries fa' (insert f held) \<and> f \<notin> held"
proof -
  have wf: "fa_wf fa" using inv by (simp add: fa_inv_def)
  obtain i where i: "f = frame_addr i" "i \<in> free_set (fa_bitmap fa)" "fa_wf fa'"
    "fa_usable fa' = fa_usable fa" "free_set (fa_bitmap fa') = free_set (fa_bitmap fa) - {i}"
    using allocate_frame_cases [OF wf a] by (metis option.distinct(1) option.inject)
  have iu: "i \<in> free_set (fa_usable fa)" using i(2) wf by (auto simp: fa_wf_def)
  have "f \<notin> held"
    using inv i(1,2) iu frame_addr_inj_on [OF wf] by (auto simp: fa_inv_def dest: inj_onD)
  moreover have "free_set (fa_usable fa) - free_set (fa_bitmap fa')
      = insert i (free_set (fa_usable fa) - free_set (fa_bitmap fa))" using i(5) iu by auto
  ultimately show ?thesis using inv i by (simp add: fa_inv_def)
qed

lemma fa_inv_give:
  assumes inv: "fa_inv entries fa held" and f: "f \<in> held"
  shows "\<exists>fa'. deallocate_frame fa f = Some fa' \<and> fa_inv entries fa' (held - {f})"
proof -
  have wf: "fa_wf fa" using inv by (simp add: fa_inv_def)
  obtain i where i: "f = frame_addr i" "i \<in> free_set (fa_usable fa)" "i \<notin> free_set (fa_bitmap fa)"
    using inv f by (auto simp: fa_inv_def)
  have idx: "frame_index f = i" using i tracked_bound [OF wf i(2)] by (simp add: frame_index_addr)
  let ?fa' = "fa\<lparr>fa_bitmap := set_free (fa_bitmap fa) i\<rparr>"
  have "deallocate_frame fa f = Some ?fa'"
    using i idx by (simp add: deallocate_frame_def free_set_def)
  moreover have c: "i < capacity (fa_bitmap fa)"
    using i(2) wf bitmap.bounded [of "fa_usable fa"] by (auto simp: fa_wf_def)
  have "frame_addr ` (free_set (fa_usable fa) - insert i (free_set (fa_bitmap fa))) = held - {f}"
    using inv i frame_addr_inj_on [OF wf] by (auto simp: fa_inv_def dest: inj_onD)
  then have "fa_inv entries ?fa' (held - {f})"
    using inv c i(2) by (auto simp: fa_inv_def fa_wf_def free_set_set_free bitmap_wf_set_free)
  ultimately show ?thesis by blast
qed

lemma fa_history_inv: "fa_history entries fa held \<Longrightarrow> fa_inv entries fa held"
proof (induction rule: fa_history.induct)
  case (give fa held f fa')
  then show ?case using fa_inv_give [of entries fa held f] by auto
qed (auto dest: fa_inv_boot fa_inv_take)

lemma fa_inv_count:
  assumes "fa_inv entries fa held"
  shows "free_frame_count fa + card held = card {i \<in> region_frames entries. i < MAX_TRACKED_FRAMES}"
proof -
  have wf: "fa_wf fa" and h: "held = frame_addr ` (free_set (fa_usable fa) - free_set (fa_bitmap fa))"
    using assms by (auto simp: fa_inv_def)
  have "card held = card (free_set (fa_usable fa) - free_set (fa_bitmap fa))"
    unfolding h using inj_on_subset [OF frame_addr_inj_on [OF wf]] by (intro card_image) auto
  also have "\<dots> = card (free_set (fa_usable fa)) - card (free_set (fa_bitmap fa))"
    using wf by (intro card_Diff_subset) (auto simp: fa_wf_def)
  finally show ?thesis
    using assms wf card_mono [OF finite_free_set, of "free_set (fa_bitmap fa)" "fa_usable fa"]
    by (simp add: fa_inv_def free_frame_count_def free_count_card fa_wf_def)
qed

lemma history_take_least:
  assumes h: "fa_history es fa held" and ne: "free_set (fa_bitmap fa) \<noteq> {}"
  shows "\<exists>fa'. fa_history es fa' (insert (frame_addr (Min (free_set (fa_bitmap fa)))) held)
    \<and> free_set (fa_bitmap fa') = free_set (fa_bitmap fa) - {Min (free_set (fa_bitmap fa))}"
proof -
  have wf: "bitmap_wf (fa_bitmap fa)" using fa_history_inv [OF h] by (simp add: fa_inv_def fa_wf_def)
  obtain i b where a: "allocate (fa_bitmap fa) = (Some i, b)" using bitmap.take_succeeds [OF wf ne] by blast
  have i: "i = Min (free_set (fa_bitmap fa))" "free_set b = free_set (fa_bitmap fa) - {i}"
    using bitmap.take_some [OF wf a] by auto
  have "allocate_frame fa = (Some (frame_addr i), fa\<lparr>fa_bitmap := b\<rparr>)"
    using a by (simp add: allocate_frame_def)
  then show ?thesis using fa_history.take [OF h] i by fastforce
qed

text \<open>A machine with one usable region, the two frames at \<^verbatim>\<open>0x1000\<close> and \<^verbatim>\<open>0x2000\<close>.\<close>

definition two_frames :: "memmap_entry list" where
  "two_frames = [\<lparr>me_base = 0x1000, me_length = 0x2000, me_usable = True\<rparr>]"

lemma two_frames_region: "{i \<in> region_frames two_frames. i < MAX_TRACKED_FRAMES} = {1, 2}"
  by (auto simp: region_frames_def two_frames_def MAX_TRACKED_FRAMES_def)

lemma two_frames_boot: "\<exists>fa. fa_history two_frames fa {} \<and> free_set (fa_bitmap fa) = {1, 2}"
proof -
  have r: "usable_frame_range 0x1000 0x2000 FRAME_SIZE = Some (1, 3)"
    by (simp add: usable_frame_range_def checked_add_def div_ceil_def FRAME_SIZE_def)
  obtain fa where p: "populate two_frames (frame_allocator_new BITMAP_WORDS) = Some fa"
    by (simp add: two_frames_def r)
  have "free_set (fa_bitmap fa) = {1, 2}"
    using populate_frames [OF p fa_wf_new] two_frames_region
    by (simp add: frame_allocator_new_def free_set_new)
       (simp add: capacity_def bitmap_new_def BITMAP_WORDS_def MAX_TRACKED_FRAMES_def)
  then show ?thesis using fa_history.boot [OF p] by blast
qed

lemma two_frames_one_held:
  "\<exists>fa. fa_history two_frames fa {0x1000} \<and> free_set (fa_bitmap fa) = {2}"
proof -
  obtain fa where fa: "fa_history two_frames fa {}" "free_set (fa_bitmap fa) = {1, 2}"
    using two_frames_boot by blast
  then show ?thesis
    using history_take_least [OF fa(1)] by (simp add: frame_addr_def FRAME_SIZE_def)
qed

lemma two_frames_both_held: "\<exists>fa. fa_history two_frames fa {0x1000, 0x2000}"
proof -
  obtain fa where fa: "fa_history two_frames fa {0x1000}" "free_set (fa_bitmap fa) = {2}"
    using two_frames_one_held by blast
  then show ?thesis
    using history_take_least [OF fa(1)] by (simp add: frame_addr_def FRAME_SIZE_def insert_commute) blast
qed

text \<open>C6. Physical frames have one owner: over any history of allocations and frees of held
  frames, a newly allocated frame is never one that is still held, it lies wholly inside a usable
  region of the firmware's memory map, freeing a held frame never trips the allocator's
  assertions, and free plus held frames always add up to the usable ones (nothing leaks inside
  the allocator).\<close>

theorem frame_single_owner:
  assumes "fa_history entries fa held"
  shows "(\<forall>f fa'. allocate_frame fa = (Some f, fa') \<longrightarrow>
            f \<notin> held \<and> (\<exists>i \<in> region_frames entries. f = frame_addr i))
    \<and> (\<forall>f \<in> held. deallocate_frame fa f \<noteq> None)
    \<and> free_frame_count fa + card held = card {i \<in> region_frames entries. i < MAX_TRACKED_FRAMES}"
proof (intro conjI allI ballI impI)
  note inv = fa_history_inv [OF assms]
  show "free_frame_count fa + card held = card {i \<in> region_frames entries. i < MAX_TRACKED_FRAMES}"
    by (rule fa_inv_count [OF inv])
  show "deallocate_frame fa f \<noteq> None" if "f \<in> held" for f using fa_inv_give [OF inv that] by auto
  fix f fa' assume a: "allocate_frame fa = (Some f, fa')"
  have t: "fa_inv entries fa' (insert f held)" "f \<notin> held" using fa_inv_take [OF inv a] by auto
  show "f \<notin> held" by (rule t(2))
  show "\<exists>i \<in> region_frames entries. f = frame_addr i" proof -
    have "f \<in> frame_addr ` (free_set (fa_usable fa') - free_set (fa_bitmap fa'))"
      using t(1) unfolding fa_inv_def by blast
    then show ?thesis using t(1) unfolding fa_inv_def by blast
  qed
qed

theorem frame_single_owner_witness:
  "\<exists>fa. fa_history two_frames fa {0x1000} \<and> free_frame_count fa = 1"
proof -
  obtain fa where fa: "fa_history two_frames fa {0x1000}" using two_frames_one_held by blast
  then show ?thesis using frame_single_owner [OF fa] two_frames_region by auto
qed

end
