(* ===== verification/Virt.thy ===== *)
theory Virt
  imports Phys
begin

text \<open>
  \<^verbatim>\<open>kernel/src/memory/virt.rs\<close>: address spaces.  Page tables are values of the \<^verbatim>\<open>x86_64\<close> crate
  and are only touched through its interface, so their contents are a type parameter
  \<^typ>\<open>'pt\<close> and the crate's operations are a record of functions the definitions take as an
  argument.  Physical memory other than page tables is a map from addresses to bytes, and the
  higher-half direct map (\<^verbatim>\<open>phys_to_virt\<close>) is the identity on it.
\<close>

subsection \<open>Memory and the paging interface\<close>

record 'pt mem =
  falloc :: frame_allocator
  pmem :: "u64 \<Rightarrow> u8"
  ptab :: 'pt

datatype map_to_error = FrameAllocationFailed | PageAlreadyMapped | ParentEntryHugePage

datatype map_error = OutOfMemory | AlreadyMapped

text \<open>
  The crate's interface: \<^verbatim>\<open>VirtAddr::new\<close> accepts an address (it panics otherwise),
  \<^verbatim>\<open>Mapper::map_to\<close> in the table rooted at a level 4 frame, \<^verbatim>\<open>Translate::translate\<close>,
  \<^verbatim>\<open>PageTableEntry::frame\<close>, \<^verbatim>\<open>PageTable::zero\<close> and copying one entry between tables.
\<close>

record 'pt paging =
  va_ok :: "u64 \<Rightarrow> bool"
  pg_map_to :: "u64 \<Rightarrow> u64 \<Rightarrow> u64 \<Rightarrow> u64 \<Rightarrow> 'pt \<Rightarrow> frame_allocator
    \<Rightarrow> (map_to_error + unit) \<times> 'pt \<times> frame_allocator"
  pg_translate :: "'pt \<Rightarrow> u64 \<Rightarrow> u64 \<Rightarrow> (u64 \<times> u64) option"
  pg_entry_frame :: "'pt \<Rightarrow> u64 \<Rightarrow> nat \<Rightarrow> u64 option"
  pg_zero :: "u64 \<Rightarrow> 'pt \<Rightarrow> 'pt"
  pg_copy_entry :: "u64 \<Rightarrow> u64 \<Rightarrow> nat \<Rightarrow> 'pt \<Rightarrow> 'pt"
  pg_master :: u64

text \<open>Page-table flag bits of the architecture.\<close>

definition PF_PRESENT :: u64 where "PF_PRESENT = 1"
definition PF_WRITABLE :: u64 where "PF_WRITABLE = 2"
definition PF_USER :: u64 where "PF_USER = 4"
definition PF_NO_EXECUTE :: u64 where "PF_NO_EXECUTE = push_bit 63 1"

definition flags_contain :: "u64 \<Rightarrow> u64 \<Rightarrow> bool" where
  "flags_contain f g \<longleftrightarrow> f AND g = g"

subsection \<open>Mapping and translating\<close>

fun map_error_from :: "map_to_error \<Rightarrow> map_error" where
  "map_error_from FrameAllocationFailed = OutOfMemory"
| "map_error_from PageAlreadyMapped = AlreadyMapped"
| "map_error_from ParentEntryHugePage = AlreadyMapped"

definition map_in ::
  "'pt paging \<Rightarrow> u64 \<Rightarrow> u64 \<Rightarrow> u64 \<Rightarrow> u64 \<Rightarrow> 'pt mem \<Rightarrow> (map_error + unit) \<times> 'pt mem" where
  "map_in pg pml4 page frame flags m =
    (case pg_map_to pg pml4 page frame flags (ptab m) (falloc m) of
       (r, pt, fa) \<Rightarrow> (map_sum map_error_from id r, m\<lparr>ptab := pt, falloc := fa\<rparr>))"

definition translate_in :: "'pt paging \<Rightarrow> u64 \<Rightarrow> u64 \<Rightarrow> 'pt mem \<Rightarrow> (u64 \<times> u64) option" where
  "translate_in pg pml4 addr m = pg_translate pg (ptab m) pml4 addr"

text \<open>The same in the boot-time tables of the kernel half.\<close>

definition virt_map :: "'pt paging \<Rightarrow> u64 \<Rightarrow> u64 \<Rightarrow> u64 \<Rightarrow> 'pt mem \<Rightarrow> (map_error + unit) \<times> 'pt mem" where
  "virt_map pg page frame flags m = map_in pg (pg_master pg) page frame flags m"

definition virt_translate :: "'pt paging \<Rightarrow> u64 \<Rightarrow> 'pt mem \<Rightarrow> u64 option" where
  "virt_translate pg addr m = map_option fst (translate_in pg (pg_master pg) addr m)"

definition mem_allocate_frame :: "'pt mem \<Rightarrow> u64 option \<times> 'pt mem" where
  "mem_allocate_frame m = (case allocate_frame (falloc m) of (r, fa) \<Rightarrow> (r, m\<lparr>falloc := fa\<rparr>))"

subsection \<open>Address spaces\<close>

definition address_space_new :: "'pt paging \<Rightarrow> 'pt mem \<Rightarrow> (map_error + u64) \<times> 'pt mem" where
  "address_space_new pg m =
    (case mem_allocate_frame m of
       (None, m) \<Rightarrow> (Inl OutOfMemory, m)
     | (Some frame, m) \<Rightarrow>
         (Inr frame,
          m\<lparr>ptab := fold (\<lambda>i. pg_copy_entry pg frame (pg_master pg) i) [256..<512] (pg_zero pg frame (ptab m))\<rparr>))"

text \<open>Running a fallible step over a list, stopping at the first panic.\<close>

fun fold_opt :: "('a \<Rightarrow> 's \<Rightarrow> 's option) \<Rightarrow> 'a list \<Rightarrow> 's \<Rightarrow> 's option" where
  "fold_opt f [] s = Some s"
| "fold_opt f (x # xs) s = (case f x s of None \<Rightarrow> None | Some s' \<Rightarrow> fold_opt f xs s')"

definition dealloc :: "u64 \<Rightarrow> frame_allocator \<Rightarrow> frame_allocator option" where
  "dealloc frame fa = deallocate_frame fa frame"

text \<open>
  \<^verbatim>\<open>free_table_subtree(frame, level)\<close>: every present entry's frame is freed, through a recursive
  call above level 1, then the table's own frame.
\<close>

primrec free_table_subtree ::
  "nat \<Rightarrow> 'pt paging \<Rightarrow> 'pt \<Rightarrow> u64 \<Rightarrow> frame_allocator \<Rightarrow> frame_allocator option" where
  "free_table_subtree 0 pg pt frame fa =
    (case fold_opt (\<lambda>i fa. case pg_entry_frame pg pt frame i of
                             None \<Rightarrow> Some fa | Some child \<Rightarrow> dealloc child fa) [0..<512] fa of
       None \<Rightarrow> None | Some fa' \<Rightarrow> dealloc frame fa')"
| "free_table_subtree (Suc n) pg pt frame fa =
    (case fold_opt (\<lambda>i fa. case pg_entry_frame pg pt frame i of
                             None \<Rightarrow> Some fa
                           | Some child \<Rightarrow> if n \<ge> 1 then free_table_subtree n pg pt child fa
                                           else dealloc child fa) [0..<512] fa of
       None \<Rightarrow> None | Some fa' \<Rightarrow> dealloc frame fa')"

definition drop_address_space :: "'pt paging \<Rightarrow> u64 \<Rightarrow> 'pt mem \<Rightarrow> 'pt mem option" where
  "drop_address_space pg pml4 m =
    (case fold_opt (\<lambda>i fa. case pg_entry_frame pg (ptab m) pml4 i of
                             None \<Rightarrow> Some fa
                           | Some child \<Rightarrow> free_table_subtree 3 pg (ptab m) child fa) [0..<256] (falloc m) of
       None \<Rightarrow> None
     | Some fa \<Rightarrow> (case dealloc pml4 fa of None \<Rightarrow> None | Some fa' \<Rightarrow> Some (m\<lparr>falloc := fa'\<rparr>)))"

subsection \<open>What dropping an address space frees\<close>

text \<open>The frames below a table, in the order they are freed.\<close>

primrec subtree_frames :: "nat \<Rightarrow> 'pt paging \<Rightarrow> 'pt \<Rightarrow> u64 \<Rightarrow> u64 list" where
  "subtree_frames 0 pg pt frame = List.map_filter (pg_entry_frame pg pt frame) [0..<512] @ [frame]"
| "subtree_frames (Suc n) pg pt frame =
    concat (map (\<lambda>i. case pg_entry_frame pg pt frame i of
                       None \<Rightarrow> []
                     | Some child \<Rightarrow> if n \<ge> 1 then subtree_frames n pg pt child else [child]) [0..<512]) @ [frame]"

definition user_frames :: "'pt paging \<Rightarrow> 'pt \<Rightarrow> u64 \<Rightarrow> u64 list" where
  "user_frames pg pt pml4 =
    concat (map (\<lambda>i. case pg_entry_frame pg pt pml4 i of
                       None \<Rightarrow> [] | Some child \<Rightarrow> subtree_frames 3 pg pt child) [0..<256]) @ [pml4]"

lemma fold_opt_append: "fold_opt f (xs @ ys) s = Option.bind (fold_opt f xs s) (fold_opt f ys)"
  by (induction xs arbitrary: s) (auto split: option.splits)

lemma fold_opt_concat:
  "fold_opt g (concat (map h xs)) s = fold_opt (\<lambda>x. fold_opt g (h x)) xs s"
  by (induction xs arbitrary: s) (auto simp: fold_opt_append split: option.splits)

lemma fold_opt_cong: "(\<And>x s. x \<in> set xs \<Longrightarrow> f x s = g x s) \<Longrightarrow> fold_opt f xs s = fold_opt g xs s"
  by (induction xs arbitrary: s) (auto split: option.splits)

lemma fold_opt_snoc: "fold_opt f (xs @ [y]) s = (case fold_opt f xs s of None \<Rightarrow> None | Some s' \<Rightarrow> f y s')"
  by (auto simp: fold_opt_append split: option.splits)

lemma map_filter_concat:
  "List.map_filter f xs = concat (map (\<lambda>x. case f x of None \<Rightarrow> [] | Some y \<Rightarrow> [y]) xs)"
  by (induction xs) (auto split: option.splits)

lemma free_table_subtree_eq:
  "free_table_subtree n pg pt frame fa = fold_opt dealloc (subtree_frames n pg pt frame) fa"
proof (induction n arbitrary: frame fa)
  case 0
  have "fold_opt dealloc (List.map_filter (pg_entry_frame pg pt frame) [0..<512]) fa
      = fold_opt (\<lambda>i fa. case pg_entry_frame pg pt frame i of None \<Rightarrow> Some fa | Some child \<Rightarrow> dealloc child fa) [0..<512] fa"
    unfolding map_filter_concat fold_opt_concat by (rule fold_opt_cong) (auto split: option.splits)
  then show ?case by (simp add: fold_opt_snoc)
next
  case (Suc n)
  show ?case
    unfolding subtree_frames.simps free_table_subtree.simps fold_opt_snoc fold_opt_concat
    by (intro arg_cong [where f = "\<lambda>r. case r of None \<Rightarrow> None | Some s \<Rightarrow> dealloc frame s"] fold_opt_cong)
       (auto simp: Suc.IH split: option.splits)
qed

lemma drop_address_space_eq:
  "drop_address_space pg pml4 m =
    map_option (\<lambda>fa. m\<lparr>falloc := fa\<rparr>) (fold_opt dealloc (user_frames pg (ptab m) pml4) (falloc m))"
proof -
  have "fold_opt (\<lambda>i fa. case pg_entry_frame pg (ptab m) pml4 i of None \<Rightarrow> Some fa
        | Some child \<Rightarrow> free_table_subtree 3 pg (ptab m) child fa) [0..<256] (falloc m)
      = fold_opt dealloc (concat (map (\<lambda>i. case pg_entry_frame pg (ptab m) pml4 i of None \<Rightarrow> []
          | Some child \<Rightarrow> subtree_frames 3 pg (ptab m) child) [0..<256])) (falloc m)"
    unfolding fold_opt_concat free_table_subtree_eq by (rule fold_opt_cong) (auto split: option.splits)
  then show ?thesis
    by (simp add: drop_address_space_def user_frames_def fold_opt_snoc split: option.splits)
qed

lemma dealloc_history:
  assumes "fa_history es fa held" "distinct fs" "set fs \<subseteq> held"
  shows "\<exists>fa'. fold_opt dealloc fs fa = Some fa' \<and> fa_history es fa' (held - set fs)"
  using assms
proof (induction fs arbitrary: fa held)
  case (Cons f fs)
  obtain fa1 where d: "deallocate_frame fa f = Some fa1"
    using fa_inv_give [OF fa_history_inv [OF Cons.prems(1)], of f] Cons.prems(3) by auto
  have "fa_history es fa1 (held - {f})"
    using fa_history.give [OF Cons.prems(1) _ d] Cons.prems(3) by auto
  then obtain fa' where "fold_opt dealloc fs fa1 = Some fa'" "fa_history es fa' (held - {f} - set fs)"
    using Cons.IH [of fa1 "held - {f}"] Cons.prems(2,3) by auto
  moreover have "dealloc f fa = Some fa1" by (simp add: dealloc_def d)
  ultimately show ?case by (auto simp: Diff_insert2 [symmetric])
qed auto

lemma held_finite: "fa_history es fa held \<Longrightarrow> finite held"
  by (induction rule: fa_history.induct) auto

text \<open>C15. Dropping an address space gives every frame of its user half back exactly once: if the
  frames reachable from its level 4 table are held and pairwise distinct, the walk trips no
  allocator assertion, afterwards none of those frames is held, all other held frames still are,
  and the free count has grown by exactly their number.\<close>

theorem drop_address_space_frees:
  assumes h: "fa_history es (falloc m) held"
    and d: "distinct (user_frames pg (ptab m) pml4)" and sub: "set (user_frames pg (ptab m) pml4) \<subseteq> held"
  shows "\<exists>m'. drop_address_space pg pml4 m = Some m'
    \<and> fa_history es (falloc m') (held - set (user_frames pg (ptab m) pml4))
    \<and> free_frame_count (falloc m') = free_frame_count (falloc m) + length (user_frames pg (ptab m) pml4)
    \<and> ptab m' = ptab m \<and> pmem m' = pmem m"
proof -
  let ?fs = "user_frames pg (ptab m) pml4"
  obtain fa' where fa': "fold_opt dealloc ?fs (falloc m) = Some fa'" "fa_history es fa' (held - set ?fs)"
    using dealloc_history [OF h d sub] by blast
  have "card (held - set ?fs) = card held - length ?fs"
    using sub d by (simp add: card_Diff_subset distinct_card)
  moreover have "length ?fs \<le> card held"
    using sub d held_finite [OF h] by (metis card_mono distinct_card)
  ultimately have "free_frame_count fa' = free_frame_count (falloc m) + length ?fs"
    using fa_inv_count [OF fa_history_inv [OF h]] fa_inv_count [OF fa_history_inv [OF fa'(2)]] by linarith
  then show ?thesis using fa' by (auto simp: drop_address_space_eq)
qed

text \<open>A paging interface whose level 4 table at \<^verbatim>\<open>0x1000\<close> has one entry, the table at \<^verbatim>\<open>0x2000\<close>.\<close>

definition one_table_paging :: "unit paging" where
  "one_table_paging =
    \<lparr>va_ok = (\<lambda>a. a < 0x800000000000 \<or> 0xFFFF800000000000 \<le> a),
     pg_map_to = (\<lambda>_ _ _ _ pt fa. (Inl PageAlreadyMapped, pt, fa)),
     pg_translate = (\<lambda>_ _ _. None),
     pg_entry_frame = (\<lambda>_ t i. if t = 0x1000 \<and> i = 0 then Some 0x2000 else None),
     pg_zero = (\<lambda>_ pt. pt), pg_copy_entry = (\<lambda>_ _ _ pt. pt), pg_master = 0\<rparr>"

lemma one_table_user_frames: "user_frames one_table_paging () 0x1000 = [0x2000, 0x1000]"
proof -
  have "[0..<256] = 0 # [Suc 0..<256]" by (simp add: upt_conv_Cons del: upt_Suc)
  moreover have "subtree_frames 3 one_table_paging () 0x2000 = [0x2000]"
    by (simp add: numeral_3_eq_3 one_table_paging_def concat_eq_Nil_conv del: upt_Suc)
  ultimately show ?thesis
    by (simp add: user_frames_def one_table_paging_def concat_eq_Nil_conv del: upt_Suc)
qed

theorem drop_address_space_frees_witness:
  "\<exists>m m'. fa_history two_frames (falloc m) {0x1000, 0x2000}
     \<and> drop_address_space one_table_paging 0x1000 m = Some m'
     \<and> fa_history two_frames (falloc m') {}
     \<and> free_frame_count (falloc m') = free_frame_count (falloc m) + 2"
proof -
  obtain fa where fa: "fa_history two_frames fa {0x1000, 0x2000}" using two_frames_both_held by blast
  let ?m = "\<lparr>falloc = fa, pmem = (\<lambda>_. 0), ptab = ()\<rparr>"
  have "\<exists>m'. drop_address_space one_table_paging 0x1000 ?m = Some m'
     \<and> fa_history two_frames (falloc m') {} \<and> free_frame_count (falloc m') = free_frame_count fa + 2"
    using drop_address_space_frees [of two_frames ?m "{0x1000, 0x2000}" one_table_paging "0x1000"] fa
    by (simp add: one_table_user_frames insert_commute) blast
  then have "\<exists>m'. fa_history two_frames (falloc ?m) {0x1000, 0x2000}
     \<and> drop_address_space one_table_paging 0x1000 ?m = Some m' \<and> fa_history two_frames (falloc m') {}
     \<and> free_frame_count (falloc m') = free_frame_count (falloc ?m) + 2" using fa by simp
  then show ?thesis by (rule exI)
qed

text \<open>
  A paging interface that keeps the mappings of every address space in one list; it needs no frames
  for tables.
\<close>

type_synonym flat_table = "((u64 \<times> u64) \<times> (u64 \<times> u64)) list"

definition flat_paging :: "flat_table paging" where
  "flat_paging =
    \<lparr>va_ok = (\<lambda>a. a < 0x800000000000 \<or> 0xFFFF800000000000 \<le> a),
     pg_map_to = (\<lambda>root page frame flags pt fa.
       if map_of pt (root, page) = None then (Inr (), ((root, page), (frame, flags)) # pt, fa)
       else (Inl PageAlreadyMapped, pt, fa)),
     pg_translate = (\<lambda>pt root addr. map_option (\<lambda>(frame, flags). (frame + (addr - page_of addr), flags)) (map_of pt (root, page_of addr))),
     pg_entry_frame = (\<lambda>_ _ _. None),
     pg_zero = (\<lambda>_ pt. pt), pg_copy_entry = (\<lambda>_ _ _ pt. pt), pg_master = 0\<rparr>"

definition flat_mem :: "nat \<Rightarrow> flat_table mem" where
  "flat_mem n = \<lparr>falloc = frame_allocator_new n, pmem = (\<lambda>_. 0), ptab = []\<rparr>"

end
