(* ===== verification/Block.thy ===== *)
theory Block
  imports Tarn_Prelude
begin

text \<open>
  Block devices: the \<^verbatim>\<open>BlockDevice\<close> contract of \<^verbatim>\<open>kernel/src/driver/block.rs\<close> and the polled
  virtio-blk driver of \<^verbatim>\<open>kernel/src/driver/virtio_blk.rs\<close>.  An I/O action reads and changes a
  device state; its result is missing if it never returns, an error, or a value.
\<close>

subsection \<open>I/O actions\<close>

type_synonym ('d, 'e, 'a) io = "'d \<Rightarrow> (('e + 'a) \<times> 'd) option"

definition io_return :: "'a \<Rightarrow> ('d, 'e, 'a) io" where
  "io_return x d = Some (Inr x, d)"

definition io_fail :: "'e \<Rightarrow> ('d, 'e, 'a) io" where
  "io_fail e d = Some (Inl e, d)"

text \<open>Sequencing with the \<^verbatim>\<open>?\<close> operator: an error or a missing result ends the action.\<close>

definition io_bind :: "('d, 'e, 'a) io \<Rightarrow> ('a \<Rightarrow> ('d, 'e, 'b) io) \<Rightarrow> ('d, 'e, 'b) io" where
  "io_bind m f d =
    (case m d of
       None \<Rightarrow> None
     | Some (Inl e, d') \<Rightarrow> Some (Inl e, d')
     | Some (Inr x, d') \<Rightarrow> f x d')"

definition io_map_err :: "('e \<Rightarrow> 'f) \<Rightarrow> ('d, 'e, 'a) io \<Rightarrow> ('d, 'f, 'a) io" where
  "io_map_err h m d = (case m d of None \<Rightarrow> None | Some (r, d') \<Rightarrow> Some (map_sum h id r, d'))"

lemma io_bind_Inr_iff:
  "io_bind m f d = Some (Inr y, d2) \<longleftrightarrow> (\<exists>x d1. m d = Some (Inr x, d1) \<and> f x d1 = Some (Inr y, d2))"
  by (auto simp: io_bind_def split: option.splits sum.splits)

lemma io_map_err_Inr_iff: "io_map_err h m d = Some (Inr y, d2) \<longleftrightarrow> m d = Some (Inr y, d2)"
  by (auto simp: io_map_err_def map_sum_def split: option.splits sum.splits)

lemma io_simps [simp]:
  "io_return x d = Some (Inr x, d)" "io_fail e d = Some (Inl e, d)"
  by (simp_all add: io_return_def io_fail_def)

subsection \<open>The trait\<close>

definition SECTOR_SIZE :: nat where "SECTOR_SIZE = 512"

datatype block_error = BufferNotSectorAligned | OutOfRange | RequestTooLarge | DeviceError

text \<open>
  A device reads whole sectors into a buffer of a given length.  What a client may rely on: a read
  that succeeds fills the buffer, was a positive number of whole sectors, and stayed inside the
  capacity the device reports, which does not change.
\<close>

locale block_device =
  fixes read_sectors :: "u64 \<Rightarrow> nat \<Rightarrow> ('d, block_error, bytes) io"
    and capacity_of :: "'d \<Rightarrow> u64"
  assumes read_fills: "read_sectors lba n d = Some (Inr data, d') \<Longrightarrow> length data = n"
    and read_whole: "read_sectors lba n d = Some (Inr data, d') \<Longrightarrow> 0 < n \<and> SECTOR_SIZE dvd n"
    and read_in_range:
      "read_sectors lba n d = Some (Inr data, d') \<Longrightarrow> unat lba + n div SECTOR_SIZE \<le> unat (capacity_of d)"
    and read_keeps_capacity: "read_sectors lba n d = Some (r, d') \<Longrightarrow> capacity_of d' = capacity_of d"

subsection \<open>The virtio-blk driver\<close>

definition VIRTQ_DESC_F_NEXT :: u16 where "VIRTQ_DESC_F_NEXT = 1"
definition VIRTQ_DESC_F_WRITE :: u16 where "VIRTQ_DESC_F_WRITE = 2"
definition VIRTIO_BLK_T_IN :: u32 where "VIRTIO_BLK_T_IN = 0"
definition VIRTIO_BLK_S_OK :: u8 where "VIRTIO_BLK_S_OK = 0"
definition STATUS_PENDING :: u8 where "STATUS_PENDING = 0xFF"
definition MAX_SECTORS_PER_REQUEST :: nat where "MAX_SECTORS_PER_REQUEST = 8"
definition DATA_BUFFER_SIZE :: nat where "DATA_BUFFER_SIZE = MAX_SECTORS_PER_REQUEST * SECTOR_SIZE"

record virtio_blk =
  notify_base :: u64
  notify_off_multiplier :: u32
  queue_notify_off :: u16
  capacity_sectors :: u64
  vq_desc :: u64
  vq_avail :: u64
  vq_used :: u64
  queue_size :: u16
  header_phys :: u64
  header_virt :: u64
  data_phys :: u64
  data_virt :: u64
  status_phys :: u64
  status_virt :: u64

text \<open>
  The driver with the memory it shares with the device.  The device itself is the argument
  \<^term>\<open>hw\<close> of the definitions below: \<^term>\<open>hw k\<close> is what it does to memory while the driver
  spins once, \<^term>\<open>k\<close> spins before the driver gives up.
\<close>

type_synonym blk_state = "virtio_blk \<times> (u64 \<Rightarrow> u8)"

definition mmio_read16 :: "u64 \<Rightarrow> (u64 \<Rightarrow> u8) \<Rightarrow> u16" where
  "mmio_read16 addr M = from_le_bytes (mem_read addr 2 M)"

definition mmio_read8 :: "u64 \<Rightarrow> (u64 \<Rightarrow> u8) \<Rightarrow> u8" where
  "mmio_read8 addr M = M addr"

definition mmio_write8 :: "u64 \<Rightarrow> u8 \<Rightarrow> (u64 \<Rightarrow> u8) \<Rightarrow> u64 \<Rightarrow> u8" where
  "mmio_write8 addr v M = mem_write addr [v] M"

definition mmio_write16 :: "u64 \<Rightarrow> u16 \<Rightarrow> (u64 \<Rightarrow> u8) \<Rightarrow> u64 \<Rightarrow> u8" where
  "mmio_write16 addr v M = mem_write addr (take 2 (to_le_bytes (ucast v))) M"

definition mmio_write32 :: "u64 \<Rightarrow> u32 \<Rightarrow> (u64 \<Rightarrow> u8) \<Rightarrow> u64 \<Rightarrow> u8" where
  "mmio_write32 addr v M = mem_write addr (take 4 (to_le_bytes (ucast v))) M"

definition mmio_write64 :: "u64 \<Rightarrow> u64 \<Rightarrow> (u64 \<Rightarrow> u8) \<Rightarrow> u64 \<Rightarrow> u8" where
  "mmio_write64 addr v M = mem_write addr (to_le_bytes v) M"

definition write_desc ::
  "virtio_blk \<Rightarrow> u16 \<Rightarrow> u64 \<Rightarrow> u32 \<Rightarrow> u16 \<Rightarrow> u16 \<Rightarrow> (u64 \<Rightarrow> u8) \<Rightarrow> u64 \<Rightarrow> u8" where
  "write_desc b index addr dlen flags next M =
    (let base = vq_desc b + ucast index * 16 in
     mmio_write16 (base + 14) next (mmio_write16 (base + 12) flags
       (mmio_write32 (base + 8) dlen (mmio_write64 base addr M))))"

definition read_avail_idx :: "virtio_blk \<Rightarrow> (u64 \<Rightarrow> u8) \<Rightarrow> u16" where
  "read_avail_idx b M = mmio_read16 (vq_avail b + 2) M"

definition write_avail_idx :: "virtio_blk \<Rightarrow> u16 \<Rightarrow> (u64 \<Rightarrow> u8) \<Rightarrow> u64 \<Rightarrow> u8" where
  "write_avail_idx b v M = mmio_write16 (vq_avail b + 2) v M"

definition write_avail_ring_entry :: "virtio_blk \<Rightarrow> u16 \<Rightarrow> u16 \<Rightarrow> (u64 \<Rightarrow> u8) \<Rightarrow> u64 \<Rightarrow> u8" where
  "write_avail_ring_entry b slot desc_index M = mmio_write16 (vq_avail b + 4 + ucast slot * 2) desc_index M"

definition read_used_idx :: "virtio_blk \<Rightarrow> (u64 \<Rightarrow> u8) \<Rightarrow> u16" where
  "read_used_idx b M = mmio_read16 (vq_used b + 2) M"

definition notify_queue :: "virtio_blk \<Rightarrow> (u64 \<Rightarrow> u8) \<Rightarrow> u64 \<Rightarrow> u8" where
  "notify_queue b M =
    mmio_write16 (notify_base b + ucast (queue_notify_off b) * ucast (notify_off_multiplier b)) 0 M"

text \<open>The request of one read, up to and including the notification of the device, with the used
  index that will mean it is complete.\<close>

definition publish_request :: "virtio_blk \<Rightarrow> u64 \<Rightarrow> nat \<Rightarrow> (u64 \<Rightarrow> u8) \<Rightarrow> u16 \<times> (u64 \<Rightarrow> u8)" where
  "publish_request b lba n M =
    (let M = mmio_write32 (header_virt b) VIRTIO_BLK_T_IN M;
         M = mmio_write32 (header_virt b + 4) 0 M;
         M = mmio_write64 (header_virt b + 8) lba M;
         M = mmio_write8 (status_virt b) STATUS_PENDING M;
         M = write_desc b 0 (header_phys b) 16 VIRTQ_DESC_F_NEXT 1 M;
         M = write_desc b 1 (data_phys b) (of_nat n) (VIRTQ_DESC_F_NEXT OR VIRTQ_DESC_F_WRITE) 2 M;
         M = write_desc b 2 (status_phys b) 1 VIRTQ_DESC_F_WRITE 0 M;
         avail_idx = read_avail_idx b M;
         M = write_avail_ring_entry b (avail_idx mod queue_size b) 0 M;
         M = write_avail_idx b (avail_idx + 1) M
     in (avail_idx + 1, notify_queue b M))"

text \<open>The spin on the used index; \<^term>\<open>None\<close> when the device has not answered in the given spins.\<close>

fun wait_used ::
  "nat \<Rightarrow> (nat \<Rightarrow> (u64 \<Rightarrow> u8) \<Rightarrow> u64 \<Rightarrow> u8) \<Rightarrow> virtio_blk \<Rightarrow> u16 \<Rightarrow> (u64 \<Rightarrow> u8) \<Rightarrow> (u64 \<Rightarrow> u8) option" where
  "wait_used 0 hw b target M = None"
| "wait_used (Suc k) hw b target M =
    (let M' = hw k M in if read_used_idx b M' = target then Some M' else wait_used k hw b target M')"

definition virtio_read_sectors ::
  "nat \<Rightarrow> (nat \<Rightarrow> (u64 \<Rightarrow> u8) \<Rightarrow> u64 \<Rightarrow> u8) \<Rightarrow> u64 \<Rightarrow> nat \<Rightarrow> (blk_state, block_error, bytes) io" where
  "virtio_read_sectors k hw lba n = (\<lambda>(b, M).
    (if n = 0 \<or> n mod SECTOR_SIZE \<noteq> 0 then Some (Inl BufferNotSectorAligned, (b, M))
     else if n > DATA_BUFFER_SIZE then Some (Inl RequestTooLarge, (b, M))
     else case checked_add lba (of_nat (n div SECTOR_SIZE)) of
       None \<Rightarrow> Some (Inl OutOfRange, (b, M))
     | Some last_lba \<Rightarrow>
         if last_lba > capacity_sectors b then Some (Inl OutOfRange, (b, M))
         else case publish_request b lba n M of (target, M1) \<Rightarrow>
                (case wait_used k hw b target M1 of
                   None \<Rightarrow> None
                 | Some M2 \<Rightarrow>
                     if mmio_read8 (status_virt b) M2 \<noteq> VIRTIO_BLK_S_OK then Some (Inl DeviceError, (b, M2))
                     else Some (Inr (mem_read (data_virt b) n M2), (b, M2)))))"

lemmas virtio_read_splits = option.splits prod.splits if_splits

interpretation virtio: block_device "virtio_read_sectors k hw" "\<lambda>(b, M). capacity_sectors b" for k hw
proof
  fix lba :: u64 and n :: nat and d d' :: blk_state and data :: bytes and r :: "block_error + bytes"
  have small: "n \<le> DATA_BUFFER_SIZE \<Longrightarrow> unat (of_nat (n div SECTOR_SIZE) :: u64) = n div SECTOR_SIZE"
    by (simp add: DATA_BUFFER_SIZE_def MAX_SECTORS_PER_REQUEST_def SECTOR_SIZE_def unat_of_nat
        take_bit_nat_eq_self_iff)
  {
    assume r: "virtio_read_sectors k hw lba n d = Some (Inr data, d')"
    show "length data = n" "0 < n \<and> SECTOR_SIZE dvd n"
      using r by (auto simp: virtio_read_sectors_def mod_eq_0_iff_dvd split: virtio_read_splits)
    show "unat lba + n div SECTOR_SIZE \<le> unat (case d of (b, M) \<Rightarrow> capacity_sectors b)"
      using r small by (auto simp: virtio_read_sectors_def checked_add_Some_iff word_le_nat_alt not_less
          split: virtio_read_splits)
  }
  assume "virtio_read_sectors k hw lba n d = Some (r, d')"
  then show "(case d' of (b, M) \<Rightarrow> capacity_sectors b) = (case d of (b, M) \<Rightarrow> capacity_sectors b)"
    by (auto simp: virtio_read_sectors_def split: virtio_read_splits)
qed

end
