(* ===== verification/Fat.thy ===== *)
theory Fat
  imports Block
begin

text \<open>
  \<^verbatim>\<open>kernel/src/fs/fat.rs\<close>: mounting a FAT12 volume, decoding its table, following cluster chains,
  looking names up in the root directory and reading whole files, over any block device.  The
  volume's geometry is computed by the source in \<^verbatim>\<open>u64\<close> from 8-, 16- and 32-bit fields and
  read here as naturals; \<^verbatim>\<open>mount_geometry\<close> shows that no sum or product of it reaches the width.
\<close>

subsection \<open>Data\<close>

definition BOOT_SIG_OFFSET :: nat where "BOOT_SIG_OFFSET = 510"
definition BOOT_SIG :: bytes where "BOOT_SIG = [0x55, 0xAA]"
definition DIRENT_SIZE :: nat where "DIRENT_SIZE = 32"
definition DIRENT_NAME_LEN :: nat where "DIRENT_NAME_LEN = 11"
definition FAT12_EOC_MIN :: u16 where "FAT12_EOC_MIN = 0xFF8"
definition FAT12_BAD_CLUSTER :: u16 where "FAT12_BAD_CLUSTER = 0xFF7"
definition FAT12_MAX_CLUSTERS :: nat where "FAT12_MAX_CLUSTERS = 4085"
definition FIRST_DATA_CLUSTER :: nat where "FIRST_DATA_CLUSTER = 2"

datatype fat_error =
    Io block_error | BadSignature | UnsupportedSectorSize | CorruptBootSector | NotFat12
  | FatNoSuchFile | CorruptFat | NameTooLong | NoDevice

record fat12_volume =
  sectors_per_cluster :: nat
  fat_size_sectors :: nat
  fat_start_lba :: nat
  root_dir_start_lba :: nat
  root_dir_sectors :: nat
  data_start_lba :: nat
  total_clusters :: nat

definition fat_read_u16 :: "bytes \<Rightarrow> nat \<Rightarrow> u16" where
  "fat_read_u16 data off = from_le_bytes (slice data off 2)"

definition fat_read_u32 :: "bytes \<Rightarrow> nat \<Rightarrow> u32" where
  "fat_read_u32 data off = from_le_bytes (slice data off 4)"

type_synonym 'd reader = "u64 \<Rightarrow> nat \<Rightarrow> ('d, block_error, bytes) io"

subsection \<open>Mounting\<close>

text \<open>The checks and the geometry of a boot sector.\<close>

definition parse_boot_sector :: "bytes \<Rightarrow> fat_error + fat12_volume" where
  "parse_boot_sector bs =
    (if slice bs BOOT_SIG_OFFSET 2 \<noteq> BOOT_SIG then Inl BadSignature
     else if unat (fat_read_u16 bs 11) \<noteq> SECTOR_SIZE then Inl UnsupportedSectorSize
     else let spc = unat (bs ! 13); reserved = unat (fat_read_u16 bs 14); num_fats = unat (bs ! 16);
              root_entries = unat (fat_read_u16 bs 17); total16 = unat (fat_read_u16 bs 19);
              fat_size = unat (fat_read_u16 bs 22); total32 = unat (fat_read_u32 bs 32)
          in if spc = 0 \<or> num_fats = 0 \<or> fat_size = 0 then Inl CorruptBootSector
             else let root_sectors = div_ceil (root_entries * DIRENT_SIZE) (unat (fat_read_u16 bs 11));
                      root_start = reserved + num_fats * fat_size;
                      data_start = root_start + root_sectors;
                      total_sectors = (if total16 \<noteq> 0 then total16 else total32);
                      clusters = (total_sectors - data_start) div spc
                  in if clusters \<ge> FAT12_MAX_CLUSTERS then Inl NotFat12
                     else Inr \<lparr>sectors_per_cluster = spc, fat_size_sectors = fat_size, fat_start_lba = reserved,
                               root_dir_start_lba = root_start, root_dir_sectors = root_sectors,
                               data_start_lba = data_start, total_clusters = clusters\<rparr>)"

definition mount :: "'d reader \<Rightarrow> ('d, fat_error, fat12_volume) io" where
  "mount rd = io_bind (io_map_err Io (rd 0 SECTOR_SIZE)) (\<lambda>bs.
    case parse_boot_sector bs of Inl e \<Rightarrow> io_fail e | Inr v \<Rightarrow> io_return v)"

subsection \<open>The table and its chains\<close>

fun read_fat_sectors :: "'d reader \<Rightarrow> nat \<Rightarrow> nat \<Rightarrow> ('d, fat_error, bytes) io" where
  "read_fat_sectors rd lba 0 = io_return []"
| "read_fat_sectors rd lba (Suc n) =
    io_bind (io_map_err Io (rd (of_nat lba) SECTOR_SIZE)) (\<lambda>sector.
    io_bind (read_fat_sectors rd (lba + 1) n) (\<lambda>rest. io_return (sector @ rest)))"

definition read_fat_table :: "'d reader \<Rightarrow> fat12_volume \<Rightarrow> ('d, fat_error, bytes) io" where
  "read_fat_table rd v = read_fat_sectors rd (fat_start_lba v) (fat_size_sectors v)"

definition fat12_entry :: "bytes \<Rightarrow> nat \<Rightarrow> fat_error + u16" where
  "fat12_entry fat cluster =
    (let off = cluster * 3 div 2 in
     if off + 1 \<ge> length fat then Inl CorruptFat
     else let packed = (from_le_bytes [fat ! off, fat ! (off + 1)] :: u16)
          in Inr (if even cluster then packed AND 0x0FFF else drop_bit 4 packed))"

function chain_from :: "nat \<Rightarrow> bytes \<Rightarrow> nat \<Rightarrow> nat list \<Rightarrow> fat_error + nat list" where
  "chain_from bound fat cluster chain =
    (if cluster < FIRST_DATA_CLUSTER then Inl CorruptFat
     else if length chain + 1 > bound then Inl CorruptFat
     else case fat12_entry fat cluster of
            Inl e \<Rightarrow> Inl e
          | Inr nxt \<Rightarrow>
              if nxt \<ge> FAT12_EOC_MIN then Inr (chain @ [cluster])
              else if nxt = 0 \<or> nxt = FAT12_BAD_CLUSTER then Inl CorruptFat
              else chain_from bound fat (unat nxt) (chain @ [cluster]))"
  by pat_completeness auto
termination
  by (relation "measure (\<lambda>(bound, _, _, chain). bound - length chain)") auto

declare chain_from.simps [simp del]

definition cluster_chain :: "fat12_volume \<Rightarrow> bytes \<Rightarrow> nat \<Rightarrow> fat_error + nat list" where
  "cluster_chain v fat start_cluster = chain_from (total_clusters v) fat start_cluster []"

subsection \<open>Names and the root directory\<close>

definition to_ascii_uppercase :: "u8 \<Rightarrow> u8" where
  "to_ascii_uppercase c = (if 0x61 \<le> c \<and> c \<le> 0x7A then c - 32 else c)"

text \<open>\<^verbatim>\<open>name.rsplit_once('.')\<close>, and the whole name with no extension if there is no dot.\<close>

definition rsplit_dot :: "bytes \<Rightarrow> bytes \<times> bytes" where
  "rsplit_dot name =
    (if 0x2E \<in> set name
     then let ext = takeWhile (\<lambda>c. c \<noteq> 0x2E) (rev name)
          in (take (length name - length ext - 1) name, rev ext)
     else (name, []))"

definition pad_to :: "nat \<Rightarrow> bytes \<Rightarrow> bytes" where
  "pad_to n bs = bs @ replicate (n - length bs) 0x20"

definition to_83_name :: "bytes \<Rightarrow> bytes option" where
  "to_83_name name =
    (case rsplit_dot name of (base, ext) \<Rightarrow>
       if base = [] \<or> length base > 8 \<or> length ext > 3 \<or> \<not> list_all (\<lambda>c. c < 0x80) name then None
       else Some (pad_to 8 (map to_ascii_uppercase base) @ pad_to 3 (map to_ascii_uppercase ext)))"

definition dir_entries :: "bytes \<Rightarrow> bytes list" where
  "dir_entries sector = map (\<lambda>i. slice sector (i * DIRENT_SIZE) DIRENT_SIZE) [0..<length sector div DIRENT_SIZE]"

text \<open>The entries of one sector; \<^term>\<open>None\<close> means the scan goes on in the next sector.\<close>

fun scan_entries :: "bytes \<Rightarrow> bytes list \<Rightarrow> (fat_error + (u16 \<times> u32)) option" where
  "scan_entries name83 [] = None"
| "scan_entries name83 (entry # entries) =
    (if entry ! 0 = 0 then Some (Inl FatNoSuchFile)
     else if entry ! 0 = 0xE5 then scan_entries name83 entries
     else if entry ! 11 AND 0x0F = 0x0F then scan_entries name83 entries
     else if entry ! 11 AND 0x08 \<noteq> 0 then scan_entries name83 entries
     else if slice entry 0 DIRENT_NAME_LEN = name83 then Some (Inr (fat_read_u16 entry 26, fat_read_u32 entry 28))
     else scan_entries name83 entries)"

fun scan_dir :: "'d reader \<Rightarrow> bytes \<Rightarrow> nat \<Rightarrow> nat \<Rightarrow> ('d, fat_error, u16 \<times> u32) io" where
  "scan_dir rd name83 lba 0 = io_fail FatNoSuchFile"
| "scan_dir rd name83 lba (Suc n) =
    io_bind (io_map_err Io (rd (of_nat lba) SECTOR_SIZE)) (\<lambda>sector.
      case scan_entries name83 (dir_entries sector) of
        Some (Inl e) \<Rightarrow> io_fail e
      | Some (Inr found) \<Rightarrow> io_return found
      | None \<Rightarrow> scan_dir rd name83 (lba + 1) n)"

definition find_dir_entry :: "'d reader \<Rightarrow> fat12_volume \<Rightarrow> bytes \<Rightarrow> ('d, fat_error, u16 \<times> u32) io" where
  "find_dir_entry rd v name83 = scan_dir rd name83 (root_dir_start_lba v) (root_dir_sectors v)"

subsection \<open>Reading a file\<close>

definition cluster_lba :: "fat12_volume \<Rightarrow> nat \<Rightarrow> nat" where
  "cluster_lba v cluster = data_start_lba v + (cluster - FIRST_DATA_CLUSTER) * sectors_per_cluster v"

definition cluster_bytes :: "fat12_volume \<Rightarrow> nat" where
  "cluster_bytes v = sectors_per_cluster v * SECTOR_SIZE"

fun read_clusters :: "'d reader \<Rightarrow> fat12_volume \<Rightarrow> nat list \<Rightarrow> ('d, fat_error, bytes) io" where
  "read_clusters rd v [] = io_return []"
| "read_clusters rd v (cluster # chain) =
    io_bind (io_map_err Io (rd (of_nat (cluster_lba v cluster)) (cluster_bytes v))) (\<lambda>data.
    io_bind (read_clusters rd v chain) (\<lambda>rest. io_return (data @ rest)))"

definition read_file :: "'d reader \<Rightarrow> fat12_volume \<Rightarrow> bytes \<Rightarrow> ('d, fat_error, bytes) io" where
  "read_file rd v name =
    (case to_83_name name of
       None \<Rightarrow> io_fail NameTooLong
     | Some name83 \<Rightarrow>
         io_bind (find_dir_entry rd v name83) (\<lambda>(first_cluster, file_size).
           if file_size = 0 then io_return []
           else io_bind (read_fat_table rd v) (\<lambda>fat.
             case cluster_chain v fat (unat first_cluster) of
               Inl e \<Rightarrow> io_fail e
             | Inr chain \<Rightarrow>
                 io_bind (read_clusters rd v chain) (\<lambda>data. io_return (take (unat file_size) data)))))"

subsection \<open>Chains\<close>

text \<open>
  What a chain is, without the loop: the clusters of a list are linked by their table entries, every
  link is a data cluster that is neither free nor bad, and the last entry is an end mark.
\<close>

fun is_chain :: "bytes \<Rightarrow> nat list \<Rightarrow> bool" where
  "is_chain fat [] = False"
| "is_chain fat [c] = (FIRST_DATA_CLUSTER \<le> c \<and> (\<exists>e. fat12_entry fat c = Inr e \<and> FAT12_EOC_MIN \<le> e))"
| "is_chain fat (c # d # cs) =
    (FIRST_DATA_CLUSTER \<le> c
     \<and> (\<exists>e. fat12_entry fat c = Inr e \<and> e < FAT12_EOC_MIN \<and> e \<noteq> 0 \<and> e \<noteq> FAT12_BAD_CLUSTER \<and> unat e = d)
     \<and> is_chain fat (d # cs))"

lemma is_chain_ConsI:
  "FIRST_DATA_CLUSTER \<le> c \<Longrightarrow> fat12_entry fat c = Inr e \<Longrightarrow> e < FAT12_EOC_MIN \<Longrightarrow> e \<noteq> 0
   \<Longrightarrow> e \<noteq> FAT12_BAD_CLUSTER \<Longrightarrow> is_chain fat cs \<Longrightarrow> cs = unat e # ds \<Longrightarrow> is_chain fat (c # cs)"
  by simp

lemma chain_from_sound:
  "chain_from bound fat c chain = Inr r \<Longrightarrow>
   \<exists>cs. r = chain @ c # cs \<and> is_chain fat (c # cs) \<and> length r \<le> bound"
proof (induction bound fat c chain rule: chain_from.induct)
  case (1 bound fat c chain)
  from "1.prems" obtain e where b: "\<not> c < FIRST_DATA_CLUSTER" "\<not> length chain + 1 > bound"
    and e: "fat12_entry fat c = Inr e"
    by (subst (asm) chain_from.simps) (auto split: if_splits sum.splits)
  show ?case
  proof (cases "FAT12_EOC_MIN \<le> e")
    case True
    then show ?thesis using "1.prems" b e by (subst (asm) chain_from.simps) auto
  next
    case False
    then have n: "e \<noteq> 0" "e \<noteq> FAT12_BAD_CLUSTER" "chain_from bound fat (unat e) (chain @ [c]) = Inr r"
      using "1.prems" b e by (subst (asm) chain_from.simps; auto split: if_splits)+
    then obtain cs where cs: "r = (chain @ [c]) @ unat e # cs" "is_chain fat (unat e # cs)" "length r \<le> bound"
      using "1.IH" [OF b e False] by auto
    have "is_chain fat (c # unat e # cs)"
      using is_chain_ConsI [OF _ e _ n(1,2) cs(2)] b False by auto
    then show ?thesis using cs by auto
  qed
qed

lemma chain_from_complete:
  "is_chain fat (c # cs) \<Longrightarrow> length chain + length (c # cs) \<le> bound
   \<Longrightarrow> chain_from bound fat c chain = Inr (chain @ c # cs)"
proof (induction cs arbitrary: c chain)
  case Nil
  then show ?case by (subst chain_from.simps) (auto simp: not_le)
next
  case (Cons d cs)
  then obtain e where e: "FIRST_DATA_CLUSTER \<le> c" "fat12_entry fat c = Inr e" "e < FAT12_EOC_MIN" "e \<noteq> 0"
    "e \<noteq> FAT12_BAD_CLUSTER" "unat e = d" "is_chain fat (d # cs)" by auto
  have "chain_from bound fat d (chain @ [c]) = Inr ((chain @ [c]) @ d # cs)"
    using Cons.IH [of d "chain @ [c]"] Cons.prems(2) e(7) by simp
  then show ?case using e Cons.prems(2) by (subst chain_from.simps) (simp add: not_le)
qed

lemma is_chain_unique: "is_chain fat (c # cs) \<Longrightarrow> is_chain fat (c # ds) \<Longrightarrow> cs = ds"
proof (induction cs arbitrary: c ds)
  case Nil
  then show ?case by (cases ds) (auto simp: not_le)
next
  case (Cons d cs)
  then obtain e es where "ds = e # es" by (cases ds) (auto simp: not_le)
  then show ?case using Cons by auto
qed

lemma is_chain_suffix: "is_chain fat (xs @ y # ys) \<Longrightarrow> is_chain fat (y # ys)"
proof (induction xs)
  case (Cons x xs)
  then show ?case by (cases xs) auto
qed simp

lemma is_chain_distinct: "is_chain fat cs \<Longrightarrow> distinct cs"
proof (induction cs)
  case (Cons c cs)
  have "c \<notin> set cs"
  proof
    assume "c \<in> set cs"
    then obtain ys zs where s: "cs = ys @ c # zs" by (meson split_list)
    have "is_chain fat (c # zs)" using is_chain_suffix [of fat "c # ys" c zs] Cons.prems s by simp
    then have "cs = zs" using is_chain_unique Cons.prems by blast
    then show False using s by (metis length_append length_Cons less_add_Suc2 less_irrefl add.commute)
  qed
  moreover have "cs \<noteq> [] \<Longrightarrow> is_chain fat cs" using Cons.prems by (cases cs) auto
  ultimately show ?case using Cons.IH by (cases "cs = []") auto
qed simp

text \<open>
  C11. The chain walk always ends, and it returns a list of clusters exactly when the table links them
  from the starting cluster to an end mark and there are no more of them than the volume has
  clusters.  No cluster is ever returned twice, so a cyclic table is an error, not a loop.
\<close>

theorem cluster_chain_exact:
  "cluster_chain v fat c = Inr cs \<longleftrightarrow>
     is_chain fat cs \<and> hd cs = c \<and> length cs \<le> total_clusters v \<and> distinct cs"
proof
  assume "cluster_chain v fat c = Inr cs"
  then show "is_chain fat cs \<and> hd cs = c \<and> length cs \<le> total_clusters v \<and> distinct cs"
    using chain_from_sound [of "total_clusters v" fat c "[]" cs] is_chain_distinct
    by (auto simp: cluster_chain_def)
next
  assume a: "is_chain fat cs \<and> hd cs = c \<and> length cs \<le> total_clusters v \<and> distinct cs"
  then obtain ds where "cs = c # ds" by (cases cs) auto
  then show "cluster_chain v fat c = Inr cs"
    using a chain_from_complete [of fat c ds "[]" "total_clusters v"] by (simp add: cluster_chain_def)
qed

subsection \<open>The packed table\<close>

text \<open>Two 12-bit entries to three bytes, low bits first.\<close>

fun fat12_pack :: "u16 list \<Rightarrow> bytes" where
  "fat12_pack [] = []"
| "fat12_pack [a] = [ucast a, ucast (drop_bit 8 a)]"
| "fat12_pack (a # b # es) =
    [ucast a, ucast (drop_bit 8 a) OR push_bit 4 (ucast b), ucast (drop_bit 4 b)] @ fat12_pack es"

lemma below_4096_bit:
  assumes "(a :: u16) < 0x1000" "bit a n"
  shows "n < 12"
proof -
  have "unat a < 2 ^ 12" using assms(1) by (simp add: word_less_nat_alt)
  then have "take_bit 12 (unat a) = unat a" by (simp add: take_bit_nat_eq_self)
  then have "take_bit 12 a = a" by (simp add: word_unat_eq_iff unsigned_take_bit_eq)
  then show ?thesis using assms(2) by (metis bit_take_bit_iff)
qed

lemma pack_low:
  assumes "(a :: u16) < 0x1000"
  shows "from_le_bytes [ucast a, ucast (drop_bit 8 a) OR push_bit 4 (ucast b)] AND 0x0FFF = a" (is "?l AND _ = _")
proof (rule bit_word_eqI)
  fix n assume n: "n < LENGTH(16)"
  have m: "(0x0FFF :: u16) = mask 12" by (simp add: mask_eq_exp_minus_1)
  have "n < 8 \<or> (8 \<le> n \<and> n < 12) \<or> 12 \<le> n" by arith
  then show "bit (?l AND 0x0FFF) n = bit a n"
    unfolding m using n below_4096_bit [OF assms, of n]
    by (auto simp: bit_and_iff bit_or_iff bit_mask_iff bit_ucast_iff bit_push_bit_iff bit_drop_bit_eq)
qed

lemma pack_high:
  assumes "(a :: u16) < 0x1000" "(b :: u16) < 0x1000"
  shows "drop_bit 4 (from_le_bytes [ucast (drop_bit 8 a) OR push_bit 4 (ucast b), ucast (drop_bit 4 b)]) = b"
    (is "drop_bit 4 ?l = _")
proof (rule bit_word_eqI)
  fix n assume n: "n < LENGTH(16)"
  have "n < 4 \<or> (4 \<le> n \<and> n < 12) \<or> 12 \<le> n" by arith
  then show "bit (drop_bit 4 ?l) n = bit b n"
    using n below_4096_bit [OF assms(1), of "12 + n"] below_4096_bit [OF assms(2), of n]
    by (auto simp: bit_or_iff bit_ucast_iff bit_push_bit_iff bit_drop_bit_eq)
qed

lemma fat12_entry_shift: "fat12_entry (x # y # z # fat) (Suc (Suc c)) = fat12_entry fat c"
proof -
  have "Suc (Suc c) * 3 div 2 = 3 + c * 3 div 2" by simp
  then show ?thesis by (simp add: fat12_entry_def Let_def numeral_3_eq_3)
qed

text \<open>
  C25. Decoding is the inverse of the packed layout: in a table that packs a list of 12-bit entries,
  two to three bytes, the entry of every cluster the list covers is the one that was packed, for even
  and odd cluster numbers alike.
\<close>

theorem fat12_entry_pack:
  assumes "\<forall>e\<in>set es. e < 0x1000" and "c < length es"
  shows "fat12_entry (fat12_pack es) c = Inr (es ! c)"
  using assms
proof (induction es arbitrary: c rule: fat12_pack.induct)
  case (2 a)
  then show ?case using pack_low [of a 0] by (simp add: fat12_entry_def)
next
  case (3 a b es)
  consider "c = 0" | "c = 1" | d where "c = Suc (Suc d)" by (metis One_nat_def not0_implies_Suc)
  then show ?case
  proof cases
    case 1
    then show ?thesis using 3 pack_low [of a b] by (simp add: fat12_entry_def)
  next
    case 2
    then show ?thesis using 3 pack_high [of a b] by (simp add: fat12_entry_def)
  next
    case 3
    then show ?thesis using "3.IH" [of d] "3.prems" by (simp add: fat12_entry_shift)
  qed
qed simp

theorem fat12_entry_pack_witness:
  "fat12_entry (fat12_pack [0xFF0, 0xFFF, 3, 0xFF8]) 2 = Inr 3"
  using fat12_entry_pack [of "[0xFF0, 0xFFF, 3, 0xFF8]" 2] by simp

subsection \<open>Geometry\<close>

text \<open>The fields of a boot sector are at most 8, 16 and 32 bits wide.\<close>

lemma div_ceil_bound: "0 < b \<Longrightarrow> div_ceil a b \<le> a"
  by (simp add: div_ceil_le_iff)

lemma mount_geometry:
  assumes "parse_boot_sector bs = Inr v"
  shows "0 < sectors_per_cluster v" "sectors_per_cluster v < 2 ^ 8" "fat_size_sectors v < 2 ^ 16"
    "data_start_lba v < 2 ^ 26" "total_clusters v < FAT12_MAX_CLUSTERS"
    "fat_start_lba v + fat_size_sectors v \<le> root_dir_start_lba v"
    "root_dir_start_lba v + root_dir_sectors v = data_start_lba v"
proof -
  let ?nf = "unat (bs ! 16)" and ?fs = "unat (fat_read_u16 bs 22)" and ?re = "unat (fat_read_u16 bs 17)"
    and ?rs = "unat (fat_read_u16 bs 14)"
  have w: "unat (bs ! 13) < 2 ^ 8" "?nf < 2 ^ 8" "?fs < 2 ^ 16" "?re < 2 ^ 16" "?rs < 2 ^ 16"
    using unsigned_less [of "bs ! 13"] unsigned_less [of "bs ! 16"] unsigned_less [of "fat_read_u16 bs 22"]
      unsigned_less [of "fat_read_u16 bs 17"] unsigned_less [of "fat_read_u16 bs 14"] by simp_all
  from assms have v: "v = \<lparr>sectors_per_cluster = unat (bs ! 13), fat_size_sectors = ?fs, fat_start_lba = ?rs,
      root_dir_start_lba = ?rs + ?nf * ?fs, root_dir_sectors = div_ceil (?re * DIRENT_SIZE) SECTOR_SIZE,
      data_start_lba = ?rs + ?nf * ?fs + div_ceil (?re * DIRENT_SIZE) SECTOR_SIZE, total_clusters = total_clusters v\<rparr>"
    and nz: "0 < unat (bs ! 13)" "0 < ?nf" and cl: "total_clusters v < FAT12_MAX_CLUSTERS"
    by (auto simp: parse_boot_sector_def Let_def split: if_splits)
  have "?nf * ?fs \<le> (2 ^ 8 - 1) * (2 ^ 16 - 1)" using w by (intro mult_le_mono) auto
  moreover have "div_ceil (?re * DIRENT_SIZE) SECTOR_SIZE \<le> 2 ^ 16 * 32"
    using order_trans [OF div_ceil_bound [of SECTOR_SIZE "?re * DIRENT_SIZE"]] w
    by (simp add: SECTOR_SIZE_def DIRENT_SIZE_def)
  ultimately show "data_start_lba v < 2 ^ 26" using w(5) by (subst v) simp
  show "0 < sectors_per_cluster v" "sectors_per_cluster v < 2 ^ 8" "fat_size_sectors v < 2 ^ 16"
    using nz w by (subst v; simp)+
  show "total_clusters v < FAT12_MAX_CLUSTERS" by (rule cl)
  have "?fs \<le> ?nf * ?fs" using nz(2) by simp
  then show "fat_start_lba v + fat_size_sectors v \<le> root_dir_start_lba v" by (subst (1 2 3) v) simp
  show "root_dir_start_lba v + root_dir_sectors v = data_start_lba v" by (subst (1 2 3) v) simp
qed

definition volume_wf :: "fat12_volume \<Rightarrow> bool" where
  "volume_wf v \<longleftrightarrow> 0 < sectors_per_cluster v \<and> sectors_per_cluster v < 2 ^ 8 \<and> fat_size_sectors v < 2 ^ 16
    \<and> data_start_lba v < 2 ^ 26 \<and> fat_start_lba v + fat_size_sectors v \<le> root_dir_start_lba v
    \<and> root_dir_start_lba v + root_dir_sectors v = data_start_lba v"

lemma mount_wf: "parse_boot_sector bs = Inr v \<Longrightarrow> volume_wf v"
  using mount_geometry [of bs v] by (simp add: volume_wf_def)

subsection \<open>What a file read returns\<close>

text \<open>A device that holds the sectors \<^term>\<open>disk\<close>: what a successful read returns.\<close>

definition sectors :: "(nat \<Rightarrow> bytes) \<Rightarrow> nat \<Rightarrow> nat \<Rightarrow> bytes" where
  "sectors disk lba n = concat (map disk [lba..<lba + n])"

definition serves :: "'d reader \<Rightarrow> (nat \<Rightarrow> bytes) \<Rightarrow> bool" where
  "serves rd disk \<longleftrightarrow>
    (\<forall>lba n d data d'. rd lba n d = Some (Inr data, d') \<longrightarrow> data = sectors disk (unat lba) (n div SECTOR_SIZE))"

lemma serves_at:
  assumes "serves rd disk" "io_map_err h (rd (of_nat lba) n) d = Some (Inr data, d')" "lba < 2 ^ 64"
  shows "data = sectors disk lba (n div SECTOR_SIZE)"
proof -
  have "unat (of_nat lba :: u64) = lba" using assms(3) by (simp add: unat_of_nat take_bit_nat_eq_self)
  then show ?thesis using assms(1,2) unfolding serves_def io_map_err_Inr_iff by metis
qed

lemma upt_first: "[lba..<lba + Suc n] = lba # [lba + 1..<lba + 1 + n]"
  by (simp add: upt_conv_Cons del: upt_Suc)

lemma sectors_one: "sectors disk lba (SECTOR_SIZE div SECTOR_SIZE) = disk lba"
  by (simp add: sectors_def SECTOR_SIZE_def)

lemma sectors_Suc: "sectors disk lba (Suc n) = disk lba @ sectors disk (lba + 1) n"
  by (simp only: sectors_def upt_first list.map concat.simps)

lemma read_fat_sectors_content:
  assumes "serves rd disk" "lba + n \<le> 2 ^ 64"
  shows "read_fat_sectors rd lba n d = Some (Inr data, d') \<Longrightarrow> data = sectors disk lba n"
  using assms(2)
proof (induction n arbitrary: lba d data)
  case (Suc n)
  then obtain x d1 rest where x: "io_map_err Io (rd (of_nat lba) SECTOR_SIZE) d = Some (Inr x, d1)"
    and r: "read_fat_sectors rd (lba + 1) n d1 = Some (Inr rest, d')" "data = x @ rest"
    by (auto simp: io_bind_Inr_iff)
  have "x = disk lba" using serves_at [OF assms(1) x] Suc.prems(2) sectors_one by auto
  moreover have "rest = sectors disk (lba + 1) n" using Suc.IH [OF r(1)] Suc.prems(2) by simp
  ultimately show ?case using r(2) by (simp add: sectors_Suc)
qed (auto simp: sectors_def)

lemma scan_entries_append:
  "scan_entries name83 (xs @ ys) = (case scan_entries name83 xs of None \<Rightarrow> scan_entries name83 ys | Some r \<Rightarrow> Some r)"
  by (induction xs) auto

definition directory :: "(nat \<Rightarrow> bytes) \<Rightarrow> nat \<Rightarrow> nat \<Rightarrow> bytes list" where
  "directory disk lba n = concat (map (dir_entries \<circ> disk) [lba..<lba + n])"

lemma scan_dir_content:
  assumes "serves rd disk" "lba + n \<le> 2 ^ 64"
  shows "scan_dir rd name83 lba n d = Some (Inr found, d') \<Longrightarrow>
    scan_entries name83 (directory disk lba n) = Some (Inr found)"
  using assms(2)
proof (induction n arbitrary: lba d)
  case (Suc n)
  then obtain x d1 where x: "io_map_err Io (rd (of_nat lba) SECTOR_SIZE) d = Some (Inr x, d1)"
    and r: "(case scan_entries name83 (dir_entries x) of
        Some (Inl e) \<Rightarrow> io_fail e | Some (Inr found) \<Rightarrow> io_return found
      | None \<Rightarrow> scan_dir rd name83 (lba + 1) n) d1 = Some (Inr found, d')"
    by (auto simp: io_bind_Inr_iff)
  have "x = disk lba" using serves_at [OF assms(1) x] Suc.prems(2) sectors_one by auto
  moreover have "directory disk lba (Suc n) = dir_entries (disk lba) @ directory disk (lba + 1) n"
    by (simp only: directory_def upt_first list.map concat.simps o_apply)
  ultimately show ?case
    using r Suc.IH [of "lba + 1" d1] Suc.prems(2)
    by (auto simp: scan_entries_append split: option.splits sum.splits)
qed simp

definition file_clusters :: "(nat \<Rightarrow> bytes) \<Rightarrow> fat12_volume \<Rightarrow> nat list \<Rightarrow> bytes" where
  "file_clusters disk v chain = concat (map (\<lambda>c. sectors disk (cluster_lba v c) (sectors_per_cluster v)) chain)"

lemma cluster_lba_small: "volume_wf v \<Longrightarrow> c < 2 ^ 16 \<Longrightarrow> cluster_lba v c < 2 ^ 64"
proof -
  assume v: "volume_wf v" and c: "c < 2 ^ 16"
  have "(c - FIRST_DATA_CLUSTER) * sectors_per_cluster v \<le> 2 ^ 16 * 2 ^ 8"
    using v c by (intro mult_le_mono) (auto simp: volume_wf_def)
  then show ?thesis using v by (simp add: cluster_lba_def volume_wf_def)
qed

lemma read_clusters_content:
  assumes "serves rd disk" "volume_wf v"
  shows "\<forall>c\<in>set chain. c < 2 ^ 16 \<Longrightarrow> read_clusters rd v chain d = Some (Inr data, d') \<Longrightarrow>
    data = file_clusters disk v chain"
proof (induction chain arbitrary: d data)
  case (Cons c chain)
  then obtain x d1 rest where x: "io_map_err Io (rd (of_nat (cluster_lba v c)) (cluster_bytes v)) d = Some (Inr x, d1)"
    and r: "read_clusters rd v chain d1 = Some (Inr rest, d')" "data = x @ rest"
    by (auto simp: io_bind_Inr_iff)
  have "x = sectors disk (cluster_lba v c) (sectors_per_cluster v)"
    using serves_at [OF assms(1) x] cluster_lba_small [OF assms(2), of c] Cons.prems(1)
    by (simp add: cluster_bytes_def SECTOR_SIZE_def)
  then show ?case using Cons.IH [OF _ r(1)] Cons.prems(1) r(2) by (simp add: file_clusters_def)
qed (simp add: file_clusters_def)

lemma is_chain_small: "is_chain fat (c # cs) \<Longrightarrow> \<forall>x\<in>set cs. x < 2 ^ 16"
proof (induction cs arbitrary: c)
  case (Cons d cs)
  then obtain e :: u16 where "unat e = d" "is_chain fat (d # cs)" by auto
  then show ?case using Cons.IH [of d] unsigned_less [of e] by auto
qed simp

context block_device
begin

lemma read_clusters_length:
  "read_clusters read_sectors v chain d = Some (Inr data, d') \<Longrightarrow> length data = length chain * cluster_bytes v"
  by (induction chain arbitrary: d data)
     (auto simp: io_bind_Inr_iff io_map_err_Inr_iff dest: read_fills)

lemma read_clusters_in_range:
  "read_clusters read_sectors v chain d = Some (Inr data, d') \<Longrightarrow> c \<in> set chain \<Longrightarrow>
   unat (of_nat (cluster_lba v c) :: u64) + sectors_per_cluster v \<le> unat (capacity_of d)"
proof (induction chain arbitrary: d data)
  case (Cons a chain)
  then obtain x d1 rest where x: "read_sectors (of_nat (cluster_lba v a)) (cluster_bytes v) d = Some (Inr x, d1)"
    and r: "read_clusters read_sectors v chain d1 = Some (Inr rest, d')"
    by (auto simp: io_bind_Inr_iff io_map_err_Inr_iff)
  have "capacity_of d1 = capacity_of d" using read_keeps_capacity [OF x] .
  moreover have "unat (of_nat (cluster_lba v a) :: u64) + sectors_per_cluster v \<le> unat (capacity_of d)"
    using read_in_range [OF x] by (simp add: cluster_bytes_def SECTOR_SIZE_def)
  ultimately show ?case using Cons.IH [OF r] Cons.prems(2) by auto
qed simp

end

lemma read_file_content_aux:
  assumes sv: "serves rd disk" and v: "volume_wf v" and name: "to_83_name name = Some name83"
    and r: "read_file rd v name d = Some (Inr data, d')"
  obtains first size where
    "scan_entries name83 (directory disk (root_dir_start_lba v) (root_dir_sectors v)) = Some (Inr (first, size))"
    "size = 0 \<Longrightarrow> data = []"
    "size \<noteq> 0 \<Longrightarrow> \<exists>chain d2 all. cluster_chain v (sectors disk (fat_start_lba v) (fat_size_sectors v)) (unat first) = Inr chain
      \<and> read_clusters rd v chain d2 = Some (Inr all, d') \<and> all = file_clusters disk v chain \<and> data = take (unat size) all"
proof -
  obtain first size d1 where e: "find_dir_entry rd v name83 d = Some (Inr (first, size), d1)"
    and k: "(if size = 0 then io_return []
           else io_bind (read_fat_table rd v) (\<lambda>fat.
             case cluster_chain v fat (unat first) of
               Inl e \<Rightarrow> io_fail e
             | Inr chain \<Rightarrow> io_bind (read_clusters rd v chain) (\<lambda>data. io_return (take (unat size) data)))) d1
        = Some (Inr data, d')"
    using r name by (auto simp: read_file_def io_bind_Inr_iff)
  have b: "root_dir_start_lba v + root_dir_sectors v \<le> 2 ^ 64" "fat_start_lba v + fat_size_sectors v \<le> 2 ^ 64"
    using v by (auto simp: volume_wf_def)
  show thesis
  proof (rule that)
    show "scan_entries name83 (directory disk (root_dir_start_lba v) (root_dir_sectors v)) = Some (Inr (first, size))"
      using scan_dir_content [OF sv b(1)] e by (simp add: find_dir_entry_def)
    show "size = 0 \<Longrightarrow> data = []" using k by simp
    assume "size \<noteq> 0"
    then obtain fat d2 where f: "read_fat_table rd v d1 = Some (Inr fat, d2)"
      and k2: "(case cluster_chain v fat (unat first) of
               Inl e \<Rightarrow> io_fail e
             | Inr chain \<Rightarrow> io_bind (read_clusters rd v chain) (\<lambda>data. io_return (take (unat size) data))) d2
        = Some (Inr data, d')"
      using k by (auto simp: io_bind_Inr_iff)
    have fat: "fat = sectors disk (fat_start_lba v) (fat_size_sectors v)"
      using read_fat_sectors_content [OF sv b(2)] f by (simp add: read_fat_table_def)
    obtain chain all where c: "cluster_chain v fat (unat first) = Inr chain"
      and a: "read_clusters rd v chain d2 = Some (Inr all, d')" "data = take (unat size) all"
      using k2 by (auto simp: io_bind_Inr_iff split: sum.splits)
    obtain cs where cs: "chain = unat first # cs" "is_chain fat (unat first # cs)"
      using chain_from_sound c unfolding cluster_chain_def by fastforce
    have "\<forall>c\<in>set chain. c < 2 ^ 16" using is_chain_small [OF cs(2)] cs(1) unsigned_less [of first] by simp
    then have "all = file_clusters disk v chain" using read_clusters_content [OF sv v _ a(1)] by blast
    then show "\<exists>chain d2 all. cluster_chain v (sectors disk (fat_start_lba v) (fat_size_sectors v)) (unat first) = Inr chain
      \<and> read_clusters rd v chain d2 = Some (Inr all, d') \<and> all = file_clusters disk v chain \<and> data = take (unat size) all"
      using c a fat by blast
  qed
qed

text \<open>
  C24. What reading a file by name returns, over any block device that keeps its contract and holds the
  sectors \<^term>\<open>disk\<close>: the root directory has an entry for the name, the table links a chain from
  the entry's first cluster, and the data is the contents of those clusters cut to the recorded
  size.  Its length is the recorded size or the length of the chain, whichever is less.
\<close>

theorem read_file_returns:
  assumes "block_device rd cap" and "serves rd disk" and "volume_wf v" and "to_83_name name = Some name83"
    and "read_file rd v name d = Some (Inr data, d')"
  shows "\<exists>first size.
    scan_entries name83 (directory disk (root_dir_start_lba v) (root_dir_sectors v)) = Some (Inr (first, size))
    \<and> (if size = 0 then data = []
       else \<exists>chain. cluster_chain v (sectors disk (fat_start_lba v) (fat_size_sectors v)) (unat first) = Inr chain
              \<and> data = take (unat size) (file_clusters disk v chain)
              \<and> length data = min (unat size) (length chain * cluster_bytes v))"
proof -
  obtain first size where
    "scan_entries name83 (directory disk (root_dir_start_lba v) (root_dir_sectors v)) = Some (Inr (first, size))"
    "size = 0 \<Longrightarrow> data = []"
    "size \<noteq> 0 \<Longrightarrow> \<exists>chain d2 all. cluster_chain v (sectors disk (fat_start_lba v) (fat_size_sectors v)) (unat first) = Inr chain
      \<and> read_clusters rd v chain d2 = Some (Inr all, d') \<and> all = file_clusters disk v chain \<and> data = take (unat size) all"
    using read_file_content_aux [OF assms(2-5)] by blast
  then show ?thesis
    using block_device.read_clusters_length [OF assms(1), of v]
    by (intro exI [of _ first] exI [of _ size]) (auto simp: min.commute)
qed

text \<open>A disk in memory, and one whose directory claims more bytes than the chain has.\<close>

definition ram_read :: "(nat \<Rightarrow> bytes) \<Rightarrow> u64 reader" where
  "ram_read disk lba n cap =
    (if n = 0 \<or> n mod SECTOR_SIZE \<noteq> 0 then Some (Inl BufferNotSectorAligned, cap)
     else if unat lba + n div SECTOR_SIZE > unat cap then Some (Inl OutOfRange, cap)
     else Some (Inr (sectors disk (unat lba) (n div SECTOR_SIZE)), cap))"

lemma sectors_length: "(\<And>i. length (disk i) = SECTOR_SIZE) \<Longrightarrow> length (sectors disk lba n) = n * SECTOR_SIZE"
  by (induction n arbitrary: lba) (simp_all add: sectors_Suc, simp add: sectors_def)

lemma ram_block_device: "(\<And>i. length (disk i) = SECTOR_SIZE) \<Longrightarrow> block_device (ram_read disk) id"
  by unfold_locales (auto simp: ram_read_def sectors_length split: if_splits)

lemma ram_serves: "serves (ram_read disk) disk"
  by (auto simp: serves_def ram_read_def split: if_splits)

definition short_disk :: "nat \<Rightarrow> bytes" where
  "short_disk i =
    (if i = 1 then [0xF0, 0xFF, 0xFF, 0xFF, 0x0F] @ replicate 507 0
     else if i = 2 then [0x41] @ replicate 11 0x20 @ replicate 14 0 @ [2, 0, 0xE8, 3, 0, 0] @ replicate 480 0
     else replicate 512 7)"

definition short_volume :: fat12_volume where
  "short_volume = \<lparr>sectors_per_cluster = 1, fat_size_sectors = 1, fat_start_lba = 1, root_dir_start_lba = 2,
    root_dir_sectors = 1, data_start_lba = 3, total_clusters = 10\<rparr>"

lemma short_file: "read_file (ram_read short_disk) short_volume [0x61] 20 = Some (Inr (replicate 512 7), 20)"
  by code_simp

theorem read_file_returns_witness:
  "read_file (ram_read short_disk) short_volume [0x61] 20 = Some (Inr (replicate 512 7), 20)
   \<and> (\<exists>first size. scan_entries ([0x41] @ replicate 10 0x20) (directory short_disk 2 1) = Some (Inr (first, size))
        \<and> size = 1000 \<and> length (replicate 512 (7 :: u8)) < unat size
        \<and> (\<exists>chain. cluster_chain short_volume (sectors short_disk 1 1) (unat first) = Inr chain
             \<and> 512 = min (unat size) (length chain * cluster_bytes short_volume)))"
proof -
  have l: "length (short_disk i) = SECTOR_SIZE" for i by (simp add: short_disk_def SECTOR_SIZE_def)
  have v: "volume_wf short_volume" by (simp add: volume_wf_def short_volume_def)
  have n: "to_83_name [0x61] = Some ([0x41] @ replicate 10 0x20)" by code_simp
  have e: "scan_entries ([0x41] @ replicate 10 0x20) (directory short_disk 2 1) = Some (Inr (2, 1000))" by code_simp
  note r = read_file_returns [OF ram_block_device [of short_disk, OF l] ram_serves v n short_file]
  have f: "root_dir_start_lba short_volume = 2" "root_dir_sectors short_volume = 1" "fat_start_lba short_volume = 1"
    "fat_size_sectors short_volume = 1" by (simp_all add: short_volume_def)
  obtain first size where s: "scan_entries ([0x41] @ replicate 10 0x20) (directory short_disk 2 1) = Some (Inr (first, size))"
    and c: "if size = 0 then replicate 512 (7 :: u8) = [] else \<exists>chain. cluster_chain short_volume (sectors short_disk 1 1) (unat first) = Inr chain
              \<and> replicate 512 7 = take (unat size) (file_clusters short_disk short_volume chain)
              \<and> length (replicate 512 (7 :: u8)) = min (unat size) (length chain * cluster_bytes short_volume)"
    using r unfolding f by blast
  have z: "first = 2" "size = 1000" using s e by auto
  show ?thesis using short_file s c z by auto
qed

end
