(* ===== verification/Kstate.thy ===== *)
theory Kstate
  imports Proc Rendezvous Virt Fat
begin

text \<open>
  The kernel state.  One record holds what the kernel keeps in statics: the scheduler's
  \<^verbatim>\<open>Inner\<close> (\<^verbatim>\<open>processes\<close>, \<^verbatim>\<open>generations\<close>, \<^verbatim>\<open>ready\<close>, \<^verbatim>\<open>current\<close>), the per-core slots of
  \<^verbatim>\<open>arch/x86_64/percpu.rs\<close>, \<^verbatim>\<open>STACK_BUSY\<close>, \<^verbatim>\<open>PROCESS_SLOT_FREE\<close>, the dispatch traces, the trap-frame
  slots, the executor's ready queue, every endpoint, the registry of spawnable programs, the block
  device and the mounted volume, and memory; and what it keeps in each core's
  registers (CR3, TSS.RSP0 and the SYSCALL stack cell).  \<^term>\<open>tsc\<close> is the value the time-stamp
  counter shows, \<^term>\<open>ipis\<close> the inter-processor interrupts sent so far, newest first.

  A kernel panic is a value of \<^verbatim>\<open>kpanic\<close>; an operation that can panic returns
  a sum with the panic on the left.
\<close>

subsection \<open>Panics\<close>

datatype kpanic =
    DoubleDispatch | CurrentReadback | IndexOutOfBounds | GenerationMismatch | NoSuchProcess
  | PidMismatch | Cr3Readback | Rsp0Readback | SyscallStackReadback | BadCs | BadRip | BadSs | BadRsp
  | OutOfProcessSlots | FrameAssertion | EmptySenderQueue | OutOfLineMessage | UnmappedTrapFrame
  | NonCanonicalAddress | RangeNotMapped | ArithmeticOverflow | RecursionBound | ExpectFailed
  | RingZeroFault u8 | DoubleFault

definition sbind :: "'e + 'a \<Rightarrow> ('a \<Rightarrow> 'e + 'b) \<Rightarrow> 'e + 'b" where
  "sbind r f = (case r of Inl e \<Rightarrow> Inl e | Inr x \<Rightarrow> f x)"

lemma sbind_simps [simp]: "sbind (Inl e) f = Inl e" "sbind (Inr x) f = f x"
  by (simp_all add: sbind_def)

lemma sbind_Inr_iff: "sbind r f = Inr y \<longleftrightarrow> (\<exists>x. r = Inr x \<and> f x = Inr y)"
  by (cases r) auto

lemma sbind_Inl_iff: "sbind r f = Inl e \<longleftrightarrow> r = Inl e \<or> (\<exists>x. r = Inr x \<and> f x = Inl e)"
  by (cases r) auto

text \<open>Code that may also not return, as far as its fuel tells: \<^term>\<open>None\<close>.\<close>

type_synonym 'a run = "(kpanic + 'a) option"

definition run_bind :: "'a run \<Rightarrow> ('a \<Rightarrow> 'b run) \<Rightarrow> 'b run" where
  "run_bind r f = (case r of None \<Rightarrow> None | Some (Inl e) \<Rightarrow> Some (Inl e) | Some (Inr x) \<Rightarrow> f x)"

lemma run_bind_simps [simp]:
  "run_bind None f = None" "run_bind (Some (Inl e)) f = Some (Inl e)" "run_bind (Some (Inr x)) f = f x"
  by (simp_all add: run_bind_def)

lemma run_bind_Inr_iff: "run_bind r f = Some (Inr y) \<longleftrightarrow> (\<exists>x. r = Some (Inr x) \<and> f x = Some (Inr y))"
  by (auto simp: run_bind_def split: option.splits sum.splits)

subsection \<open>The state\<close>

text \<open>\<^verbatim>\<open>Slot\<close> of the process table; \<^verbatim>\<open>Occupied\<close> carries the \<^verbatim>\<open>ProcessBox\<close>, its pool slot and the process.\<close>

datatype table_slot =
    Empty
  | Reserved
  | Occupied nat process
  | Zombie pid exit_status

type_synonym process_box = "nat \<times> process"

datatype message_payload = Inline message | OutOfLine u64 nat

type_synonym endpoint_slot = "(message_payload, pid) rslot"

record percpu_slot =
  lapic_id :: u32
  core_ready :: bool
  ipi_count :: u64
  spin_count :: u64
  pc_current :: u64
  evict_request :: u64
  idle :: bool
  preempt_count :: u64

record core_regs =
  cr3 :: u64
  rsp0 :: u64
  syscall_stack :: u64

record dispatch_trace =
  tr_seq :: "u64 list"
  tr_pid :: "u64 list"
  cursor :: u64

text \<open>The functions registered in the interrupt table of \<^verbatim>\<open>driver/mod.rs\<close>: only the UART registers one.\<close>

datatype irq_handler = UartHandleIrq

record 'pt kernel =
  processes :: "table_slot list"
  generations :: "u32 list"
  ready :: "pid ring"
  current :: "pid option list"
  percpu :: "percpu_slot list"
  stack_busy :: "bool list"
  process_slot_used :: "bool list"
  traces :: "dispatch_trace list"
  trap_frames :: "trap_frame list"
  regs :: "core_regs list"
  task_ready :: "nat ring"
  overflowed :: bool
  endpoints :: "nat \<Rightarrow> endpoint_slot"
  user_cs :: u64
  user_ss :: u64
  idle_pml4 :: u64
  tsc :: u64
  ticks :: u64
  ipis :: "(u32 \<times> u8) list"
  rx_waker :: "nat option"
  irq_table :: "irq_handler option list"
  spawnable :: "(bytes \<times> bytes) list"
  blk_device :: "blk_state option"
  root_volume :: "fat12_volume option"
  mem :: "'pt mem"

definition TRACE_LEN :: nat where "TRACE_LEN = 24"
definition PROCESS_SLOT_COUNT :: nat where "PROCESS_SLOT_COUNT = MAX_PROCESSES * 2"
definition RESCHEDULE_VECTOR :: u8 where "RESCHEDULE_VECTOR = 0x42"
definition MAX_IRQ :: nat where "MAX_IRQ = 16"
definition READY_QUEUE_CAPACITY :: nat where "READY_QUEUE_CAPACITY = 64"

subsection \<open>Reading the process table\<close>

text \<open>\<^verbatim>\<open>occupied_mut\<close>: the live process a pid names, if its generation is current.\<close>

definition occupied :: "'pt kernel \<Rightarrow> pid \<Rightarrow> process option" where
  "occupied s p =
    (let index = pid_index p in
     if index \<ge> MAX_PROCESSES \<or> generations s ! index \<noteq> pid_generation p then None
     else case processes s ! index of Occupied _ proc \<Rightarrow> Some proc | _ \<Rightarrow> None)"

text \<open>Writing through the \<^verbatim>\<open>&mut Process\<close> of an occupied slot.\<close>

definition put_process :: "nat \<Rightarrow> process \<Rightarrow> 'pt kernel \<Rightarrow> 'pt kernel" where
  "put_process index proc s =
    (case processes s ! index of
       Occupied b _ \<Rightarrow> s\<lparr>processes := (processes s)[index := Occupied b proc]\<rparr>
     | _ \<Rightarrow> s)"

definition put_slot :: "nat \<Rightarrow> table_slot \<Rightarrow> 'pt kernel \<Rightarrow> 'pt kernel" where
  "put_slot index sl s = s\<lparr>processes := (processes s)[index := sl]\<rparr>"

definition set_frame :: "nat \<Rightarrow> trap_frame \<Rightarrow> 'pt kernel \<Rightarrow> 'pt kernel" where
  "set_frame index f s = s\<lparr>trap_frames := (trap_frames s)[index := f]\<rparr>"

definition push_ready :: "pid \<Rightarrow> 'pt kernel \<Rightarrow> 'pt kernel" where
  "push_ready p s = s\<lparr>ready := snd (ring_push p (ready s))\<rparr>"

subsection \<open>Booted state\<close>

text \<open>
  \<^verbatim>\<open>map_guarded_scheduler_state\<close> and the other statics' initial values, with \<^term>\<open>n\<close> cores booted
  (their local APIC identifiers are 0, 1, ...).
\<close>

definition percpu_new :: percpu_slot where
  "percpu_new = \<lparr>lapic_id = 0xFFFFFFFF, core_ready = False, ipi_count = 0, spin_count = 0,
    pc_current = 0, evict_request = 0, idle = False, preempt_count = 0\<rparr>"

definition trace_new :: dispatch_trace where
  "trace_new = \<lparr>tr_seq = replicate TRACE_LEN 0, tr_pid = replicate TRACE_LEN 0, cursor = 0\<rparr>"

definition kernel_init :: "nat \<Rightarrow> u64 \<Rightarrow> u64 \<Rightarrow> u64 \<Rightarrow> 'pt mem \<Rightarrow> 'pt kernel" where
  "kernel_init n ucs uss idle_space m =
    \<lparr>processes = replicate MAX_PROCESSES Empty,
     generations = replicate MAX_PROCESSES 0,
     ready = ring_new MAX_PROCESSES,
     current = replicate MAX_CORES None,
     percpu = map (\<lambda>i. if i < n then percpu_new\<lparr>lapic_id := of_nat i, core_ready := True\<rparr> else percpu_new) [0..<MAX_CORES],
     stack_busy = replicate MAX_PROCESSES False,
     process_slot_used = replicate PROCESS_SLOT_COUNT False,
     traces = replicate MAX_CORES trace_new,
     trap_frames = replicate MAX_PROCESSES zero_frame,
     regs = replicate MAX_CORES \<lparr>cr3 = idle_space, rsp0 = 0, syscall_stack = 0\<rparr>,
     task_ready = ring_new READY_QUEUE_CAPACITY,
     overflowed = False,
     endpoints = (\<lambda>_. SlotEmpty),
     user_cs = ucs, user_ss = uss, idle_pml4 = idle_space, tsc = 0, ticks = 0, ipis = [],
     rx_waker = None, irq_table = replicate MAX_IRQ None, spawnable = [], blk_device = None, root_volume = None, mem = m\<rparr>"

subsection \<open>Lemmas on the table\<close>

lemma list_update_same_iff: "i < length xs \<Longrightarrow> xs[i := x] ! j = (if j = i then x else xs ! j)"
  by (cases "j < length xs") (auto simp: nth_list_update)

definition table_ok :: "'pt kernel \<Rightarrow> bool" where
  "table_ok s \<longleftrightarrow> length (processes s) = MAX_PROCESSES \<and> length (generations s) = MAX_PROCESSES"

lemma occupied_put_slot:
  assumes "table_ok s" "i < MAX_PROCESSES"
  shows "occupied (put_slot i sl s) =
    (occupied s)(pid_new i (generations s ! i) := (case sl of Occupied _ proc \<Rightarrow> Some proc | _ \<Rightarrow> None))"
proof
  fix q
  have "i < 2 ^ 32" using assms(2) by (simp add: MAX_PROCESSES_def)
  then have "q = pid_new i (generations s ! i) \<longleftrightarrow> pid_index q = i \<and> pid_generation q = generations s ! i"
    by (auto simp: pid_eq_iff)
  then show "occupied (put_slot i sl s) q =
      ((occupied s)(pid_new i (generations s ! i) := (case sl of Occupied _ proc \<Rightarrow> Some proc | _ \<Rightarrow> None))) q"
    using assms by (auto simp: occupied_def put_slot_def Let_def table_ok_def list_update_same_iff)
qed

lemma occupied_SomeD:
  assumes "occupied s p = Some proc"
  shows "pid_index p < MAX_PROCESSES" "generations s ! pid_index p = pid_generation p"
    "\<exists>b. processes s ! pid_index p = Occupied b proc"
  using assms by (auto simp: occupied_def Let_def not_le split: if_splits table_slot.splits)

lemma occupiedI:
  "pid_index p < MAX_PROCESSES \<Longrightarrow> generations s ! pid_index p = pid_generation p
   \<Longrightarrow> processes s ! pid_index p = Occupied b proc \<Longrightarrow> occupied s p = Some proc"
  by (simp add: occupied_def Let_def)

lemma put_process_put_slot:
  "processes s ! i = Occupied b old \<Longrightarrow> put_process i proc s = put_slot i (Occupied b proc) s"
  by (simp add: put_process_def put_slot_def)

lemma occupied_put_process:
  assumes "table_ok s" "occupied s p = Some old"
  shows "occupied (put_process (pid_index p) proc s) = (occupied s)(p \<mapsto> proc)"
proof -
  obtain b where b: "processes s ! pid_index p = Occupied b old" using occupied_SomeD [OF assms(2)] by blast
  show ?thesis
    using occupied_put_slot [OF assms(1), of "pid_index p" "Occupied b proc"] occupied_SomeD [OF assms(2)]
    by (simp add: put_process_put_slot [OF b] pid_new_parts)
qed

lemma occupied_cong:
  "processes s = processes t \<Longrightarrow> generations s = generations t \<Longrightarrow> occupied s = occupied t"
  by (intro ext) (simp add: occupied_def Let_def)

lemma table_ok_put [simp]:
  "table_ok (put_slot i sl s) = table_ok s" "table_ok (put_process i proc s) = table_ok s"
  by (auto simp: table_ok_def put_slot_def put_process_def split: table_slot.splits)

lemma table_ok_cong:
  "processes s = processes t \<Longrightarrow> generations s = generations t \<Longrightarrow> table_ok s = table_ok t"
  by (simp add: table_ok_def)

end
