(* ===== verification/Elf.thy ===== *)
theory Elf
  imports Kstate
begin

text \<open>
  \<^verbatim>\<open>kernel/src/elf.rs\<close>: the ELF64 loader.  A segment is mapped page by page into the address
  space rooted at a level 4 frame, through the paging interface of theory \<^verbatim>\<open>Virt\<close>; memory
  changes are returned also when loading fails.  A panic (\<^verbatim>\<open>VirtAddr::new\<close> on a non-canonical
  entry point, or the \<^verbatim>\<open>expect\<close> of the copy loop) is a value of \<^verbatim>\<open>kpanic\<close>.
\<close>

subsection \<open>Headers\<close>

definition EI_MAG :: bytes where "EI_MAG = [0x7f, 0x45, 0x4c, 0x46]"
definition ELFCLASS64 :: u8 where "ELFCLASS64 = 2"
definition ELFDATA2LSB :: u8 where "ELFDATA2LSB = 1"
definition ET_EXEC :: u16 where "ET_EXEC = 2"
definition EM_X86_64 :: u16 where "EM_X86_64 = 62"
definition PT_LOAD :: u32 where "PT_LOAD = 1"
definition PF_X :: u32 where "PF_X = 1"
definition PF_W :: u32 where "PF_W = 2"
definition EHDR_SIZE :: nat where "EHDR_SIZE = 64"
definition PHDR_SIZE :: nat where "PHDR_SIZE = 56"
definition USER_SPACE_MIN :: u64 where "USER_SPACE_MIN = 0x1000"

lemmas elf_consts = EI_MAG_def ELFCLASS64_def ELFDATA2LSB_def ET_EXEC_def EM_X86_64_def PT_LOAD_def
  PF_X_def PF_W_def EHDR_SIZE_def PHDR_SIZE_def USER_SPACE_MIN_def

datatype elf_error =
    ElfTooShort | BadMagic | NotElf64 | NotLittleEndian | NotExecutable | WrongMachine
  | SegmentOutOfRange | SegmentExceedsFile | ElfOutOfMemory | MapFailed

record program_header =
  p_type :: u32
  p_flags :: u32
  p_offset :: u64
  p_vaddr :: u64
  p_filesz :: u64
  p_memsz :: u64

definition elf_read_u16 :: "bytes \<Rightarrow> nat \<Rightarrow> u16" where
  "elf_read_u16 data off = from_le_bytes (slice data off 2)"

definition elf_read_u32 :: "bytes \<Rightarrow> nat \<Rightarrow> u32" where
  "elf_read_u32 data off = from_le_bytes (slice data off 4)"

definition elf_read_u64 :: "bytes \<Rightarrow> nat \<Rightarrow> u64" where
  "elf_read_u64 data off = from_le_bytes (slice data off 8)"

definition read_phdr :: "bytes \<Rightarrow> nat \<Rightarrow> program_header" where
  "read_phdr data base =
    \<lparr>p_type = elf_read_u32 data base, p_flags = elf_read_u32 data (base + 4),
     p_offset = elf_read_u64 data (base + 8), p_vaddr = elf_read_u64 data (base + 16),
     p_filesz = elf_read_u64 data (base + 32), p_memsz = elf_read_u64 data (base + 40)\<rparr>"

text \<open>
  The checks of \<^verbatim>\<open>load\<close> before its loop: the entry point, the program header table's offset,
  entry size and count.
\<close>

definition elf_header :: "bytes \<Rightarrow> elf_error + (u64 \<times> nat \<times> nat \<times> nat)" where
  "elf_header data =
    (if length data < EHDR_SIZE then Inl ElfTooShort
     else if slice data 0 4 \<noteq> EI_MAG then Inl BadMagic
     else if data ! 4 \<noteq> ELFCLASS64 then Inl NotElf64
     else if data ! 5 \<noteq> ELFDATA2LSB then Inl NotLittleEndian
     else
       let e_type = elf_read_u16 data 16; e_machine = elf_read_u16 data 18;
           e_entry = elf_read_u64 data 24; e_phoff = unat (elf_read_u64 data 32);
           e_phentsize = unat (elf_read_u16 data 54); e_phnum = unat (elf_read_u16 data 56)
       in if e_type \<noteq> ET_EXEC then Inl NotExecutable
          else if e_machine \<noteq> EM_X86_64 then Inl WrongMachine
          else if e_phentsize < PHDR_SIZE then Inl ElfTooShort
          else if e_phnum * e_phentsize \<ge> 2 ^ 64 then Inl ElfTooShort
          else if e_phoff + e_phnum * e_phentsize \<ge> 2 ^ 64 then Inl ElfTooShort
          else if e_phoff + e_phnum * e_phentsize > length data then Inl ElfTooShort
          else Inr (e_entry, e_phoff, e_phentsize, e_phnum))"

text \<open>The program headers the loop visits and does not skip.\<close>

definition loadable_headers :: "bytes \<Rightarrow> nat \<Rightarrow> nat \<Rightarrow> nat \<Rightarrow> program_header list" where
  "loadable_headers data phoff phentsize phnum =
    filter (\<lambda>ph. p_type ph = PT_LOAD \<and> p_memsz ph \<noteq> 0)
      (map (\<lambda>i. read_phdr data (phoff + i * phentsize)) [0..<phnum])"

subsection \<open>Segments\<close>

text \<open>The checks of \<^verbatim>\<open>load_segment\<close>: the end of the segment and of its file image.\<close>

definition segment_check :: "program_header \<Rightarrow> bytes \<Rightarrow> elf_error + (u64 \<times> u64)" where
  "segment_check ph data =
    (case checked_add (p_vaddr ph) (p_memsz ph) of
       None \<Rightarrow> Inl SegmentOutOfRange
     | Some seg_end \<Rightarrow>
         if p_vaddr ph < USER_SPACE_MIN \<or> seg_end > USER_HEAP_START then Inl SegmentOutOfRange
         else if p_filesz ph > p_memsz ph then Inl SegmentOutOfRange
         else case checked_add (p_offset ph) (p_filesz ph) of
                None \<Rightarrow> Inl SegmentExceedsFile
              | Some file_end \<Rightarrow>
                  if unat file_end > length data then Inl SegmentExceedsFile else Inr (seg_end, file_end))"

definition segment_flags :: "program_header \<Rightarrow> u64" where
  "segment_flags ph =
    (let f = PF_PRESENT OR PF_USER;
         f = (if p_flags ph AND PF_W \<noteq> 0 then f OR PF_WRITABLE else f)
     in if p_flags ph AND PF_X = 0 then f OR PF_NO_EXECUTE else f)"

text \<open>\<^verbatim>\<open>Page::range_inclusive\<close> over 4 KiB pages, by start address.\<close>

definition page_range :: "u64 \<Rightarrow> u64 \<Rightarrow> u64 list" where
  "page_range lo hi = map (\<lambda>i. lo + of_nat i * 4096) [0..<(unat (hi - lo) div 4096 + 1)]"

definition segment_pages :: "program_header \<Rightarrow> u64 \<Rightarrow> u64 list" where
  "segment_pages ph seg_end = page_range (page_of (p_vaddr ph)) (page_of (seg_end - 1))"

definition zero_frame_mem :: "u64 \<Rightarrow> 'pt mem \<Rightarrow> 'pt mem" where
  "zero_frame_mem frame m = m\<lparr>pmem := mem_write frame (replicate 4096 0) (pmem m)\<rparr>"

fun map_segment_pages ::
  "'pt paging \<Rightarrow> u64 \<Rightarrow> u64 \<Rightarrow> u64 list \<Rightarrow> 'pt mem \<Rightarrow> (elf_error + unit) \<times> 'pt mem" where
  "map_segment_pages pg root flags [] m = (Inr (), m)"
| "map_segment_pages pg root flags (page # pages) m =
    (case mem_allocate_frame m of
       (None, m) \<Rightarrow> (Inl ElfOutOfMemory, m)
     | (Some frame, m) \<Rightarrow>
         (case map_in pg root page frame flags (zero_frame_mem frame m) of
            (Inl _, m) \<Rightarrow> (Inl MapFailed, m)
          | (Inr _, m) \<Rightarrow> map_segment_pages pg root flags pages m))"

text \<open>The copy loop; every round copies at least one byte.\<close>

definition chunk_len :: "u64 \<Rightarrow> bytes \<Rightarrow> nat" where
  "chunk_len vaddr remaining = min (length remaining) (4096 - unat (vaddr AND 0xFFF))"

lemma chunk_len_pos: "remaining \<noteq> [] \<Longrightarrow> 0 < chunk_len vaddr remaining"
  using unat_page_offset [of vaddr] mod_less_divisor [of 4096 "unat vaddr"] by (simp add: chunk_len_def del: mod_less_divisor)

function copy_segment ::
  "'pt paging \<Rightarrow> u64 \<Rightarrow> u64 \<Rightarrow> bytes \<Rightarrow> 'pt mem \<Rightarrow> kpanic + 'pt mem" where
  "copy_segment pg root vaddr remaining m =
    (if remaining = [] then Inr m
     else case translate_in pg root (page_of vaddr) m of
            None \<Rightarrow> Inl RangeNotMapped
          | Some (phys, _) \<Rightarrow>
              let n = chunk_len vaddr remaining;
                  m1 = m\<lparr>pmem := mem_write (phys + (vaddr AND 0xFFF)) (take n remaining) (pmem m)\<rparr>
              in if va_ok pg (vaddr + of_nat n)
                 then copy_segment pg root (vaddr + of_nat n) (drop n remaining) m1
                 else Inl NonCanonicalAddress)"
  by pat_completeness auto
termination
  by (relation "measure (\<lambda>(_, _, _, remaining, _). length remaining)")
     (auto simp: chunk_len_pos)

declare copy_segment.simps [simp del]

definition load_segment ::
  "'pt paging \<Rightarrow> u64 \<Rightarrow> program_header \<Rightarrow> bytes \<Rightarrow> 'pt mem \<Rightarrow> kpanic + ((elf_error + unit) \<times> 'pt mem)" where
  "load_segment pg root ph data m =
    (case segment_check ph data of
       Inl e \<Rightarrow> Inr (Inl e, m)
     | Inr (seg_end, file_end) \<Rightarrow>
         if \<not> va_ok pg (p_vaddr ph) \<or> \<not> va_ok pg (seg_end - 1) then Inl NonCanonicalAddress
         else case map_segment_pages pg root (segment_flags ph) (segment_pages ph seg_end) m of
                (Inl e, m) \<Rightarrow> Inr (Inl e, m)
              | (Inr _, m) \<Rightarrow>
                  sbind (copy_segment pg root (p_vaddr ph)
                          (slice data (unat (p_offset ph)) (unat file_end - unat (p_offset ph))) m)
                    (\<lambda>m. Inr (Inr (), m)))"

fun load_segments ::
  "'pt paging \<Rightarrow> u64 \<Rightarrow> bytes \<Rightarrow> program_header list \<Rightarrow> 'pt mem \<Rightarrow> kpanic + ((elf_error + unit) \<times> 'pt mem)" where
  "load_segments pg root data [] m = Inr (Inr (), m)"
| "load_segments pg root data (ph # phs) m =
    sbind (load_segment pg root ph data m) (\<lambda>(r, m).
      case r of Inl e \<Rightarrow> Inr (Inl e, m) | Inr _ \<Rightarrow> load_segments pg root data phs m)"

definition elf_load ::
  "'pt paging \<Rightarrow> u64 \<Rightarrow> bytes \<Rightarrow> 'pt mem \<Rightarrow> kpanic + ((elf_error + u64) \<times> 'pt mem)" where
  "elf_load pg root data m =
    (case elf_header data of
       Inl e \<Rightarrow> Inr (Inl e, m)
     | Inr (entry, phoff, phentsize, phnum) \<Rightarrow>
         sbind (load_segments pg root data (loadable_headers data phoff phentsize phnum) m) (\<lambda>(r, m).
           case r of
             Inl e \<Rightarrow> Inr (Inl e, m)
           | Inr _ \<Rightarrow> if va_ok pg entry then Inr (Inr entry, m) else Inl NonCanonicalAddress))"

subsection \<open>Pages of a segment\<close>

lemma page_range_unat:
  assumes "unat lo mod 4096 = 0" "unat hi mod 4096 = 0" "lo \<le> hi" "page \<in> set (page_range lo hi)"
  shows "unat lo \<le> unat page" "unat page \<le> unat hi" "unat page mod 4096 = 0"
proof -
  obtain i where i: "i < unat (hi - lo) div 4096 + 1" "page = lo + of_nat i * 4096"
    using assms(4) by (auto simp: page_range_def simp del: upt_Suc)
  have d: "unat (hi - lo) = unat hi - unat lo" using assms(3) by (simp add: unat_sub)
  have lh: "unat lo \<le> unat hi" using assms(3) by (simp add: word_le_nat_alt)
  have "i * 4096 \<le> unat hi - unat lo" using i(1) d by (metis Suc_eq_plus1 le_div_geq less_Suc_eq_le less_eq_div_iff_mult_less_eq zero_less_numeral)
  then have le: "unat lo + i * 4096 \<le> unat hi" using lh by linarith
  have hb: "unat hi < 2 ^ 64" using unsigned_less [of hi] by simp
  have iu: "unat (of_nat i :: u64) = i" using le hb by (simp add: unat_of_nat take_bit_nat_eq_self_iff)
  have u: "unat page = unat lo + i * 4096"
    using le hb by (simp add: i(2) unat_word_ariths iu)
  show "unat lo \<le> unat page" "unat page \<le> unat hi" using u le by auto
  show "unat page mod 4096 = 0" using u assms(1) by (metis mod_mult_self3 mult.commute add.commute)
qed

lemma page_range_member:
  assumes "unat lo mod 4096 = 0" "unat hi mod 4096 = 0" "unat x mod 4096 = 0" "lo \<le> x" "x \<le> hi"
  shows "x \<in> set (page_range lo hi)"
proof -
  let ?i = "(unat x - unat lo) div 4096"
  have le: "unat lo \<le> unat x" "unat x \<le> unat hi" using assms by (auto simp: word_le_nat_alt)
  have d: "unat (hi - lo) = unat hi - unat lo" using assms(4,5) by (simp add: unat_sub order_trans [of lo x hi])
  have "(unat x - unat lo) mod 4096 = 0" using assms(1,3) by (simp add: mod_eq_0_iff_dvd dvd_diff_nat)
  then have ix: "unat lo + ?i * 4096 = unat x" using le by (simp add: mod_eq_0_iff_dvd)
  have "?i \<le> unat (hi - lo) div 4096" unfolding d using le by (intro div_le_mono) simp
  moreover have "x = lo + of_nat ?i * 4096"
  proof -
    have "of_nat (unat lo + ?i * 4096) = (of_nat (unat x) :: u64)" using ix by simp
    then show ?thesis by simp
  qed
  ultimately show ?thesis by (auto simp: page_range_def simp del: upt_Suc)
qed

lemma segment_check_InrD:
  assumes "segment_check ph data = Inr (seg_end, file_end)"
  shows "unat seg_end = unat (p_vaddr ph) + unat (p_memsz ph)" "0x1000 \<le> unat (p_vaddr ph)"
    "unat seg_end \<le> unat USER_HEAP_START" "p_filesz ph \<le> p_memsz ph"
    "unat file_end = unat (p_offset ph) + unat (p_filesz ph)" "unat file_end \<le> length data"
  using assms by (auto simp: segment_check_def checked_add_Some_iff USER_SPACE_MIN_def word_less_nat_alt
      word_le_nat_alt not_less split: option.splits if_splits)

text \<open>
  C10. A program header that passes the loader's checks can only ever touch user pages: every page it
  maps starts at or above the guard page at address zero and ends at or below the start of the user
  heap.  Every byte of the segment lies in one of those pages, and the bytes copied lie in the file.
\<close>

theorem segments_confined:
  assumes "segment_check ph data = Inr (seg_end, file_end)" and "p_memsz ph \<noteq> 0"
  shows "(\<forall>page\<in>set (segment_pages ph seg_end).
            unat page mod 4096 = 0 \<and> 0x1000 \<le> unat page \<and> unat page + 4096 \<le> unat USER_HEAP_START)
       \<and> (\<forall>a. p_vaddr ph \<le> a \<and> a < seg_end \<longrightarrow> page_of a \<in> set (segment_pages ph seg_end))
       \<and> unat (p_offset ph) + unat (p_filesz ph) \<le> length data"
proof (intro conjI ballI allI impI)
  note c = segment_check_InrD [OF assms(1)]
  have pos: "0 < unat (p_memsz ph)" using assms(2) by (simp add: unat_gt_0)
  then have last: "unat (seg_end - 1) = unat seg_end - 1" using c(1)
    by (simp add: unat_sub word_le_nat_alt)
  have ord: "p_vaddr ph \<le> seg_end - 1" unfolding word_le_nat_alt last using c(1) pos by linarith
  note al = page_of_aligned [of "p_vaddr ph"] page_of_aligned [of "seg_end - 1"]
  {
    fix page assume "page \<in> set (segment_pages ph seg_end)"
    then have r: "unat (page_of (p_vaddr ph)) \<le> unat page" "unat page \<le> unat (page_of (seg_end - 1))"
        "unat page mod 4096 = 0"
      unfolding segment_pages_def using page_range_unat [OF al page_of_mono [OF ord]] by auto
    show "unat page mod 4096 = 0" by (rule r(3))
    show "0x1000 \<le> unat page" 
      using r(1,3) c(2) less_page_end [of "p_vaddr ph"] multiple_step [of 0 4096 "unat page"] by linarith
    have "unat page \<le> unat seg_end - 1" using r(2) page_of_le [of "seg_end - 1"] last
      by (simp add: word_le_nat_alt)
    then have "unat page < unat USER_HEAP_START" using c(1,3) pos by linarith
    moreover have "unat USER_HEAP_START mod 4096 = 0" by (simp add: USER_HEAP_START_def)
    ultimately show "unat page + 4096 \<le> unat USER_HEAP_START"
      using multiple_step [OF r(3)] by simp
  }
  {
    fix a assume a: "p_vaddr ph \<le> a \<and> a < seg_end"
    then have "unat a < unat seg_end" by (simp add: word_less_nat_alt)
    then have "a \<le> seg_end - 1" unfolding word_le_nat_alt last by linarith
    then show "page_of a \<in> set (segment_pages ph seg_end)"
      unfolding segment_pages_def using a by (intro page_range_member al page_of_aligned page_of_mono) auto
  }
  show "unat (p_offset ph) + unat (p_filesz ph) \<le> length data" using c(5,6) by simp
qed

theorem segments_confined_witness:
  "segment_check \<lparr>p_type = 1, p_flags = 5, p_offset = 1, p_vaddr = 0x400FF0, p_filesz = 2, p_memsz = 0x20\<rparr> [1, 2, 3]
     = Inr (0x401010, 3)
   \<and> unat (page_of 0x401000) + 4096 \<le> unat USER_HEAP_START"
proof -
  let ?ph = "\<lparr>p_type = 1, p_flags = 5, p_offset = 1, p_vaddr = 0x400FF0, p_filesz = 2, p_memsz = 0x20\<rparr>"
  have c: "segment_check ?ph [1, 2, 3] = Inr (0x401010, 3)"
    by (simp add: segment_check_def checked_add_def USER_SPACE_MIN_def USER_HEAP_START_def)
  have "page_of 0x401000 \<in> set (segment_pages ?ph 0x401010)"
    using segments_confined [OF c] by simp
  with segments_confined [OF c] show ?thesis using c by simp
qed

end
