(* ===== verification/Sched.thy ===== *)
theory Sched
  imports Kstate
begin

text \<open>
  \<^verbatim>\<open>kernel/src/task/scheduler.rs\<close>: process table, ready queue, dispatch, blocking and waking,
  termination and reaping.  Each definition is one function of the source, or the part of it that
  runs under one acquisition of the scheduler lock.  The core a function runs on
  (\<^verbatim>\<open>percpu::core_index()\<close>) is an argument.  Printing (\<^verbatim>\<open>maybe_print_switch\<close>) has no effect on
  the state and is left out; \<^verbatim>\<open>executor::run_ready_tasks\<close>, which the source calls after the
  lock is released, is a step of its own.
\<close>

subsection \<open>Small helpers\<close>

definition opt_raw :: "pid option \<Rightarrow> u64" where
  "opt_raw p = (case p of None \<Rightarrow> 0 | Some q \<Rightarrow> pid_raw q)"

definition record_dispatch_trace :: "nat \<Rightarrow> pid option \<Rightarrow> 'pt kernel \<Rightarrow> 'pt kernel" where
  "record_dispatch_trace core p s =
    (let t = traces s ! core;
         slot = unat (cursor t) mod TRACE_LEN
     in s\<lparr>traces := (traces s)[core := \<lparr>tr_seq = (tr_seq t)[slot := tsc s],
                                        tr_pid = (tr_pid t)[slot := opt_raw p],
                                        cursor = cursor t + 1\<rparr>]\<rparr>)"

definition set_current :: "nat \<Rightarrow> pid option \<Rightarrow> 'pt kernel \<Rightarrow> 'pt kernel" where
  "set_current core p s =
    record_dispatch_trace core p
      (s\<lparr>current := (current s)[core := p],
         percpu := (percpu s)[core := (percpu s ! core)\<lparr>pc_current := opt_raw p\<rparr>]\<rparr>)"

definition mark_stack_busy :: "nat \<Rightarrow> 'pt kernel \<Rightarrow> 'pt kernel" where
  "mark_stack_busy i s = s\<lparr>stack_busy := (stack_busy s)[i := True]\<rparr>"

definition clear_stack_busy :: "nat \<Rightarrow> 'pt kernel \<Rightarrow> 'pt kernel" where
  "clear_stack_busy i s = s\<lparr>stack_busy := (stack_busy s)[i := False]\<rparr>"

definition clear_outgoing :: "nat option \<Rightarrow> 'pt kernel \<Rightarrow> 'pt kernel" where
  "clear_outgoing outgoing s = (case outgoing of None \<Rightarrow> s | Some i \<Rightarrow> clear_stack_busy i s)"

text \<open>\<^verbatim>\<open>lapic::send_ipi\<close> of the reschedule vector to one core, and to every idle core.\<close>

definition send_reschedule :: "nat \<Rightarrow> 'pt kernel \<Rightarrow> 'pt kernel" where
  "send_reschedule core s = s\<lparr>ipis := (lapic_id (percpu s ! core), RESCHEDULE_VECTOR) # ipis s\<rparr>"

definition notify_idle_cores :: "'pt kernel \<Rightarrow> 'pt kernel" where
  "notify_idle_cores s =
    fold (\<lambda>core s. if idle (percpu s ! core) then send_reschedule core s else s) [0..<MAX_CORES] s"

subsection \<open>The pool of process boxes\<close>

definition find_index :: "('a \<Rightarrow> bool) \<Rightarrow> 'a list \<Rightarrow> nat option" where
  "find_index P xs = List.find (\<lambda>i. P (xs ! i)) [0..<length xs]"

definition alloc_process_slot :: "'pt kernel \<Rightarrow> kpanic + (nat \<times> 'pt kernel)" where
  "alloc_process_slot s =
    (case find_index Not (process_slot_used s) of
       None \<Rightarrow> Inl OutOfProcessSlots
     | Some slot \<Rightarrow> Inr (slot, s\<lparr>process_slot_used := (process_slot_used s)[slot := True]\<rparr>))"

definition free_process_slot :: "nat \<Rightarrow> 'pt kernel \<Rightarrow> 'pt kernel" where
  "free_process_slot slot s = s\<lparr>process_slot_used := (process_slot_used s)[slot := False]\<rparr>"

text \<open>\<^verbatim>\<open>Drop for ProcessBox\<close>: drop the process (its address space), then free the pool slot.\<close>

definition drop_box :: "'pt paging \<Rightarrow> process_box \<Rightarrow> 'pt kernel \<Rightarrow> kpanic + 'pt kernel" where
  "drop_box pg bx s =
    (case drop_address_space pg (pml4 (snd bx)) (mem s) of
       None \<Rightarrow> Inl FrameAssertion
     | Some m \<Rightarrow> Inr (free_process_slot (fst bx) (s\<lparr>mem := m\<rparr>)))"

fun drop_boxes :: "'pt paging \<Rightarrow> process_box list \<Rightarrow> 'pt kernel \<Rightarrow> kpanic + 'pt kernel" where
  "drop_boxes pg [] s = Inr s"
| "drop_boxes pg (b # bs) s = sbind (drop_box pg b s) (drop_boxes pg bs)"

subsection \<open>Creating processes\<close>

definition slot_allocatable :: "'pt kernel \<Rightarrow> nat \<Rightarrow> bool" where
  "slot_allocatable s i \<longleftrightarrow> processes s ! i = Empty \<and> \<not> stack_busy s ! i"

definition allocate_pid :: "'pt kernel \<Rightarrow> pid \<times> 'pt kernel" where
  "allocate_pid s =
    (case List.find (slot_allocatable s) [0..<MAX_PROCESSES] of
       None \<Rightarrow> (pid_new MAX_PROCESSES 0, s)
     | Some index \<Rightarrow>
         (let g = generations s ! index + 1
          in (pid_new index g,
              s\<lparr>generations := (generations s)[index := g],
                processes := (processes s)[index := Reserved]\<rparr>)))"

definition release_reservation :: "pid \<Rightarrow> 'pt kernel \<Rightarrow> 'pt kernel" where
  "release_reservation p s =
    (let index = pid_index p in
     if index \<ge> MAX_PROCESSES \<or> generations s ! index \<noteq> pid_generation p then s
     else if processes s ! index = Reserved then put_slot index Empty s
     else s)"

text \<open>A process that finds no slot is dropped, and its address space with it.\<close>

definition refuse :: "'pt paging \<Rightarrow> process \<Rightarrow> 'pt kernel \<Rightarrow> kpanic + ((syscall_error + unit) \<times> 'pt kernel)" where
  "refuse pg proc s =
    (case drop_address_space pg (pml4 proc) (mem s) of
       None \<Rightarrow> Inl FrameAssertion
     | Some m \<Rightarrow> Inr (Inl ResourceExhausted, s\<lparr>mem := m\<rparr>))"

definition spawn ::
  "'pt paging \<Rightarrow> process \<Rightarrow> 'pt kernel \<Rightarrow> kpanic + ((syscall_error + unit) \<times> 'pt kernel)" where
  "spawn pg proc s =
    (let p = pid proc; index = pid_index p in
     if index \<ge> MAX_PROCESSES then refuse pg proc s
     else sbind (alloc_process_slot s) (\<lambda>(b, s).
       Inr (Inr (), notify_idle_cores (push_ready p (put_slot index (Occupied b proc) s)))))"

definition spawn_suspended ::
  "'pt paging \<Rightarrow> process \<Rightarrow> 'pt kernel \<Rightarrow> kpanic + ((syscall_error + unit) \<times> 'pt kernel)" where
  "spawn_suspended pg proc s =
    (let p = pid proc; index = pid_index p in
     if index \<ge> MAX_PROCESSES then refuse pg proc s
     else sbind (alloc_process_slot s) (\<lambda>(b, s).
       Inr (Inr (), put_slot index (Occupied b proc) s)))"

definition start_child :: "pid \<Rightarrow> pid \<Rightarrow> 'pt kernel \<Rightarrow> (syscall_error + unit) \<times> 'pt kernel" where
  "start_child target caller s =
    (case occupied s target of
       None \<Rightarrow> (Inl InvalidTarget, s)
     | Some proc \<Rightarrow>
         if parent proc \<noteq> Some caller \<or> pstate proc \<noteq> Suspended then (Inl InvalidTarget, s)
         else (Inr (),
               notify_idle_cores (push_ready target
                 (put_process (pid_index target) (proc\<lparr>pstate := Ready\<rparr>) s))))"

subsection \<open>Dispatch\<close>

text \<open>\<^verbatim>\<open>frame.rip < 0x0000_8000_0000_0000\<close> and the other checks on the saved frame.\<close>

definition USER_LIMIT :: u64 where "USER_LIMIT = 0x800000000000"

definition frame_check :: "'pt kernel \<Rightarrow> trap_frame \<Rightarrow> kpanic option" where
  "frame_check s f =
    (if cs f \<noteq> user_cs s then Some BadCs
     else if \<not> rip f < USER_LIMIT then Some BadRip
     else if ss f \<noteq> user_ss s then Some BadSs
     else if \<not> rsp f < USER_LIMIT then Some BadRsp
     else None)"

text \<open>\<^verbatim>\<open>switch_to\<close>: the returned number is the trap-frame slot to resume from.\<close>

definition switch_to :: "nat \<Rightarrow> pid \<Rightarrow> 'pt kernel \<Rightarrow> kpanic + (nat \<times> 'pt kernel)" where
  "switch_to core p s =
    (if list_ex (\<lambda>other. other \<noteq> core \<and> current s ! other = Some p) [0..<MAX_CORES] then Inl DoubleDispatch
     else let s1 = set_current core (Some p) s; index = pid_index p in
     if current s1 ! core \<noteq> Some p then Inl CurrentReadback
     else if index \<ge> MAX_PROCESSES then Inl IndexOutOfBounds
     else if generations s1 ! index \<noteq> pid_generation p then Inl GenerationMismatch
     else case processes s1 ! index of
       Occupied b proc \<Rightarrow>
         (if pid proc \<noteq> p then Inl PidMismatch
          else let s2 = put_slot index (Occupied b (proc\<lparr>pstate := Running\<rparr>)) s1;
                   top = kernel_stack_top (pid proc);
                   s3 = s2\<lparr>regs := (regs s2)[core := \<lparr>cr3 = pml4 proc, rsp0 = top, syscall_stack = top\<rparr>]\<rparr>
          in if cr3 (regs s3 ! core) \<noteq> pml4 proc then Inl Cr3Readback
             else if rsp0 (regs s3 ! core) \<noteq> top then Inl Rsp0Readback
             else if syscall_stack (regs s3 ! core) \<noteq> top then Inl SyscallStackReadback
             else case frame_check s3 (trap_frames s3 ! pid_index (pid proc)) of
                    Some e \<Rightarrow> Inl e
                  | None \<Rightarrow> Inr (pid_index (pid proc), s3))
     | _ \<Rightarrow> Inl NoSuchProcess)"

text \<open>
  Where a kernel entry returns to: a saved trap frame (by slot), the frame it was entered with
  (possibly with result registers written), this core's idle loop, or nowhere: the core halts.
\<close>

datatype resume = ResumeSlot nat | ResumeFrame trap_frame | EnterIdle | HaltForever

text \<open>The locked part of \<^verbatim>\<open>on_timer_tick\<close>.\<close>

definition preempt_current :: "nat \<Rightarrow> trap_frame \<Rightarrow> 'pt kernel \<Rightarrow> kpanic + 'pt kernel" where
  "preempt_current core frame s =
    (case current s ! core of
       None \<Rightarrow> Inr s
     | Some p \<Rightarrow>
         let s1 = s\<lparr>percpu := (percpu s)[core := (percpu s ! core)\<lparr>preempt_count := preempt_count (percpu s ! core) + 1\<rparr>]\<rparr>
         in if pid_index p \<ge> MAX_PROCESSES then Inl IndexOutOfBounds
            else case processes s1 ! pid_index p of
              Occupied b proc \<Rightarrow>
                Inr (push_ready p
                      (put_slot (pid_index p) (Occupied b (proc\<lparr>pstate := Ready\<rparr>))
                        (set_frame (pid_index (pid proc)) frame s1)))
            | _ \<Rightarrow> Inr s1)"

definition on_timer_tick :: "nat \<Rightarrow> trap_frame \<Rightarrow> 'pt kernel \<Rightarrow> kpanic + (resume \<times> 'pt kernel)" where
  "on_timer_tick core frame s =
    sbind (preempt_current core frame s) (\<lambda>s.
      case ring_pop (ready s) of
        (Some next, q) \<Rightarrow> sbind (switch_to core next (s\<lparr>ready := q\<rparr>)) (\<lambda>(i, s). Inr (ResumeSlot i, s))
      | (None, q) \<Rightarrow> Inr (ResumeFrame frame, s\<lparr>ready := q\<rparr>))"

definition on_syscall_yield :: "nat \<Rightarrow> trap_frame \<Rightarrow> 'pt kernel \<Rightarrow> kpanic + (resume \<times> 'pt kernel)" where
  "on_syscall_yield core frame s = on_timer_tick core frame s"

definition all_processes_empty :: "'pt kernel \<Rightarrow> bool" where
  "all_processes_empty s \<longleftrightarrow> list_all (\<lambda>sl. sl = Empty) (processes s)"

definition activate_idle_address_space :: "nat \<Rightarrow> 'pt kernel \<Rightarrow> 'pt kernel" where
  "activate_idle_address_space core s = s\<lparr>regs := (regs s)[core := (regs s ! core)\<lparr>cr3 := idle_pml4 s\<rparr>]\<rparr>"

text \<open>
  \<^verbatim>\<open>finish_switch\<close> and \<^verbatim>\<open>abandon_process_stack_and_idle\<close> with its trampoline: after the switch
  the pending boxes are dropped and the outgoing stack is released.
\<close>

definition finish_switch ::
  "'pt paging \<Rightarrow> nat \<Rightarrow> pid \<Rightarrow> nat option \<Rightarrow> process_box list \<Rightarrow> 'pt kernel \<Rightarrow> kpanic + (resume \<times> 'pt kernel)" where
  "finish_switch pg core next outgoing drops s =
    sbind (switch_to core next s) (\<lambda>(i, s).
    sbind (drop_boxes pg drops s) (\<lambda>s.
      Inr (ResumeSlot i, clear_outgoing outgoing s)))"

definition abandon_process_stack_and_idle ::
  "'pt paging \<Rightarrow> nat \<Rightarrow> nat option \<Rightarrow> process_box list \<Rightarrow> 'pt kernel \<Rightarrow> kpanic + (resume \<times> 'pt kernel)" where
  "abandon_process_stack_and_idle pg core outgoing drops s =
    sbind (drop_boxes pg drops (clear_outgoing outgoing (activate_idle_address_space core s)))
      (\<lambda>s. Inr (EnterIdle, s))"

definition switch_to_next_or_halt ::
  "'pt paging \<Rightarrow> nat \<Rightarrow> nat option \<Rightarrow> process_box list \<Rightarrow> 'pt kernel \<Rightarrow> kpanic + (resume \<times> 'pt kernel)" where
  "switch_to_next_or_halt pg core outgoing drops s =
    (case ring_pop (ready s) of
       (Some next, q) \<Rightarrow> finish_switch pg core next outgoing drops (s\<lparr>ready := q\<rparr>)
     | (None, q) \<Rightarrow> abandon_process_stack_and_idle pg core outgoing drops (s\<lparr>ready := q\<rparr>))"

text \<open>
  One turn of \<^verbatim>\<open>idle_loop_on_own_stack\<close> after the kernel tasks have run: dispatch, halt for good
  when this core may halt the machine and no process is left, or park.
\<close>

datatype idle_result = Dispatched nat | PermanentHalt | Park

definition idle_turn :: "nat \<Rightarrow> bool \<Rightarrow> 'pt kernel \<Rightarrow> kpanic + (idle_result \<times> 'pt kernel)" where
  "idle_turn core has_message s =
    (case ring_pop (ready s) of
       (Some next, q) \<Rightarrow> sbind (switch_to core next (s\<lparr>ready := q\<rparr>)) (\<lambda>(i, s). Inr (Dispatched i, s))
     | (None, q) \<Rightarrow>
         Inr (if has_message \<and> all_processes_empty s then PermanentHalt else Park, s\<lparr>ready := q\<rparr>))"

text \<open>\<^verbatim>\<open>park_until_woken\<close> up to the \<^verbatim>\<open>hlt\<close>: whether the core halts, with its idle flag set.\<close>

definition set_idle :: "nat \<Rightarrow> bool \<Rightarrow> 'pt kernel \<Rightarrow> 'pt kernel" where
  "set_idle core b s = s\<lparr>percpu := (percpu s)[core := (percpu s ! core)\<lparr>idle := b\<rparr>]\<rparr>"

definition park_check :: "nat \<Rightarrow> 'pt kernel \<Rightarrow> bool \<times> 'pt kernel" where
  "park_check core s =
    (if \<not> ring_is_empty (ready s) then (False, s)
     else let s1 = set_idle core True s in
          if \<not> ring_is_empty (ready s1) then (False, set_idle core False s1) else (True, s1))"

subsection \<open>Waking and blocking\<close>

text \<open>\<^verbatim>\<open>apply_wake_result\<close> on the trap frame; the caller also sets the state to \<^term>\<open>Ready\<close>.\<close>

fun wake_frame :: "wake_result \<Rightarrow> trap_frame \<Rightarrow> trap_frame" where
  "wake_frame SendCompleted f = f\<lparr>rax := 0\<rparr>"
| "wake_frame (RecvCompleted tag w0 w1 w2) f = f\<lparr>rax := 0, rdi := tag, rsi := w0, rdx := w1, r10 := w2\<rparr>"
| "wake_frame (WaitCompleted status) f = (case to_regs status of (kind, code) \<Rightarrow> f\<lparr>rax := 0, rdi := kind, rsi := code\<rparr>)"
| "wake_frame WakePeerClosed f = f\<lparr>rax := as_retval PeerClosed\<rparr>"

definition apply_wake_result :: "nat \<Rightarrow> process \<Rightarrow> wake_result \<Rightarrow> 'pt kernel \<Rightarrow> 'pt kernel" where
  "apply_wake_result index proc result s =
    put_process index (proc\<lparr>pstate := Ready\<rparr>)
      (set_frame (pid_index (pid proc)) (wake_frame result (trap_frames s ! pid_index (pid proc))) s)"

definition wake_blocked_process_locked :: "pid \<Rightarrow> wake_result \<Rightarrow> 'pt kernel \<Rightarrow> 'pt kernel" where
  "wake_blocked_process_locked p result s =
    (case occupied s p of
       None \<Rightarrow> s
     | Some proc \<Rightarrow>
         if pstate proc \<noteq> Blocked then put_process (pid_index p) (proc\<lparr>pending_wake := Some result\<rparr>) s
         else notify_idle_cores (push_ready p (apply_wake_result (pid_index p) proc result s)))"

definition wake_blocked_process :: "pid \<Rightarrow> wake_result \<Rightarrow> 'pt kernel \<Rightarrow> 'pt kernel" where
  "wake_blocked_process p result s = wake_blocked_process_locked p result s"

definition block_current_process_locked :: "nat \<Rightarrow> trap_frame \<Rightarrow> 'pt kernel \<Rightarrow> kpanic + 'pt kernel" where
  "block_current_process_locked core frame s =
    (case current s ! core of
       None \<Rightarrow> Inr s
     | Some p \<Rightarrow>
         if pid_index p \<ge> MAX_PROCESSES then Inl IndexOutOfBounds
         else Inr (set_current core None
           (case processes s ! pid_index p of
              Occupied b proc \<Rightarrow>
                (let s1 = put_slot (pid_index p) (Occupied b (proc\<lparr>pstate := Blocked\<rparr>))
                            (set_frame (pid_index (pid proc)) frame s)
                 in case pending_wake proc of
                      None \<Rightarrow> s1
                    | Some result \<Rightarrow>
                        notify_idle_cores (push_ready p
                          (apply_wake_result (pid_index p) (proc\<lparr>pstate := Blocked, pending_wake := None\<rparr>) result s1)))
            | _ \<Rightarrow> s)))"

definition block_current_process ::
  "'pt paging \<Rightarrow> nat \<Rightarrow> trap_frame \<Rightarrow> 'pt kernel \<Rightarrow> kpanic + (resume \<times> 'pt kernel)" where
  "block_current_process pg core frame s =
    sbind (block_current_process_locked core frame s) (switch_to_next_or_halt pg core None [])"

definition with_process :: "pid \<Rightarrow> (process \<Rightarrow> 'r \<times> process) \<Rightarrow> 'pt kernel \<Rightarrow> 'r option \<times> 'pt kernel" where
  "with_process p f s =
    (case occupied s p of
       None \<Rightarrow> (None, s)
     | Some proc \<Rightarrow> (case f proc of (r, proc') \<Rightarrow> (Some r, put_process (pid_index p) proc' s)))"

definition with_current_process ::
  "nat \<Rightarrow> (process \<Rightarrow> 'r \<times> process) \<Rightarrow> 'pt kernel \<Rightarrow> 'r option \<times> 'pt kernel" where
  "with_current_process core f s =
    (case current s ! core of None \<Rightarrow> (None, s) | Some p \<Rightarrow> with_process p f s)"

subsection \<open>Termination and reaping\<close>

definition remove_from_ready_queue :: "pid \<Rightarrow> 'pt kernel \<Rightarrow> 'pt kernel" where
  "remove_from_ready_queue target s =
    s\<lparr>ready := ring_drain_except target (ready s) (ring_new MAX_PROCESSES)\<rparr>"

definition clear_current_of :: "pid \<Rightarrow> 'pt kernel \<Rightarrow> 'pt kernel" where
  "clear_current_of p s =
    fold (\<lambda>core s. if current s ! core = Some p then set_current core None s else s) [0..<MAX_CORES] s"

text \<open>One iteration of the loop of \<^verbatim>\<open>reap_children_of\<close>; \<^term>\<open>fin\<close> is \<^verbatim>\<open>take_and_finalize_slot\<close>.\<close>

definition reap_one ::
  "('pt kernel \<Rightarrow> pid \<Rightarrow> exit_status \<Rightarrow> process_box list \<Rightarrow> kpanic + ('pt kernel \<times> process_box list))
   \<Rightarrow> pid \<Rightarrow> nat \<Rightarrow> 'pt kernel \<times> process_box list \<Rightarrow> kpanic + ('pt kernel \<times> process_box list)" where
  "reap_one fin exiting i sd = (case sd of (s, d) \<Rightarrow>
    (case processes s ! i of
       Occupied b child \<Rightarrow>
         if parent child = Some exiting \<and> pstate child = Suspended
         then fin s (pid_new i (generations s ! i)) Killed d
         else if parent child = Some exiting
         then Inr (put_slot i (Occupied b (child\<lparr>parent := None\<rparr>)) s, d)
         else Inr (s, d)
     | Zombie q _ \<Rightarrow> if q = exiting then Inr (put_slot i Empty s, d) else Inr (s, d)
     | _ \<Rightarrow> Inr (s, d)))"

fun reap_loop ::
  "('pt kernel \<Rightarrow> pid \<Rightarrow> exit_status \<Rightarrow> process_box list \<Rightarrow> kpanic + ('pt kernel \<times> process_box list))
   \<Rightarrow> pid \<Rightarrow> nat list \<Rightarrow> 'pt kernel \<times> process_box list \<Rightarrow> kpanic + ('pt kernel \<times> process_box list)" where
  "reap_loop fin exiting [] sd = Inr sd"
| "reap_loop fin exiting (i # is) sd = sbind (reap_one fin exiting i sd) (reap_loop fin exiting is)"

text \<open>What \<^verbatim>\<open>take_and_finalize_slot\<close> does before it sweeps the children.\<close>

definition vacate :: "pid \<Rightarrow> process \<Rightarrow> exit_status \<Rightarrow> 'pt kernel \<Rightarrow> 'pt kernel" where
  "vacate p proc status s =
    (let i = pid_index p;
         s1 = clear_current_of p (remove_from_ready_queue p (put_slot i Empty s))
     in case wait_waiter proc of
          Some w \<Rightarrow> wake_blocked_process_locked w (WaitCompleted status) s1
        | None \<Rightarrow> (case parent proc of Some q \<Rightarrow> put_slot i (Zombie q status) s1 | None \<Rightarrow> s1))"

text \<open>
  \<^verbatim>\<open>take_and_finalize_slot\<close> and \<^verbatim>\<open>reap_children_of\<close> call each other; the first argument bounds the
  depth.  Every nested call has emptied one occupied slot more, so a bound above the number of
  slots is never reached (\<^verbatim>\<open>finalize_total\<close>).
\<close>

primrec finalize_fuel ::
  "nat \<Rightarrow> 'pt kernel \<Rightarrow> pid \<Rightarrow> exit_status \<Rightarrow> process_box list \<Rightarrow> kpanic + ('pt kernel \<times> process_box list)" where
  "finalize_fuel 0 = (\<lambda>s p status d. Inl RecursionBound)"
| "finalize_fuel (Suc n) = (\<lambda>s p status d.
    (if pid_index p \<ge> MAX_PROCESSES then Inl IndexOutOfBounds
     else case processes s ! pid_index p of
       Occupied b proc \<Rightarrow>
         sbind (reap_loop (finalize_fuel n) p [0..<MAX_PROCESSES] (vacate p proc status s, d))
           (\<lambda>(s, d). Inr (s, d @ [(b, proc)]))
     | _ \<Rightarrow> Inr (s, d)))"

definition take_and_finalize_slot ::
  "'pt kernel \<Rightarrow> pid \<Rightarrow> exit_status \<Rightarrow> process_box list \<Rightarrow> kpanic + ('pt kernel \<times> process_box list)" where
  "take_and_finalize_slot s p status d = finalize_fuel (Suc MAX_PROCESSES) s p status d"

definition reap_children_of ::
  "'pt kernel \<Rightarrow> pid \<Rightarrow> process_box list \<Rightarrow> kpanic + ('pt kernel \<times> process_box list)" where
  "reap_children_of s exiting d =
    reap_loop (finalize_fuel MAX_PROCESSES) exiting [0..<MAX_PROCESSES] (s, d)"

text \<open>\<^verbatim>\<open>Endpoint::take_waiting_process_receiver\<close>: a waiting task is left alone.\<close>

definition take_waiting_process_receiver :: "nat \<Rightarrow> 'pt kernel \<Rightarrow> pid option \<times> 'pt kernel" where
  "take_waiting_process_receiver e s =
    (case endpoints s e of
       ReceiverWaiting (Process p) \<Rightarrow> (Some p, s\<lparr>endpoints := (endpoints s)(e := SlotEmpty)\<rparr>)
     | _ \<Rightarrow> (None, s))"

definition sends_to :: "kernel_object captable \<Rightarrow> nat \<Rightarrow> bool" where
  "sends_to t e \<longleftrightarrow>
    list_ex (\<lambda>c. rights_contains (cap_rights c) R_SEND \<and> cap_object c = KEndpoint e) (captable_iter t)"

definition has_live_sender :: "'pt kernel \<Rightarrow> nat \<Rightarrow> bool" where
  "has_live_sender s e \<longleftrightarrow>
    list_ex (\<lambda>sl. case sl of Occupied _ proc \<Rightarrow> sends_to (cap_table proc) e | _ \<Rightarrow> False) (processes s)"

text \<open>The endpoints a dead process could send to and nobody alive can.\<close>

definition orphaned_endpoints :: "'pt kernel \<Rightarrow> process_box list \<Rightarrow> nat list" where
  "orphaned_endpoints s dying =
    concat (map (\<lambda>(_, proc).
      List.map_filter (\<lambda>c.
        if \<not> rights_contains (cap_rights c) R_SEND then None
        else case cap_object c of
               KEndpoint e \<Rightarrow> if has_live_sender s e then None else Some e
             | _ \<Rightarrow> None) (captable_iter (cap_table proc))) dying)"

definition wake_orphan :: "nat \<Rightarrow> 'pt kernel \<Rightarrow> 'pt kernel" where
  "wake_orphan e s =
    (case take_waiting_process_receiver e s of
       (Some p, s) \<Rightarrow> wake_blocked_process p WakePeerClosed s
     | (None, s) \<Rightarrow> s)"

definition wake_orphaned_receivers :: "process_box list \<Rightarrow> 'pt kernel \<Rightarrow> 'pt kernel" where
  "wake_orphaned_receivers dying s = fold wake_orphan (orphaned_endpoints s dying) s"

definition terminate_slot :: "pid \<Rightarrow> exit_status \<Rightarrow> 'pt kernel \<Rightarrow> kpanic + ('pt kernel \<times> process_box list)" where
  "terminate_slot p status s =
    sbind (take_and_finalize_slot s p status []) (\<lambda>(s, drops). Inr (wake_orphaned_receivers drops s, drops))"

definition terminate_current_process ::
  "'pt paging \<Rightarrow> nat \<Rightarrow> exit_status \<Rightarrow> 'pt kernel \<Rightarrow> kpanic + (resume \<times> 'pt kernel)" where
  "terminate_current_process pg core status s =
    (case current s ! core of
       None \<Rightarrow> switch_to_next_or_halt pg core None [] s
     | Some p \<Rightarrow>
         if pid_index p \<ge> MAX_PROCESSES then Inl IndexOutOfBounds
         else sbind (terminate_slot p status (mark_stack_busy (pid_index p) s)) (\<lambda>(s, drops).
           switch_to_next_or_halt pg core (Some (pid_index p)) drops s))"

definition on_syscall_exit ::
  "'pt paging \<Rightarrow> nat \<Rightarrow> trap_frame \<Rightarrow> 'pt kernel \<Rightarrow> kpanic + (resume \<times> 'pt kernel)" where
  "on_syscall_exit pg core frame s = terminate_current_process pg core (Exited (ucast (rdi frame))) s"

subsection \<open>Killing across cores\<close>

text \<open>The first critical section of \<^verbatim>\<open>terminate_process\<close>: only a parent may kill.\<close>

definition terminate_check :: "pid \<Rightarrow> pid \<Rightarrow> 'pt kernel \<Rightarrow> syscall_error + unit" where
  "terminate_check target caller s =
    (case occupied s target of
       None \<Rightarrow> Inl InvalidTarget
     | Some proc \<Rightarrow> if parent proc \<noteq> Some caller then Inl InvalidTarget else Inr ())"

definition set_evict_request :: "nat \<Rightarrow> u64 \<Rightarrow> 'pt kernel \<Rightarrow> 'pt kernel" where
  "set_evict_request core w s = s\<lparr>percpu := (percpu s)[core := (percpu s ! core)\<lparr>evict_request := w\<rparr>]\<rparr>"

definition owning_core :: "pid \<Rightarrow> 'pt kernel \<Rightarrow> nat option" where
  "owning_core target s = List.find (\<lambda>core. current s ! core = Some target) [0..<MAX_CORES]"

text \<open>
  One iteration of the loop: finalize the target if no core runs it, otherwise ask the core that
  does to evict it.
\<close>

definition terminate_scan :: "'pt paging \<Rightarrow> pid \<Rightarrow> 'pt kernel \<Rightarrow> kpanic + (nat option \<times> 'pt kernel)" where
  "terminate_scan pg target s =
    (case owning_core target s of
       Some core \<Rightarrow> Inr (Some core, send_reschedule core (set_evict_request core (pid_raw target) s))
     | None \<Rightarrow>
         sbind (take_and_finalize_slot s target Killed []) (\<lambda>(s, drops).
         sbind (drop_boxes pg drops (wake_orphaned_receivers drops s)) (\<lambda>s. Inr (None, s))))"

text \<open>
  The loop.  \<^term>\<open>env k\<close> is what the other cores do to the state while this core spins; the spin
  ends because the target is no longer current there or because it timed out, in which case the
  request is withdrawn.  The first argument bounds the iterations; \<^term>\<open>None\<close> means it has not
  returned yet.
\<close>

fun terminate_loop ::
  "nat \<Rightarrow> (nat \<Rightarrow> 'pt kernel \<Rightarrow> 'pt kernel) \<Rightarrow> 'pt paging \<Rightarrow> pid \<Rightarrow> 'pt kernel \<Rightarrow> kpanic + 'pt kernel option" where
  "terminate_loop 0 env pg target s = Inr None"
| "terminate_loop (Suc n) env pg target s =
    sbind (terminate_scan pg target s) (\<lambda>(owner, s).
      case owner of
        None \<Rightarrow> Inr (Some s)
      | Some core \<Rightarrow>
          let s1 = env n s;
              s2 = (if pc_current (percpu s1 ! core) = pid_raw target then set_evict_request core 0 s1 else s1)
          in terminate_loop n env pg target s2)"

definition terminate_process ::
  "nat \<Rightarrow> (nat \<Rightarrow> 'pt kernel \<Rightarrow> 'pt kernel) \<Rightarrow> 'pt paging \<Rightarrow> pid \<Rightarrow> pid \<Rightarrow> 'pt kernel
     \<Rightarrow> kpanic + ((syscall_error + unit) \<times> 'pt kernel) option" where
  "terminate_process n env pg target caller s =
    (case terminate_check target caller s of
       Inl e \<Rightarrow> Inr (Some (Inl e, s))
     | Inr _ \<Rightarrow> sbind (terminate_loop n env pg target s) (\<lambda>r. Inr (map_option (\<lambda>s. (Inr (), s)) r)))"

definition on_reschedule_ipi ::
  "'pt paging \<Rightarrow> nat \<Rightarrow> trap_frame \<Rightarrow> 'pt kernel \<Rightarrow> kpanic + (resume \<times> 'pt kernel)" where
  "on_reschedule_ipi pg core frame s =
    (let evict = evict_request (percpu s ! core);
         s1 = set_evict_request core 0 s
     in if evict = 0 \<or> map_option pid_raw (current s1 ! core) \<noteq> Some evict then Inr (ResumeFrame frame, s1)
        else let p = Pid evict; s2 = set_current core None s1 in
          if pid_index p \<ge> MAX_PROCESSES then Inl IndexOutOfBounds
          else switch_to_next_or_halt pg core (Some (pid_index p)) [] (mark_stack_busy (pid_index p) s2))"

subsection \<open>Waiting for a child\<close>

datatype wait_outcome = AlreadyDone exit_status | MustBlock | WaitInvalid

definition wait_outcome_of :: "pid \<Rightarrow> pid \<Rightarrow> 'pt kernel \<Rightarrow> wait_outcome" where
  "wait_outcome_of target caller s =
    (case processes s ! pid_index target of
       Zombie q status \<Rightarrow> if q = caller then AlreadyDone status else WaitInvalid
     | Occupied _ proc \<Rightarrow> if parent proc = Some caller then MustBlock else WaitInvalid
     | _ \<Rightarrow> WaitInvalid)"

definition wait_for_child ::
  "'pt paging \<Rightarrow> nat \<Rightarrow> trap_frame \<Rightarrow> pid \<Rightarrow> pid \<Rightarrow> 'pt kernel \<Rightarrow> kpanic + (resume \<times> 'pt kernel)" where
  "wait_for_child pg core frame target caller s =
    (let index = pid_index target in
     if index \<ge> MAX_PROCESSES \<or> generations s ! index \<noteq> pid_generation target
     then Inr (ResumeFrame (frame\<lparr>rax := as_retval InvalidTarget\<rparr>), s)
     else case wait_outcome_of target caller s of
       AlreadyDone status \<Rightarrow>
         (case to_regs status of (kind, code) \<Rightarrow>
            Inr (ResumeFrame (frame\<lparr>rax := 0, rdi := kind, rsi := code\<rparr>), put_slot index Empty s))
     | MustBlock \<Rightarrow>
         (case processes s ! index of
            Occupied b proc \<Rightarrow>
              sbind (block_current_process_locked core frame
                      (put_slot index (Occupied b (proc\<lparr>wait_waiter := Some caller\<rparr>)) s))
                (switch_to_next_or_halt pg core None [])
          | _ \<Rightarrow> Inl NoSuchProcess)
     | WaitInvalid \<Rightarrow> Inr (ResumeFrame (frame\<lparr>rax := as_retval InvalidTarget\<rparr>), s))"

end
