(* ===== verification/Create.thy ===== *)
theory Create
  imports Elf Sched
begin

text \<open>
  Building processes: \<^verbatim>\<open>Process::new\<close>, \<^verbatim>\<open>Process::from_elf\<close> and \<^verbatim>\<open>Process::new_dummy\<close> of
  \<^verbatim>\<open>kernel/src/task/process.rs\<close>.  A constructor that fails drops the address space it was given,
  which frees its frames.
\<close>

subsection \<open>The constructors\<close>

definition USER_DATA_FLAGS :: u64 where
  "USER_DATA_FLAGS = PF_PRESENT OR PF_WRITABLE OR PF_USER OR PF_NO_EXECUTE"

definition user_stack_pages :: "u64 list" where
  "user_stack_pages =
    page_range (page_of (USER_STACK_TOP - USER_STACK_PAGES * 4096)) (page_of (USER_STACK_TOP - 1))"

fun map_user_stack :: "'pt paging \<Rightarrow> u64 \<Rightarrow> u64 list \<Rightarrow> 'pt mem \<Rightarrow> (string + unit) \<times> 'pt mem" where
  "map_user_stack pg root [] m = (Inr (), m)"
| "map_user_stack pg root (page # pages) m =
    (case mem_allocate_frame m of
       (None, m) \<Rightarrow> (Inl ''out of memory mapping user stack'', m)
     | (Some frame, m) \<Rightarrow>
         (case map_in pg root page frame USER_DATA_FLAGS m of
            (Inl _, m) \<Rightarrow> (Inl ''failed to map user stack'', m)
          | (Inr _, m) \<Rightarrow> map_user_stack pg root pages m))"

text \<open>Returning an error from a function that owns the address space rooted at \<^term>\<open>root\<close>.\<close>

definition fail_dropping ::
  "'pt paging \<Rightarrow> u64 \<Rightarrow> string \<Rightarrow> 'pt mem \<Rightarrow> 'pt kernel \<Rightarrow> kpanic + ((string + process) \<times> 'pt kernel)" where
  "fail_dropping pg root e m s =
    (case drop_address_space pg root m of
       None \<Rightarrow> Inl FrameAssertion
     | Some m \<Rightarrow> Inr (Inl e, s\<lparr>mem := m\<rparr>))"

text \<open>
  Writing through \<^verbatim>\<open>trap_frame_for(pid)\<close> faults in ring 0 for an index past the last slot
  \<^verbatim>\<open>init_trap_frames\<close> mapped.
\<close>

definition process_new ::
  "'pt paging \<Rightarrow> pid \<Rightarrow> u64 \<Rightarrow> u64 \<Rightarrow> pid option \<Rightarrow> 'pt kernel \<Rightarrow> kpanic + ((string + process) \<times> 'pt kernel)" where
  "process_new pg p root entry par s =
    (case map_user_stack pg root user_stack_pages (mem s) of
       (Inl e, m) \<Rightarrow> fail_dropping pg root e m s
     | (Inr _, m) \<Rightarrow>
         if pid_index p \<ge> MAX_PROCESSES then Inl UnmappedTrapFrame
         else Inr (Inr \<lparr>pid = p, pml4 = root, cap_table = captable_new, pstate = Ready, parent = par,
                        wait_waiter = None, pending_wake = None, heap_end = USER_HEAP_START\<rparr>,
                   set_frame (pid_index p) (initial_user_frame (user_cs s) (user_ss s) entry USER_STACK_TOP)
                     (s\<lparr>mem := m\<rparr>)))"

definition process_from_elf ::
  "'pt paging \<Rightarrow> pid \<Rightarrow> bytes \<Rightarrow> pid option \<Rightarrow> 'pt kernel \<Rightarrow> kpanic + ((string + process) \<times> 'pt kernel)" where
  "process_from_elf pg p elf_bytes par s =
    (case address_space_new pg (mem s) of
       (Inl _, m) \<Rightarrow> Inr (Inl ''out of memory creating address space'', s\<lparr>mem := m\<rparr>)
     | (Inr root, m) \<Rightarrow>
         sbind (elf_load pg root elf_bytes m) (\<lambda>(r, m).
           case r of
             Inl _ \<Rightarrow> fail_dropping pg root ''failed to load ELF image'' m s
           | Inr entry \<Rightarrow> process_new pg p root entry par (s\<lparr>mem := m\<rparr>)))"

definition DUMMY_CODE_BASE :: u64 where "DUMMY_CODE_BASE = 0x400000"

text \<open>The two code pages \<^verbatim>\<open>new_dummy\<close> copies from the kernel's own text.\<close>

fun copy_dummy_pages :: "'pt paging \<Rightarrow> u64 \<Rightarrow> u64 \<Rightarrow> u64 list \<Rightarrow> 'pt mem \<Rightarrow> (string + unit) \<times> 'pt mem" where
  "copy_dummy_pages pg root source [] m = (Inr (), m)"
| "copy_dummy_pages pg root source (i # is) m =
    (case mem_allocate_frame m of
       (None, m) \<Rightarrow> (Inl ''out of memory copying dummy code'', m)
     | (Some dest, m) \<Rightarrow>
         (let m1 = m\<lparr>pmem := mem_write dest (map (\<lambda>k. pmem m (source + i * 4096 + of_nat k)) [0..<4096]) (pmem m)\<rparr>
          in case map_in pg root (DUMMY_CODE_BASE + i * 4096) dest (PF_PRESENT OR PF_USER) m1 of
               (Inl _, m) \<Rightarrow> (Inl ''failed to map dummy code page'', m)
             | (Inr _, m) \<Rightarrow> copy_dummy_pages pg root source is m))"

definition process_new_dummy ::
  "'pt paging \<Rightarrow> pid \<Rightarrow> u64 \<Rightarrow> pid option \<Rightarrow> 'pt kernel \<Rightarrow> kpanic + ((string + process) \<times> 'pt kernel)" where
  "process_new_dummy pg p entry_fn par s =
    (case address_space_new pg (mem s) of
       (Inl _, m) \<Rightarrow> Inr (Inl ''out of memory creating address space'', s\<lparr>mem := m\<rparr>)
     | (Inr root, m) \<Rightarrow>
         (case virt_translate pg entry_fn m of
            None \<Rightarrow> fail_dropping pg root ''dummy entry function is not mapped'' m s
          | Some phys \<Rightarrow>
              (case copy_dummy_pages pg root (page_of phys) [0, 1] m of
                 (Inl e, m) \<Rightarrow> fail_dropping pg root e m s
               | (Inr _, m) \<Rightarrow>
                   process_new pg p root (DUMMY_CODE_BASE + (phys - page_of phys)) par (s\<lparr>mem := m\<rparr>))))"

subsection \<open>What the constructors leave alone\<close>

lemma fail_dropping_cases:
  "fail_dropping pg root e m s = Inl FrameAssertion
   \<or> (\<exists>m'. fail_dropping pg root e m s = Inr (Inl e, s\<lparr>mem := m'\<rparr>))"
  by (auto simp: fail_dropping_def split: option.splits)

text \<open>A constructor either fails and changes memory only, or gives a process with the given pid and parent.\<close>

definition fresh_process :: "pid \<Rightarrow> pid option \<Rightarrow> process \<Rightarrow> bool" where
  "fresh_process p par proc \<longleftrightarrow> pid proc = p \<and> parent proc = par \<and> pstate proc = Ready
    \<and> wait_waiter proc = None \<and> pending_wake proc = None \<and> heap_end proc = USER_HEAP_START
    \<and> cap_table proc = captable_new"

definition built :: "pid \<Rightarrow> pid option \<Rightarrow> 'pt kernel \<Rightarrow> (string + process) \<times> 'pt kernel \<Rightarrow> bool" where
  "built p par s r \<longleftrightarrow>
    (\<exists>e m. r = (Inl e, s\<lparr>mem := m\<rparr>))
    \<or> (\<exists>proc m f. r = (Inr proc, set_frame (pid_index p) f (s\<lparr>mem := m\<rparr>)) \<and> fresh_process p par proc
         \<and> pid_index p < MAX_PROCESSES \<and> cs f = user_cs s \<and> ss f = user_ss s \<and> rsp f = USER_STACK_TOP)"

lemma built_InlI: "built p par s (Inl e, s\<lparr>mem := m\<rparr>)"
  unfolding built_def by blast

lemma built_InrI:
  "fresh_process p par proc \<Longrightarrow> pid_index p < MAX_PROCESSES \<Longrightarrow> cs f = user_cs s \<Longrightarrow> ss f = user_ss s
   \<Longrightarrow> rsp f = USER_STACK_TOP \<Longrightarrow> built p par s (Inr proc, set_frame (pid_index p) f (s\<lparr>mem := m\<rparr>))"
  unfolding built_def by blast

lemma fail_dropping_built: "fail_dropping pg root e m (s\<lparr>mem := m0\<rparr>) = Inr r \<Longrightarrow> built p par s r"
  by (auto simp: fail_dropping_def built_InlI split: option.splits)

lemma process_new_built:
  assumes "process_new pg p root entry par (s\<lparr>mem := m0\<rparr>) = Inr r"
  shows "built p par s r"
proof (cases "map_user_stack pg root user_stack_pages m0")
  case (Pair q m)
  show ?thesis
  proof (cases q)
    case (Inl e)
    then show ?thesis using assms Pair by (auto simp: process_new_def intro: fail_dropping_built)
  next
    case (Inr u)
    then show ?thesis
      using assms Pair by (auto simp: process_new_def fresh_process_def initial_user_frame_def intro!: built_InrI
          split: if_splits)
  qed
qed

lemma fail_built: "fail_dropping pg root e m s = Inr r \<Longrightarrow> built p par s r"
  by (auto simp: fail_dropping_def built_InlI split: option.splits)

lemma process_from_elf_built:
  assumes "process_from_elf pg p elf_bytes par s = Inr r"
  shows "built p par s r"
proof (cases "address_space_new pg (mem s)")
  case (Pair q m)
  show ?thesis
  proof (cases q)
    case (Inl e)
    then show ?thesis using assms Pair by (auto simp: process_from_elf_def built_InlI)
  next
    case (Inr root)
    then obtain x m1 where x: "elf_load pg root elf_bytes m = Inr (x, m1)"
      and r: "(case x of Inl e \<Rightarrow> fail_dropping pg root ''failed to load ELF image'' m1 s
               | Inr entry \<Rightarrow> process_new pg p root entry par (s\<lparr>mem := m1\<rparr>)) = Inr r"
      using assms Pair by (auto simp: process_from_elf_def sbind_Inr_iff)
    show ?thesis using r by (cases x) (auto intro: fail_built process_new_built)
  qed
qed

end
