(* ===== verification/Sched_Inv.thy ===== *)
theory Sched_Inv
  imports Sched
begin

text \<open>
  The scheduler invariant.  \<^verbatim>\<open>view_inv\<close> states it of the three things a scheduler is about: the
  live processes, the ready queue as a list, and what each core runs; \<^verbatim>\<open>shape\<close> adds the sizes of
  the arrays and that every core's lock-free mirror agrees with \<^verbatim>\<open>current\<close>.  The lemmas say what
  each operation does to these three components and that each one keeps the invariant.
\<close>

subsection \<open>The invariant\<close>

abbreviation ready_list :: "'pt kernel \<Rightarrow> pid list" where
  "ready_list s \<equiv> ring_list (ready s)"

definition shape :: "'pt kernel \<Rightarrow> bool" where
  "shape s \<longleftrightarrow> table_ok s \<and> length (current s) = MAX_CORES \<and> length (percpu s) = MAX_CORES
    \<and> length (regs s) = MAX_CORES \<and> length (trap_frames s) = MAX_PROCESSES
    \<and> ring_ok MAX_PROCESSES (ready s)
    \<and> (\<forall>c < MAX_CORES. pc_current (percpu s ! c) = opt_raw (current s ! c))"

text \<open>
  A live process carries its own pid; the ready queue holds each ready process exactly once and
  nothing else; a core's current process is live and running, and on no other core.
\<close>

definition view_inv :: "(pid \<Rightarrow> process option) \<Rightarrow> pid list \<Rightarrow> pid option list \<Rightarrow> bool" where
  "view_inv procs rq cur \<longleftrightarrow>
    (\<forall>q p. procs q = Some p \<longrightarrow> pid p = q)
    \<and> distinct rq
    \<and> (\<forall>q \<in> set rq. \<exists>p. procs q = Some p \<and> pstate p = Ready)
    \<and> (\<forall>q p. procs q = Some p \<longrightarrow> pstate p = Ready \<longrightarrow> q \<in> set rq)
    \<and> (\<forall>c < length cur. \<forall>q. cur ! c = Some q \<longrightarrow> (\<exists>p. procs q = Some p \<and> pstate p = Running))
    \<and> (\<forall>c < length cur. \<forall>c' < length cur. \<forall>q. cur ! c = Some q \<longrightarrow> cur ! c' = Some q \<longrightarrow> c = c')"

definition sched_inv :: "'pt kernel \<Rightarrow> bool" where
  "sched_inv s \<longleftrightarrow> shape s \<and> view_inv (occupied s) (ready_list s) (current s)"

text \<open>The same while core \<^term>\<open>c\<close> is about to replace its entry of \<^verbatim>\<open>current\<close>.\<close>

definition sched_inv_but :: "nat \<Rightarrow> 'pt kernel \<Rightarrow> bool" where
  "sched_inv_but c s \<longleftrightarrow> shape s \<and> view_inv (occupied s) (ready_list s) ((current s)[c := None])"

subsection \<open>What the basic operations change\<close>

lemma trace_fields [simp]:
  "processes (record_dispatch_trace c p s) = processes s" "generations (record_dispatch_trace c p s) = generations s"
  "ready (record_dispatch_trace c p s) = ready s" "current (record_dispatch_trace c p s) = current s"
  "percpu (record_dispatch_trace c p s) = percpu s" "regs (record_dispatch_trace c p s) = regs s"
  "trap_frames (record_dispatch_trace c p s) = trap_frames s" "stack_busy (record_dispatch_trace c p s) = stack_busy s"
  "endpoints (record_dispatch_trace c p s) = endpoints s" "mem (record_dispatch_trace c p s) = mem s"
  "user_cs (record_dispatch_trace c p s) = user_cs s" "user_ss (record_dispatch_trace c p s) = user_ss s"
  "process_slot_used (record_dispatch_trace c p s) = process_slot_used s"
  by (simp_all add: record_dispatch_trace_def Let_def)

lemma set_current_fields [simp]:
  "processes (set_current c p s) = processes s" "generations (set_current c p s) = generations s"
  "ready (set_current c p s) = ready s" "current (set_current c p s) = (current s)[c := p]"
  "percpu (set_current c p s) = (percpu s)[c := (percpu s ! c)\<lparr>pc_current := opt_raw p\<rparr>]"
  "regs (set_current c p s) = regs s" "trap_frames (set_current c p s) = trap_frames s"
  "stack_busy (set_current c p s) = stack_busy s" "endpoints (set_current c p s) = endpoints s"
  "mem (set_current c p s) = mem s" "user_cs (set_current c p s) = user_cs s"
  "user_ss (set_current c p s) = user_ss s" "process_slot_used (set_current c p s) = process_slot_used s"
  by (simp_all add: set_current_def)

lemma send_reschedule_fields [simp]:
  "processes (send_reschedule c s) = processes s" "generations (send_reschedule c s) = generations s"
  "ready (send_reschedule c s) = ready s" "current (send_reschedule c s) = current s"
  "percpu (send_reschedule c s) = percpu s" "regs (send_reschedule c s) = regs s"
  "trap_frames (send_reschedule c s) = trap_frames s" "stack_busy (send_reschedule c s) = stack_busy s"
  "endpoints (send_reschedule c s) = endpoints s" "mem (send_reschedule c s) = mem s"
  "user_cs (send_reschedule c s) = user_cs s" "user_ss (send_reschedule c s) = user_ss s"
  "process_slot_used (send_reschedule c s) = process_slot_used s"
  by (simp_all add: send_reschedule_def)

lemma fold_field:
  assumes "\<And>x s. f (g x s) = f s"
  shows "f (fold g xs s) = f s"
  using assms by (induction xs arbitrary: s) auto

lemma notify_fields [simp]:
  "processes (notify_idle_cores s) = processes s" "generations (notify_idle_cores s) = generations s"
  "ready (notify_idle_cores s) = ready s" "current (notify_idle_cores s) = current s"
  "percpu (notify_idle_cores s) = percpu s" "regs (notify_idle_cores s) = regs s"
  "trap_frames (notify_idle_cores s) = trap_frames s" "stack_busy (notify_idle_cores s) = stack_busy s"
  "endpoints (notify_idle_cores s) = endpoints s" "mem (notify_idle_cores s) = mem s"
  "user_cs (notify_idle_cores s) = user_cs s" "user_ss (notify_idle_cores s) = user_ss s"
  "process_slot_used (notify_idle_cores s) = process_slot_used s"
  unfolding notify_idle_cores_def by (rule fold_field; simp)+

lemma put_slot_fields [simp]:
  "processes (put_slot i sl s) = (processes s)[i := sl]" "generations (put_slot i sl s) = generations s"
  "ready (put_slot i sl s) = ready s" "current (put_slot i sl s) = current s"
  "percpu (put_slot i sl s) = percpu s" "regs (put_slot i sl s) = regs s"
  "trap_frames (put_slot i sl s) = trap_frames s" "stack_busy (put_slot i sl s) = stack_busy s"
  "endpoints (put_slot i sl s) = endpoints s" "mem (put_slot i sl s) = mem s"
  "user_cs (put_slot i sl s) = user_cs s" "user_ss (put_slot i sl s) = user_ss s"
  "process_slot_used (put_slot i sl s) = process_slot_used s"
  by (simp_all add: put_slot_def)

lemma put_process_fields [simp]:
  "generations (put_process i p s) = generations s" "length (processes (put_process i p s)) = length (processes s)"
  "ready (put_process i p s) = ready s" "current (put_process i p s) = current s"
  "percpu (put_process i p s) = percpu s" "regs (put_process i p s) = regs s"
  "trap_frames (put_process i p s) = trap_frames s" "stack_busy (put_process i p s) = stack_busy s"
  "endpoints (put_process i p s) = endpoints s" "mem (put_process i p s) = mem s"
  "user_cs (put_process i p s) = user_cs s" "user_ss (put_process i p s) = user_ss s"
  "process_slot_used (put_process i p s) = process_slot_used s"
  by (auto simp: put_process_def split: table_slot.splits)

lemma set_frame_fields [simp]:
  "processes (set_frame i f s) = processes s" "generations (set_frame i f s) = generations s"
  "ready (set_frame i f s) = ready s" "current (set_frame i f s) = current s"
  "percpu (set_frame i f s) = percpu s" "regs (set_frame i f s) = regs s"
  "trap_frames (set_frame i f s) = (trap_frames s)[i := f]" "stack_busy (set_frame i f s) = stack_busy s"
  "endpoints (set_frame i f s) = endpoints s" "mem (set_frame i f s) = mem s"
  "user_cs (set_frame i f s) = user_cs s" "user_ss (set_frame i f s) = user_ss s"
  "process_slot_used (set_frame i f s) = process_slot_used s"
  by (simp_all add: set_frame_def)

lemma push_ready_fields [simp]:
  "processes (push_ready p s) = processes s" "generations (push_ready p s) = generations s"
  "ready (push_ready p s) = snd (ring_push p (ready s))" "current (push_ready p s) = current s"
  "percpu (push_ready p s) = percpu s" "regs (push_ready p s) = regs s"
  "trap_frames (push_ready p s) = trap_frames s" "stack_busy (push_ready p s) = stack_busy s"
  "endpoints (push_ready p s) = endpoints s" "mem (push_ready p s) = mem s"
  "user_cs (push_ready p s) = user_cs s" "user_ss (push_ready p s) = user_ss s"
  "process_slot_used (push_ready p s) = process_slot_used s"
  by (simp_all add: push_ready_def)

lemma remove_ready_fields [simp]:
  "processes (remove_from_ready_queue p s) = processes s" "generations (remove_from_ready_queue p s) = generations s"
  "current (remove_from_ready_queue p s) = current s" "percpu (remove_from_ready_queue p s) = percpu s"
  "regs (remove_from_ready_queue p s) = regs s" "trap_frames (remove_from_ready_queue p s) = trap_frames s"
  "stack_busy (remove_from_ready_queue p s) = stack_busy s" "endpoints (remove_from_ready_queue p s) = endpoints s"
  "mem (remove_from_ready_queue p s) = mem s" "user_cs (remove_from_ready_queue p s) = user_cs s"
  "user_ss (remove_from_ready_queue p s) = user_ss s"
  "process_slot_used (remove_from_ready_queue p s) = process_slot_used s"
  by (simp_all add: remove_from_ready_queue_def)

lemma clear_current_fields [simp]:
  "processes (clear_current_of p s) = processes s" "generations (clear_current_of p s) = generations s"
  "ready (clear_current_of p s) = ready s" "regs (clear_current_of p s) = regs s"
  "trap_frames (clear_current_of p s) = trap_frames s" "stack_busy (clear_current_of p s) = stack_busy s"
  "endpoints (clear_current_of p s) = endpoints s" "mem (clear_current_of p s) = mem s"
  "user_cs (clear_current_of p s) = user_cs s" "user_ss (clear_current_of p s) = user_ss s"
  "process_slot_used (clear_current_of p s) = process_slot_used s"
  unfolding clear_current_of_def by (rule fold_field; simp)+

lemma busy_fields [simp]:
  "processes (mark_stack_busy i s) = processes s" "generations (mark_stack_busy i s) = generations s"
  "ready (mark_stack_busy i s) = ready s" "current (mark_stack_busy i s) = current s"
  "percpu (mark_stack_busy i s) = percpu s" "regs (mark_stack_busy i s) = regs s"
  "trap_frames (mark_stack_busy i s) = trap_frames s" "endpoints (mark_stack_busy i s) = endpoints s"
  "user_cs (mark_stack_busy i s) = user_cs s" "user_ss (mark_stack_busy i s) = user_ss s"
  "processes (clear_outgoing o' s) = processes s" "generations (clear_outgoing o' s) = generations s"
  "ready (clear_outgoing o' s) = ready s" "current (clear_outgoing o' s) = current s"
  "percpu (clear_outgoing o' s) = percpu s" "regs (clear_outgoing o' s) = regs s"
  "trap_frames (clear_outgoing o' s) = trap_frames s" "endpoints (clear_outgoing o' s) = endpoints s"
  "user_cs (clear_outgoing o' s) = user_cs s" "user_ss (clear_outgoing o' s) = user_ss s"
  by (simp_all add: mark_stack_busy_def clear_outgoing_def clear_stack_busy_def split: option.splits)

lemma occupied_unchanged [simp]:
  "occupied (set_current c x s) = occupied s" "occupied (notify_idle_cores s) = occupied s"
  "occupied (set_frame i f s) = occupied s" "occupied (push_ready p s) = occupied s"
  "occupied (remove_from_ready_queue p s) = occupied s" "occupied (clear_current_of p s) = occupied s"
  "occupied (mark_stack_busy i s) = occupied s" "occupied (clear_outgoing o' s) = occupied s"
  "occupied (send_reschedule c s) = occupied s"
  "occupied (s\<lparr>ready := q\<rparr>) = occupied s" "occupied (s\<lparr>regs := rs\<rparr>) = occupied s"
  "occupied (s\<lparr>percpu := ps\<rparr>) = occupied s" "occupied (s\<lparr>mem := m\<rparr>) = occupied s"
  "occupied (s\<lparr>process_slot_used := u\<rparr>) = occupied s" "occupied (s\<lparr>endpoints := es\<rparr>) = occupied s"
  by (rule occupied_cong; simp)+

lemma table_ok_unchanged [simp]:
  "table_ok (set_current c x s) = table_ok s" "table_ok (notify_idle_cores s) = table_ok s"
  "table_ok (set_frame i f s) = table_ok s" "table_ok (push_ready p s) = table_ok s"
  "table_ok (remove_from_ready_queue p s) = table_ok s" "table_ok (clear_current_of p s) = table_ok s"
  "table_ok (mark_stack_busy i s) = table_ok s" "table_ok (clear_outgoing o' s) = table_ok s"
  "table_ok (send_reschedule c s) = table_ok s"
  "table_ok (s\<lparr>ready := q\<rparr>) = table_ok s" "table_ok (s\<lparr>regs := rs\<rparr>) = table_ok s"
  "table_ok (s\<lparr>percpu := ps\<rparr>) = table_ok s" "table_ok (s\<lparr>mem := m\<rparr>) = table_ok s"
  "table_ok (s\<lparr>process_slot_used := u\<rparr>) = table_ok s" "table_ok (s\<lparr>endpoints := es\<rparr>) = table_ok s"
  by (rule table_ok_cong; simp)+

lemma shape_table: "shape s \<Longrightarrow> table_ok s"
  by (simp add: shape_def)

lemma shape_ready: "shape s \<Longrightarrow> ring_ok MAX_PROCESSES (ready s)"
  by (simp add: shape_def)

lemma shape_set_current: "shape s \<Longrightarrow> shape (set_current c p s)"
  by (cases "c < MAX_CORES") (auto simp: shape_def list_update_same_iff list_update_beyond)

lemma shape_put_slot: "shape s \<Longrightarrow> shape (put_slot i sl s)"
  by (simp add: shape_def)

lemma shape_put_process: "shape s \<Longrightarrow> shape (put_process i p s)"
  by (simp add: shape_def)

lemma shape_set_frame: "shape s \<Longrightarrow> shape (set_frame i f s)"
  by (simp add: shape_def)

lemma shape_push_ready: "shape s \<Longrightarrow> shape (push_ready p s)"
  by (simp add: shape_def ring.push_ok)

lemma shape_notify: "shape s \<Longrightarrow> shape (notify_idle_cores s)"
  by (simp add: shape_def)

lemma shape_pop: "shape s \<Longrightarrow> ring_pop (ready s) = (v, q) \<Longrightarrow> shape (s\<lparr>ready := q\<rparr>)"
  using ring.pop_ok [of MAX_PROCESSES "ready s"] by (simp add: shape_def)

lemma shape_regs: "shape s \<Longrightarrow> shape (s\<lparr>regs := (regs s)[c := r]\<rparr>)"
  by (simp add: shape_def)

lemma shape_busy: "shape s \<Longrightarrow> shape (mark_stack_busy i s)" "shape s \<Longrightarrow> shape (clear_outgoing o' s)"
  by (simp_all add: shape_def)

lemma shape_send: "shape s \<Longrightarrow> shape (send_reschedule c s)"
  by (simp add: shape_def)

lemma shape_percpu:
  "shape s \<Longrightarrow> pc_current x = pc_current (percpu s ! c) \<Longrightarrow> shape (s\<lparr>percpu := (percpu s)[c := x]\<rparr>)"
  by (cases "c < MAX_CORES") (auto simp: shape_def list_update_same_iff list_update_beyond)

lemma ready_new: "ring_ok MAX_PROCESSES (ring_new MAX_PROCESSES)"
  by (rule ring.ok_empty)

lemma remove_ready_spec:
  assumes "shape s"
  shows "ring_ok MAX_PROCESSES (ready (remove_from_ready_queue p s))"
    "ready_list (remove_from_ready_queue p s) = filter (\<lambda>q. q \<noteq> p) (ready_list s)"
  using ring_drain_except_spec [OF shape_ready [OF assms] ready_new, of p] ring.bounded [OF shape_ready [OF assms]]
  by (simp_all add: remove_from_ready_queue_def)

lemma shape_remove_ready: "shape s \<Longrightarrow> shape (remove_from_ready_queue p s)"
  using remove_ready_spec(1) [of s p] by (simp add: shape_def)

lemmas shape_intros = shape_set_current shape_put_slot shape_put_process shape_set_frame shape_push_ready
  shape_notify shape_regs shape_busy shape_send shape_remove_ready

lemma clear_current_prefix:
  assumes "shape s" "n \<le> MAX_CORES"
  shows "shape (fold (\<lambda>core s. if current s ! core = Some p then set_current core None s else s) [0..<n] s)
    \<and> (\<forall>c. current (fold (\<lambda>core s. if current s ! core = Some p then set_current core None s else s) [0..<n] s) ! c
        = (if c < n \<and> current s ! c = Some p then None else current s ! c))"
  (is "shape (fold ?step _ s) \<and> _")
  using assms(2)
proof (induction n)
  case (Suc n)
  let ?s = "fold ?step [0..<n] s"
  have IH: "shape ?s" "\<And>c. current ?s ! c = (if c < n \<and> current s ! c = Some p then None else current s ! c)"
    using Suc by auto
  have len: "n < length (current ?s)" using IH(1) Suc.prems by (simp add: shape_def)
  have "fold ?step [0..<Suc n] s = ?step n ?s" by simp
  moreover have "shape (?step n ?s)" using IH(1) by (simp add: shape_set_current)
  moreover have "current (?step n ?s) ! c = (if c < Suc n \<and> current s ! c = Some p then None else current s ! c)" for c
    using IH(2) len by (auto simp: list_update_same_iff)
  ultimately show ?case by simp
qed (simp add: assms(1))

lemma shape_clear_current: "shape s \<Longrightarrow> shape (clear_current_of p s)"
  using clear_current_prefix [of s MAX_CORES p] by (simp add: clear_current_of_def)

lemma clear_current_nth:
  assumes "shape s" "c < MAX_CORES"
  shows "current (clear_current_of p s) ! c = (if current s ! c = Some p then None else current s ! c)"
  using clear_current_prefix [of s MAX_CORES p] assms by (simp add: clear_current_of_def)

lemma shape_current_length: "shape s \<Longrightarrow> length (current s) = MAX_CORES"
  by (simp add: shape_def)

subsection \<open>Counting processes\<close>

lemma occupied_pid_new:
  assumes "occupied s p \<noteq> None"
  shows "p = pid_new (pid_index p) (generations s ! pid_index p)" "pid_index p < MAX_PROCESSES"
  using assms occupied_SomeD [of s p] pid_new_parts [of p] by auto

lemma dom_occupied: "dom (occupied s) \<subseteq> (\<lambda>i. pid_new i (generations s ! i)) ` {..<MAX_PROCESSES}"
  using occupied_pid_new by fastforce

lemma ready_room:
  assumes inv: "view_inv (occupied s) rq cur" and q: "occupied s q \<noteq> None" "q \<notin> set rq"
  shows "length rq < MAX_PROCESSES"
proof -
  have "set (q # rq) \<subseteq> dom (occupied s)" using inv q by (auto simp: view_inv_def)
  then have "set (q # rq) \<subseteq> (\<lambda>i. pid_new i (generations s ! i)) ` {..<MAX_PROCESSES}" using dom_occupied by blast
  then have "card (set (q # rq)) \<le> card {..<MAX_PROCESSES}" by (rule surj_card_le [OF finite_lessThan])
  moreover have "distinct (q # rq)" using inv q by (simp add: view_inv_def)
  ultimately show ?thesis using distinct_card [of "q # rq"] by simp
qed

lemma push_ready_list:
  assumes "shape s" "length (ready_list s) < MAX_PROCESSES"
  shows "ready_list (push_ready p s) = ready_list s @ [p]"
  using ring.push_items [OF shape_ready [OF assms(1)], of p] assms(2) by simp

lemma pop_ready_list:
  assumes "shape s" "ring_pop (ready s) = (Some p, q)"
  shows "ready_list s = p # ring_list q"
  using ring.pop_SomeD [OF shape_ready [OF assms(1)], of p] assms(2) by simp

lemma pop_ready_None:
  assumes "shape s" "ring_pop (ready s) = (None, q)"
  shows "ready_list s = []" "ring_list q = []"
  using ring.pop_law [OF shape_ready [OF assms(1)] assms(2)] by (auto split: list.splits)

subsection \<open>Moves of the abstract scheduler\<close>

text \<open>
  The invariant under the moves a scheduler makes: forgetting what a core runs, dispatching the
  head of the queue, preempting, blocking, waking, creating and removing a process.
\<close>

lemma view_pid: "view_inv O' R C \<Longrightarrow> O' q = Some p \<Longrightarrow> pid p = q"
  by (simp add: view_inv_def)

lemma view_ready: "view_inv O' R C \<Longrightarrow> q \<in> set R \<longleftrightarrow> (\<exists>p. O' q = Some p \<and> pstate p = Ready)"
  by (auto simp: view_inv_def)

lemma view_distinct: "view_inv O' R C \<Longrightarrow> distinct R"
  by (simp add: view_inv_def)

lemma view_current:
  "view_inv O' R C \<Longrightarrow> c < length C \<Longrightarrow> C ! c = Some q \<Longrightarrow> \<exists>p. O' q = Some p \<and> pstate p = Running"
  by (simp add: view_inv_def)

lemma view_current_unique:
  "view_inv O' R C \<Longrightarrow> c < length C \<Longrightarrow> c' < length C \<Longrightarrow> C ! c = Some q \<Longrightarrow> C ! c' = Some q \<Longrightarrow> c = c'"
  unfolding view_inv_def by blast

lemma view_invI:
  assumes "\<And>q p. O' q = Some p \<Longrightarrow> pid p = q" "distinct R"
    "\<And>q. q \<in> set R \<longleftrightarrow> (\<exists>p. O' q = Some p \<and> pstate p = Ready)"
    "\<And>c q. c < length C \<Longrightarrow> C ! c = Some q \<Longrightarrow> \<exists>p. O' q = Some p \<and> pstate p = Running"
    "\<And>c c' q. c < length C \<Longrightarrow> c' < length C \<Longrightarrow> C ! c = Some q \<Longrightarrow> C ! c' = Some q \<Longrightarrow> c = c'"
  shows "view_inv O' R C"
  unfolding view_inv_def using assms by blast

lemma view_forget:
  assumes v: "view_inv O' R C" and len: "length C' = length C"
    and sub: "\<And>c q. c < length C \<Longrightarrow> C' ! c = Some q \<Longrightarrow> C ! c = Some q"
  shows "view_inv O' R C'"
proof (rule view_invI)
  show "\<exists>p. O' q = Some p \<and> pstate p = Running" if "c < length C'" "C' ! c = Some q" for c q
    using view_current [OF v] sub that len by auto
  show "c = c'" if "c < length C'" "c' < length C'" "C' ! c = Some q" "C' ! c' = Some q" for c c' q
    using view_current_unique [OF v, of c c' q] sub that len by auto
qed (use view_pid [OF v] view_distinct [OF v] view_ready [OF v] in auto)

lemma forget_one_nth: "i < length C \<Longrightarrow> C[c := None] ! i = (if i = c then None else C ! i)"
  by (cases "c < length C") (auto simp: nth_list_update)

lemma view_forget_one: "view_inv O' R C \<Longrightarrow> view_inv O' R (C[c := None])"
  by (erule view_forget) (simp_all add: forget_one_nth split: if_splits)

text \<open>Changing one process that no core runs; the queue changes accordingly.\<close>

lemma view_change:
  assumes v: "view_inv O' R C" and p': "pid p' = q"
    and nc: "\<And>c. c < length C \<Longrightarrow> C ! c = Some q \<Longrightarrow> pstate p' = Running"
    and R': "distinct R'" "set R' = (if pstate p' = Ready then insert q (set R) else set R - {q})"
  shows "view_inv (O'(q \<mapsto> p')) R' C"
proof (rule view_invI)
  show "x \<in> set R' \<longleftrightarrow> (\<exists>p. (O'(q \<mapsto> p')) x = Some p \<and> pstate p = Ready)" for x
    using view_ready [OF v, of x] R'(2) by auto
  show "\<exists>p. (O'(q \<mapsto> p')) x = Some p \<and> pstate p = Running" if "c < length C" "C ! c = Some x" for c x
    using view_current [OF v that] nc that by auto
qed (use view_pid [OF v] view_current_unique [OF v] p' R'(1) in \<open>auto split: if_splits\<close>)

lemma view_same_state:
  assumes v: "view_inv O' R C" and O': "O' q = Some p" and p': "pid p' = q" "pstate p' = pstate p"
  shows "view_inv (O'(q \<mapsto> p')) R C"
proof (rule view_change [OF v p'(1)])
  show "pstate p' = Running" if "c < length C" "C ! c = Some q" for c using view_current [OF v that] O' p' by auto
  show "set R = (if pstate p' = Ready then insert q (set R) else set R - {q})"
    using view_ready [OF v, of q] O' p'(2) by auto
qed (rule view_distinct [OF v])

lemma view_not_current:
  "view_inv O' R C \<Longrightarrow> (\<And>p. O' q = Some p \<Longrightarrow> pstate p \<noteq> Running) \<Longrightarrow> c < length C \<Longrightarrow> C ! c \<noteq> Some q"
  using view_current by metis

lemma view_wake:
  assumes v: "view_inv O' R C" and O': "\<And>p. O' q = Some p \<Longrightarrow> pstate p \<noteq> Running" and nr: "q \<notin> set R"
    and p': "pid p' = q" "pstate p' = Ready"
  shows "view_inv (O'(q \<mapsto> p')) (R @ [q]) C"
  using view_not_current [OF v O'] view_distinct [OF v] nr p' by (intro view_change [OF v]) auto

lemma view_park:
  assumes v: "view_inv O' R C" and O': "\<And>p. O' q = Some p \<Longrightarrow> pstate p \<noteq> Running"
    and nr: "q \<notin> set R" and p': "pid p' = q" "pstate p' \<noteq> Ready"
  shows "view_inv (O'(q \<mapsto> p')) R C"
  using view_not_current [OF v O'] view_distinct [OF v] nr p' by (intro view_change [OF v]) auto

lemma view_leave:
  assumes v: "view_inv O' R C" and c: "c < length C" "C ! c = Some q" and p': "pid p' = q"
    and R': "R' = (if pstate p' = Ready then R @ [q] else R)"
  shows "view_inv (O'(q \<mapsto> p')) R' (C[c := None])"
proof -
  obtain p where p: "O' q = Some p" "pstate p = Running" using view_current [OF v c] by blast
  have nr: "q \<notin> set R" using view_ready [OF v, of q] p by auto
  have "C[c := None] ! c' \<noteq> Some q" if "c' < length C" for c'
    using view_current_unique [OF v c(1) that c(2)] c that by (auto simp: nth_list_update)
  then show ?thesis
    using view_distinct [OF v] nr p' R' by (intro view_change [OF view_forget_one [OF v]]) auto
qed

lemma view_dispatch:
  assumes v: "view_inv O' (q # R) (C[c := None])" and c: "c < length C" and O': "O' q = Some p"
  shows "view_inv (O'(q \<mapsto> p\<lparr>pstate := Running\<rparr>)) R (C[c := Some q])"
proof -
  have pr: "pstate p = Ready" and pq: "pid p = q" using view_ready [OF v, of q] view_pid [OF v O'] O' by auto
  have nc: "C[c := None] ! c' \<noteq> Some q" if "c' < length C" for c'
    using view_current [OF v, of c' q] that O' pr by auto
  have v': "view_inv (O'(q \<mapsto> p\<lparr>pstate := Running\<rparr>)) R (C[c := None])"
    using view_distinct [OF v] pq nc by (intro view_change [OF v]) auto
  have at: "C[c := Some q] ! i = (if i = c then Some q else C[c := None] ! i)" if "i < length C" for i
    using c that by (simp add: nth_list_update)
  show ?thesis
  proof (rule view_invI)
    show "\<exists>p'. (O'(q \<mapsto> p\<lparr>pstate := Running\<rparr>)) x = Some p' \<and> pstate p' = Running"
      if "i < length (C[c := Some q])" "C[c := Some q] ! i = Some x" for i x
      using view_current [OF v', of i x] at [of i] that by (cases "i = c") simp_all
    show "i = i'" if "i < length (C[c := Some q])" "i' < length (C[c := Some q])"
      "C[c := Some q] ! i = Some x" "C[c := Some q] ! i' = Some x" for i i' x
      using view_current_unique [OF v', of i i' x] nc [of i] nc [of i'] at [of i] at [of i'] that
      by (cases "i = c"; cases "i' = c") simp_all
  qed (use view_pid [OF v'] view_distinct [OF v'] view_ready [OF v'] in blast)+
qed

lemma view_remove:
  assumes v: "view_inv O' R C" and len: "length C' = length C"
    and C': "\<And>c. c < length C \<Longrightarrow> C' ! c = (if C ! c = Some q then None else C ! c)"
  shows "view_inv (O'(q := None)) (filter (\<lambda>x. x \<noteq> q) R) C'"
proof (rule view_invI)
  have sub: "C ! c = Some x \<and> x \<noteq> q" if "c < length C'" "C' ! c = Some x" for c x
    using C' [of c] that len by (auto split: if_splits)
  show "x \<in> set (filter (\<lambda>x. x \<noteq> q) R) \<longleftrightarrow> (\<exists>p. (O'(q := None)) x = Some p \<and> pstate p = Ready)" for x
    using view_ready [OF v, of x] by simp
  show "\<exists>p. (O'(q := None)) x = Some p \<and> pstate p = Running" if "c < length C'" "C' ! c = Some x" for c x
    using view_current [OF v, of c x] sub [OF that] that len by simp
  show "c = c'" if "c < length C'" "c' < length C'" "C' ! c = Some x" "C' ! c' = Some x" for c c' x
    using view_current_unique [OF v, of c c' x] sub that len by simp
qed (use view_pid [OF v] view_distinct [OF v] in \<open>auto split: if_splits\<close>)

end
