(* ===== verification/Sched_Ops.thy ===== *)
theory Sched_Ops
  imports Sched_Inv
begin

text \<open>
  Every scheduler operation keeps the invariant of theory \<^verbatim>\<open>Sched_Inv\<close>, and what dispatch does on
  every branch: under the invariant none of the consistency assertions of \<^verbatim>\<open>switch_to\<close> can fail, only
  the checks on the saved user frame are left.
\<close>

subsection \<open>Dispatch\<close>

lemma sched_inv_butI: "sched_inv s \<Longrightarrow> sched_inv_but c s"
  by (simp add: sched_inv_def sched_inv_but_def view_forget_one)

lemma sched_inv_but_shape: "sched_inv_but c s \<Longrightarrow> shape s"
  by (simp add: sched_inv_but_def)

lemma sched_inv_shape: "sched_inv s \<Longrightarrow> shape s"
  by (simp add: sched_inv_def)

lemma frame_check_cong:
  "user_cs s = user_cs t \<Longrightarrow> user_ss s = user_ss t \<Longrightarrow> frame_check s f = frame_check t f"
  by (simp add: frame_check_def)

text \<open>The state after a successful dispatch of \<^term>\<open>p\<close> on core \<^term>\<open>c\<close>.\<close>

definition dispatched :: "nat \<Rightarrow> pid \<Rightarrow> nat \<Rightarrow> process \<Rightarrow> 'pt kernel \<Rightarrow> 'pt kernel" where
  "dispatched c p b proc s =
    (let s2 = put_slot (pid_index p) (Occupied b (proc\<lparr>pstate := Running\<rparr>)) (set_current c (Some p) s);
         top = kernel_stack_top p
     in s2\<lparr>regs := (regs s2)[c := \<lparr>cr3 = pml4 proc, rsp0 = top, syscall_stack = top\<rparr>]\<rparr>)"

lemma ready_not_current_elsewhere:
  assumes inv: "sched_inv_but c s" and p: "p \<in> set (ready_list s)" and c: "c' < MAX_CORES" "c' \<noteq> c"
  shows "current s ! c' \<noteq> Some p"
proof
  assume "current s ! c' = Some p"
  then have "(current s)[c := None] ! c' = Some p" using c by simp
  then show False
    using inv p c view_current [of "occupied s" "ready_list s" "(current s)[c := None]" c' p]
      view_ready [of "occupied s" "ready_list s" "(current s)[c := None]" p]
    by (auto simp: sched_inv_but_def shape_def)
qed

lemma switch_to_popped:
  assumes inv: "sched_inv_but c s" and c: "c < MAX_CORES" and pop: "ring_pop (ready s) = (Some p, q)"
  shows "\<exists>b proc. processes s ! pid_index p = Occupied b proc \<and> occupied s p = Some proc \<and> pstate proc = Ready
    \<and> switch_to c p (s\<lparr>ready := q\<rparr>) =
      (case frame_check s (trap_frames s ! pid_index p) of
         Some e \<Rightarrow> Inl e
       | None \<Rightarrow> Inr (pid_index p, dispatched c p b proc (s\<lparr>ready := q\<rparr>)))"
proof -
  have sh: "shape s" and v: "view_inv (occupied s) (ready_list s) ((current s)[c := None])"
    using inv by (auto simp: sched_inv_but_def)
  have rl: "ready_list s = p # ring_list q" by (rule pop_ready_list [OF sh pop])
  then obtain proc where proc: "occupied s p = Some proc" "pstate proc = Ready"
    using view_ready [OF v, of p] by auto
  obtain b where b: "processes s ! pid_index p = Occupied b proc" using occupied_SomeD [OF proc(1)] by blast
  have pidp: "pid proc = p" by (rule view_pid [OF v proc(1)])
  have nodup: "\<not> list_ex (\<lambda>other. other \<noteq> c \<and> current s ! other = Some p) [0..<MAX_CORES]"
    using ready_not_current_elsewhere [OF inv] rl by (auto simp: list_ex_iff)
  have lens: "c < length (current s)" "c < length (regs s)" "pid_index p < length (processes s)"
    using sh c occupied_SomeD(1) [OF proc(1)] by (auto simp: shape_def table_ok_def)
  let ?s3 = "dispatched c p b proc (s\<lparr>ready := q\<rparr>)"
  have fc: "frame_check ?s3 f = frame_check s f" for f
    by (rule frame_check_cong) (simp_all add: dispatched_def Let_def)
  have "switch_to c p (s\<lparr>ready := q\<rparr>) =
      (case frame_check ?s3 (trap_frames s ! pid_index p) of
         Some e \<Rightarrow> Inl e | None \<Rightarrow> Inr (pid_index p, ?s3))"
    using nodup lens b pidp occupied_SomeD(1,2) [OF proc(1)]
    by (simp add: switch_to_def Let_def dispatched_def not_le cong: option.case_cong)
  then show ?thesis using b proc by (auto simp: fc)
qed

lemma dispatched_inv:
  assumes inv: "sched_inv_but c s" and c: "c < MAX_CORES" and pop: "ring_pop (ready s) = (Some p, q)"
    and proc: "processes s ! pid_index p = Occupied b proc" "occupied s p = Some proc"
  shows "sched_inv (dispatched c p b proc (s\<lparr>ready := q\<rparr>))"
proof -
  have sh: "shape s" and v: "view_inv (occupied s) (ready_list s) ((current s)[c := None])"
    using inv by (auto simp: sched_inv_but_def)
  let ?s1 = "s\<lparr>ready := q\<rparr>"
  have sh1: "shape ?s1" by (rule shape_pop [OF sh pop])
  have sh2: "shape (dispatched c p b proc ?s1)"
    unfolding dispatched_def Let_def by (intro shape_regs shape_put_slot shape_set_current sh1)
  have occ: "occupied (dispatched c p b proc ?s1) = (occupied s)(p \<mapsto> proc\<lparr>pstate := Running\<rparr>)"
    using occupied_put_slot [OF shape_table [OF shape_set_current [OF sh1]] occupied_SomeD(1) [OF proc(2)]]
      occupied_SomeD(2) [OF proc(2)] pid_new_parts [of p]
    by (simp add: dispatched_def Let_def)
  have "view_inv (occupied s) (p # ring_list q) ((current s)[c := None])"
    using v pop_ready_list [OF sh pop] by simp
  then have "view_inv ((occupied s)(p \<mapsto> proc\<lparr>pstate := Running\<rparr>)) (ring_list q) ((current s)[c := Some p])"
    by (rule view_dispatch) (use c sh proc in \<open>simp_all add: shape_def\<close>)
  then show ?thesis
    using sh2 occ by (simp add: sched_inv_def) (simp add: dispatched_def Let_def)
qed

lemma switch_to_inv:
  assumes inv: "sched_inv_but c s" and c: "c < MAX_CORES" and pop: "ring_pop (ready s) = (Some p, q)"
    and sw: "switch_to c p (s\<lparr>ready := q\<rparr>) = Inr (i, s')"
  shows "sched_inv s'" "i = pid_index p"
proof -
  obtain b proc where b: "processes s ! pid_index p = Occupied b proc" "occupied s p = Some proc"
    "switch_to c p (s\<lparr>ready := q\<rparr>) =
      (case frame_check s (trap_frames s ! pid_index p) of
         Some e \<Rightarrow> Inl e
       | None \<Rightarrow> Inr (pid_index p, dispatched c p b proc (s\<lparr>ready := q\<rparr>)))"
    using switch_to_popped [OF inv c pop] by blast
  then show "sched_inv s'" "i = pid_index p"
    using sw dispatched_inv [OF inv c pop b(1,2)] by (auto split: option.splits)
qed

subsection \<open>Preemption\<close>

lemma preempt_current_inv:
  assumes inv: "sched_inv s" and c: "c < MAX_CORES"
  shows "\<exists>s'. preempt_current c f s = Inr s' \<and> sched_inv_but c s' \<and> user_cs s' = user_cs s \<and> user_ss s' = user_ss s
    \<and> trap_frames s' = (case current s ! c of None \<Rightarrow> trap_frames s | Some p \<Rightarrow> (trap_frames s)[pid_index p := f])
    \<and> ready_list s' = (case current s ! c of None \<Rightarrow> ready_list s | Some p \<Rightarrow> ready_list s @ [p])"
proof (cases "current s ! c")
  case None
  then show ?thesis using inv sched_inv_butI [OF inv] by (simp add: preempt_current_def)
next
  case (Some p)
  have sh: "shape s" and v: "view_inv (occupied s) (ready_list s) (current s)"
    using inv by (auto simp: sched_inv_def)
  have cl: "c < length (current s)" using sh c by (simp add: shape_def)
  obtain proc where proc: "occupied s p = Some proc" "pstate proc = Running"
    using view_current [OF v cl Some] by blast
  obtain b where b: "processes s ! pid_index p = Occupied b proc" using occupied_SomeD [OF proc(1)] by blast
  have pidp: "pid proc = p" by (rule view_pid [OF v proc(1)])
  let ?s1 = "s\<lparr>percpu := (percpu s)[c := (percpu s ! c)\<lparr>preempt_count := preempt_count (percpu s ! c) + 1\<rparr>]\<rparr>"
  let ?s2 = "put_slot (pid_index p) (Occupied b (proc\<lparr>pstate := Ready\<rparr>)) (set_frame (pid_index p) f ?s1)"
  let ?s3 = "push_ready p ?s2"
  have eq: "preempt_current c f s = Inr ?s3"
    using Some b pidp occupied_SomeD(1) [OF proc(1)] by (simp add: preempt_current_def Let_def not_le)
  have "shape ?s1" by (rule shape_percpu [OF sh]) simp
  then have sh2: "shape ?s2" by (intro shape_put_slot shape_set_frame)
  have "p \<notin> set (ready_list s)" using view_ready [OF v, of p] proc by auto
  then have room: "length (ready_list ?s2) < MAX_PROCESSES" using ready_room [OF v, of p] proc(1) by simp
  have rl: "ready_list ?s3 = ready_list s @ [p]" using push_ready_list [OF sh2 room] by simp
  have occ: "occupied ?s3 = (occupied s)(p \<mapsto> proc\<lparr>pstate := Ready\<rparr>)"
    using occupied_put_slot [OF shape_table [OF sh], of "pid_index p"] occupied_SomeD(1,2) [OF proc(1)] pid_new_parts [of p]
      occupied_cong [of ?s3 "put_slot (pid_index p) (Occupied b (proc\<lparr>pstate := Ready\<rparr>)) s"]
    by simp
  have "view_inv ((occupied s)(p \<mapsto> proc\<lparr>pstate := Ready\<rparr>)) (ready_list s @ [p]) ((current s)[c := None])"
    by (rule view_leave [OF v cl Some]) (simp_all add: pidp)
  then have "sched_inv_but c ?s3"
    using shape_push_ready [OF sh2] occ rl by (simp add: sched_inv_but_def)
  then show ?thesis using eq rl Some by (intro exI [of _ ?s3]) simp
qed

lemma on_timer_tick_inv:
  assumes inv: "sched_inv s" and c: "c < MAX_CORES" and t: "on_timer_tick c f s = Inr (r, s')"
  shows "sched_inv s'"
proof -
  obtain s1 where s1: "preempt_current c f s = Inr s1" "sched_inv_but c s1"
    "ready_list s1 = (case current s ! c of None \<Rightarrow> ready_list s | Some p \<Rightarrow> ready_list s @ [p])"
    using preempt_current_inv [OF inv c] by blast
  obtain v q where pop: "ring_pop (ready s1) = (v, q)" by fastforce
  show ?thesis
  proof (cases v)
    case (Some p)
    then obtain i where "switch_to c p (s1\<lparr>ready := q\<rparr>) = Inr (i, s')"
      using t s1 pop by (auto simp: on_timer_tick_def sbind_Inr_iff)
    then show ?thesis using switch_to_inv [OF s1(2) c] pop Some by blast
  next
    case None
    then have e: "ready_list s1 = []" "ring_list q = []"
      using pop_ready_None [OF sched_inv_but_shape [OF s1(2)]] pop by auto
    then have "current s ! c = None" using s1(3) by (simp split: option.splits)
    then have "s1 = s" using s1(1) by (simp add: preempt_current_def)
    moreover have "s' = s1\<lparr>ready := q\<rparr>" using t s1 pop None by (simp add: on_timer_tick_def)
    ultimately show ?thesis
      using inv e pop None shape_pop [of s] by (simp add: sched_inv_def)
  qed
qed

subsection \<open>Waking and blocking\<close>

lemma sched_invD:
  assumes "sched_inv s"
  shows "shape s" "view_inv (occupied s) (ready_list s) (current s)" "table_ok s"
    "length (current s) = MAX_CORES"
  using assms by (auto simp: sched_inv_def shape_def)

lemma sched_inv_live:
  assumes "sched_inv s" "occupied s p = Some proc"
  obtains b where "processes s ! pid_index p = Occupied b proc" "pid proc = p" "pid_index p < MAX_PROCESSES"
    "generations s ! pid_index p = pid_generation p"
  using occupied_SomeD [OF assms(2)] view_pid [OF sched_invD(2) [OF assms(1)] assms(2)] by blast

lemma sched_inv_current:
  assumes "sched_inv s" "c < MAX_CORES" "current s ! c = Some p"
  obtains proc where "occupied s p = Some proc" "pstate proc = Running"
  using view_current [OF sched_invD(2) [OF assms(1)]] assms sched_invD(4) [OF assms(1)] by metis

text \<open>Writing a live process back with its state unchanged.\<close>

lemma put_process_same_inv:
  assumes inv: "sched_inv s" and live: "occupied s p = Some proc"
    and p': "pid proc' = pid proc" "pstate proc' = pstate proc"
  shows "sched_inv (put_process (pid_index p) proc' s)"
proof -
  note D = sched_invD [OF inv]
  have "view_inv ((occupied s)(p \<mapsto> proc')) (ready_list s) (current s)"
    using view_same_state [OF D(2) live] p' view_pid [OF D(2) live] by simp
  then show ?thesis
    using D by (simp add: sched_inv_def shape_put_process occupied_put_process [OF D(3) live])
qed

lemma put_slot_put_process:
  assumes "sched_inv s" "occupied s p = Some proc" "processes s ! pid_index p = Occupied b proc"
  shows "put_slot (pid_index p) (Occupied b proc') s = put_process (pid_index p) proc' s"
  by (simp add: put_process_put_slot [OF assms(3)])

text \<open>A live process that no core runs becomes ready and is queued.\<close>

lemma make_ready_inv:
  assumes sh: "shape s" and v: "view_inv (occupied s) (ready_list s) (current s)"
    and live: "occupied s p = Some proc" "pstate proc \<noteq> Running" "pstate proc \<noteq> Ready"
    and p': "pid proc' = p" "pstate proc' = Ready"
  shows "sched_inv (push_ready p (put_process (pid_index p) proc' s))"
    "ready_list (push_ready p (put_process (pid_index p) proc' s)) = ready_list s @ [p]"
proof -
  let ?s1 = "put_process (pid_index p) proc' s"
  have nr: "p \<notin> set (ready_list s)" using view_ready [OF v, of p] live by auto
  have sh1: "shape ?s1" by (rule shape_put_process [OF sh])
  show rl: "ready_list (push_ready p ?s1) = ready_list s @ [p]"
    using push_ready_list [OF sh1] ready_room [OF v, of p] nr live(1) by simp
  have "view_inv ((occupied s)(p \<mapsto> proc')) (ready_list s @ [p]) (current s)"
    by (rule view_wake [OF v _ nr p']) (use live in auto)
  then show "sched_inv (push_ready p ?s1)"
    using shape_push_ready [OF sh1, of p] occupied_put_process [OF shape_table [OF sh] live(1), of proc'] rl
    by (simp add: sched_inv_def del: push_ready_fields(3))
qed

lemma sched_inv_cong:
  assumes "processes s = processes t" "generations s = generations t" "ready s = ready t" "current s = current t"
    "length (percpu s) = length (percpu t)" "\<And>c. c < MAX_CORES \<Longrightarrow> pc_current (percpu s ! c) = pc_current (percpu t ! c)"
    "length (regs s) = length (regs t)" "length (trap_frames s) = length (trap_frames t)"
  shows "sched_inv s = sched_inv t"
proof -
  have "occupied s = occupied t" using assms(1,2) by (rule occupied_cong)
  moreover have "shape s = shape t" using assms by (simp add: shape_def table_ok_def)
  ultimately show ?thesis using assms by (simp add: sched_inv_def)
qed

lemma notify_inv [simp]: "sched_inv (notify_idle_cores s) = sched_inv s"
  by (rule sched_inv_cong) simp_all

lemma set_frame_inv [simp]: "sched_inv (set_frame i f s) = sched_inv s"
  by (rule sched_inv_cong) simp_all

lemma put_process_set_frame: "put_process i p (set_frame j f s) = set_frame j f (put_process i p s)"
  by (auto simp: put_process_def set_frame_def split: table_slot.splits)

lemma push_ready_set_frame: "push_ready p (set_frame j f s) = set_frame j f (push_ready p s)"
  by (simp add: push_ready_def set_frame_def)

lemma wake_locked_inv:
  assumes inv: "sched_inv s"
  shows "sched_inv (wake_blocked_process_locked p result s)"
proof (cases "occupied s p")
  case None
  then show ?thesis using inv by (simp add: wake_blocked_process_locked_def)
next
  case (Some proc)
  note D = sched_invD [OF inv]
  show ?thesis
  proof (cases "pstate proc = Blocked")
    case False
    then show ?thesis
      using Some put_process_same_inv [OF inv Some, of "proc\<lparr>pending_wake := Some result\<rparr>"]
      by (simp add: wake_blocked_process_locked_def)
  next
    case True
    then show ?thesis
      using make_ready_inv(1) [OF D(1,2) Some, of "proc\<lparr>pstate := Ready\<rparr>"] view_pid [OF D(2) Some] Some
      by (simp add: wake_blocked_process_locked_def apply_wake_result_def put_process_set_frame push_ready_set_frame)
  qed
qed

lemma wake_locked_result:
  assumes "sched_inv s" "occupied s p = Some proc" "pstate proc = Blocked"
  shows "occupied (wake_blocked_process_locked p result s) = (occupied s)(p \<mapsto> proc\<lparr>pstate := Ready\<rparr>)"
    "ready_list (wake_blocked_process_locked p result s) = ready_list s @ [p]"
    "trap_frames (wake_blocked_process_locked p result s)
      = (trap_frames s)[pid_index p := wake_frame result (trap_frames s ! pid_index p)]"
proof -
  note D = sched_invD [OF assms(1)]
  have pidp: "pid proc = p" by (rule view_pid [OF D(2) assms(2)])
  have eq: "wake_blocked_process_locked p result s =
      notify_idle_cores (set_frame (pid_index p) (wake_frame result (trap_frames s ! pid_index p))
        (push_ready p (put_process (pid_index p) (proc\<lparr>pstate := Ready\<rparr>) s)))"
    using assms(2,3) pidp
    by (simp add: wake_blocked_process_locked_def apply_wake_result_def put_process_set_frame push_ready_set_frame)
  show "occupied (wake_blocked_process_locked p result s) = (occupied s)(p \<mapsto> proc\<lparr>pstate := Ready\<rparr>)"
    unfolding eq using occupied_put_process [OF D(3) assms(2)] by simp
  show "ready_list (wake_blocked_process_locked p result s) = ready_list s @ [p]"
    using make_ready_inv(2) [OF D(1,2) assms(2), of "proc\<lparr>pstate := Ready\<rparr>"] assms(3) pidp
    unfolding eq by simp
  show "trap_frames (wake_blocked_process_locked p result s)
      = (trap_frames s)[pid_index p := wake_frame result (trap_frames s ! pid_index p)]"
    unfolding eq by simp
qed

lemma wake_process_inv [inv_intros]: "sched_inv s \<Longrightarrow> sched_inv (wake_blocked_process p result s)"
  by (simp add: wake_blocked_process_def wake_locked_inv)

text \<open>What blocking does: the process leaves its core; a wake that came first is applied at once.\<close>

definition blocked_process :: "process \<Rightarrow> process" where
  "blocked_process proc =
    (case pending_wake proc of
       None \<Rightarrow> proc\<lparr>pstate := Blocked\<rparr>
     | Some _ \<Rightarrow> proc\<lparr>pending_wake := None, pstate := Ready\<rparr>)"

definition blocked_frame :: "process \<Rightarrow> trap_frame \<Rightarrow> trap_frame" where
  "blocked_frame proc f = (case pending_wake proc of None \<Rightarrow> f | Some result \<Rightarrow> wake_frame result f)"

lemma push_ready_put_slot: "push_ready p (put_slot i sl s) = put_slot i sl (push_ready p s)"
  by (simp add: push_ready_def put_slot_def)

lemma block_locked_spec:
  assumes inv: "sched_inv s" and c: "c < MAX_CORES" and cur: "current s ! c = Some p"
    and live: "occupied s p = Some proc"
  obtains s' where "block_current_process_locked c f s = Inr s'" "sched_inv s'"
    "occupied s' = (occupied s)(p \<mapsto> blocked_process proc)"
    "trap_frames s' = (trap_frames s)[pid_index p := blocked_frame proc f]"
    "ready_list s' = (if pending_wake proc = None then ready_list s else ready_list s @ [p])"
    "current s' = (current s)[c := None]" "user_cs s' = user_cs s" "user_ss s' = user_ss s"
    "endpoints s' = endpoints s" "mem s' = mem s" "generations s' = generations s" "stack_busy s' = stack_busy s"
proof -
  note D = sched_invD [OF inv]
  have cl: "c < length (current s)" using D(4) c by simp
  obtain b where b: "processes s ! pid_index p = Occupied b proc" "pid proc = p" "pid_index p < MAX_PROCESSES"
    "generations s ! pid_index p = pid_generation p"
    using sched_inv_live [OF inv live] by blast
  have run: "pstate proc = Running" using view_current [OF D(2) cl cur] live by auto
  have nr: "p \<notin> set (ready_list s)" using view_ready [OF D(2), of p] live run by auto
  have il: "pid_index p < length (processes s)" "pid_index p < length (trap_frames s)"
    using D(1) b(3) by (auto simp: shape_def table_ok_def)
  let ?t = "put_slot (pid_index p) (Occupied b (blocked_process proc)) (set_frame (pid_index p) (blocked_frame proc f) s)"
  let ?r = "if pending_wake proc = None then ?t else notify_idle_cores (push_ready p ?t)"
  have eq: "block_current_process_locked c f s = Inr (set_current c None ?r)"
    using cur b il
    by (auto simp: block_current_process_locked_def Let_def apply_wake_result_def put_process_def put_slot_def
        set_frame_def blocked_process_def blocked_frame_def push_ready_def split: option.splits)
  have sht: "shape ?t" using D(1) by (intro shape_put_slot shape_set_frame)
  have occ: "occupied ?r = (occupied s)(p \<mapsto> blocked_process proc)"
    using occupied_put_slot [OF shape_table [OF shape_set_frame [OF D(1)]] b(3)] b(4) pid_new_parts [of p] by auto
  have rl: "ready_list ?r = (if pending_wake proc = None then ready_list s else ready_list s @ [p])"
    using push_ready_list [OF sht, of p] ready_room [OF D(2), of p] nr live by auto
  have "view_inv ((occupied s)(p \<mapsto> blocked_process proc))
      (if pending_wake proc = None then ready_list s else ready_list s @ [p]) ((current s)[c := None])"
    by (rule view_leave [OF D(2) cl cur]) (auto simp: blocked_process_def b(2) split: option.splits)
  moreover have "shape (set_current c None ?r)"
    using sht by (auto intro!: shape_set_current shape_notify shape_push_ready)
  ultimately have "sched_inv (set_current c None ?r)"
    using occ rl by (auto simp: sched_inv_def)
  then show thesis using that [OF eq] occ rl by auto
qed

lemma block_locked_inv:
  assumes inv: "sched_inv s" and c: "c < MAX_CORES"
  shows "\<exists>s'. block_current_process_locked c f s = Inr s' \<and> sched_inv s'"
proof (cases "current s ! c")
  case None
  then show ?thesis using inv by (simp add: block_current_process_locked_def)
next
  case (Some p)
  obtain proc where "occupied s p = Some proc" using sched_inv_current [OF inv c Some] by blast
  then show ?thesis using block_locked_spec [OF inv c Some] by blast
qed

subsection \<open>Leaving a core\<close>

text \<open>Dropping boxes, releasing a stack and switching to the idle space leave the scheduler's view alone.\<close>

lemma drop_boxes_fields:
  "drop_boxes pg ds s = Inr s' \<Longrightarrow> processes s' = processes s \<and> generations s' = generations s \<and> ready s' = ready s
     \<and> current s' = current s \<and> percpu s' = percpu s \<and> regs s' = regs s \<and> trap_frames s' = trap_frames s
     \<and> endpoints s' = endpoints s \<and> user_cs s' = user_cs s \<and> user_ss s' = user_ss s \<and> stack_busy s' = stack_busy s"
proof (induction ds arbitrary: s)
  case (Cons d ds)
  obtain m where m: "drop_address_space pg (pml4 (snd d)) (mem s) = Some m"
    and r: "drop_boxes pg ds (free_process_slot (fst d) (s\<lparr>mem := m\<rparr>)) = Inr s'"
    using Cons.prems by (auto simp: drop_box_def sbind_Inr_iff split: option.splits)
  then show ?case using Cons.IH [OF r] by (simp add: free_process_slot_def)
qed simp

lemma drop_boxes_inv: "drop_boxes pg ds s = Inr s' \<Longrightarrow> sched_inv s' = sched_inv s"
  by (rule sched_inv_cong) (auto dest: drop_boxes_fields)

lemma outgoing_inv [simp]: "sched_inv (clear_outgoing out s) = sched_inv s" "sched_inv (mark_stack_busy i s) = sched_inv s"
  by (rule sched_inv_cong; simp)+

lemma idle_space_inv [simp]: "sched_inv (activate_idle_address_space c s) = sched_inv s"
  by (rule sched_inv_cong) (simp_all add: activate_idle_address_space_def)

lemma evict_request_inv [simp]: "sched_inv (set_evict_request c w s) = sched_inv s"
proof (rule sched_inv_cong)
  show "pc_current (percpu (set_evict_request c w s) ! i) = pc_current (percpu s ! i)" for i
    by (cases "c < length (percpu s)") (auto simp: set_evict_request_def list_update_same_iff list_update_beyond)
qed (simp_all add: set_evict_request_def)

lemma send_reschedule_inv [simp]: "sched_inv (send_reschedule c s) = sched_inv s"
  by (rule sched_inv_cong) simp_all

lemma sched_inv_pop_None: "sched_inv s \<Longrightarrow> ring_pop (ready s) = (None, q) \<Longrightarrow> sched_inv (s\<lparr>ready := q\<rparr>)"
  using pop_ready_None [OF sched_invD(1)] shape_pop [OF sched_invD(1)] sched_invD(2)
  by (fastforce simp: sched_inv_def)

lemma switch_next_inv:
  assumes inv: "sched_inv s" and c: "c < MAX_CORES"
    and r: "switch_to_next_or_halt pg c out drops s = Inr (r, s')"
  shows "sched_inv s'"
proof -
  obtain v q where pop: "ring_pop (ready s) = (v, q)" by fastforce
  show ?thesis
  proof (cases v)
    case None
    then have "sched_inv (s\<lparr>ready := q\<rparr>)" using sched_inv_pop_None [OF inv] pop by simp
    then show ?thesis
      using r pop None
      by (auto simp: switch_to_next_or_halt_def abandon_process_stack_and_idle_def sbind_Inr_iff dest!: drop_boxes_inv)
  next
    case (Some p)
    then obtain i s1 s2 where s1: "switch_to c p (s\<lparr>ready := q\<rparr>) = Inr (i, s1)" "drop_boxes pg drops s1 = Inr s2"
      "s' = clear_outgoing out s2"
      using r pop by (auto simp: switch_to_next_or_halt_def finish_switch_def sbind_Inr_iff)
    have "sched_inv s1" using switch_to_inv(1) [OF sched_inv_butI [OF inv] c] pop Some s1(1) by blast
    then show ?thesis using drop_boxes_inv [OF s1(2)] s1(3) by simp
  qed
qed

lemma block_process_inv:
  assumes "sched_inv s" "c < MAX_CORES" "block_current_process pg c f s = Inr (r, s')"
  shows "sched_inv s'"
proof -
  obtain s1 where "block_current_process_locked c f s = Inr s1" "sched_inv s1"
    using block_locked_inv [OF assms(1,2)] by blast
  then show ?thesis using assms(3) switch_next_inv [OF _ assms(2)] by (auto simp: block_current_process_def)
qed

lemma idle_turn_inv:
  assumes "sched_inv s" "c < MAX_CORES" "idle_turn c h s = Inr (r, s')"
  shows "sched_inv s'"
proof -
  obtain v q where pop: "ring_pop (ready s) = (v, q)" by fastforce
  show ?thesis
    using assms(3) pop sched_inv_pop_None [OF assms(1)] switch_to_inv(1) [OF sched_inv_butI [OF assms(1)] assms(2)]
    by (cases v) (auto simp: idle_turn_def sbind_Inr_iff)
qed

subsection \<open>Creating processes\<close>

lemma find_SomeD: "List.find P xs = Some x \<Longrightarrow> P x \<and> x \<in> set xs"
  by (induction xs) (auto split: if_splits)

lemma find_NoneD: "List.find P xs = None \<Longrightarrow> x \<in> set xs \<Longrightarrow> \<not> P x"
  by (simp add: find_None_iff)

text \<open>A reserved slot belongs to the pid that \<^verbatim>\<open>allocate_pid\<close> returned.\<close>

definition reserved_for :: "'pt kernel \<Rightarrow> pid \<Rightarrow> bool" where
  "reserved_for s p \<longleftrightarrow> pid_index p < MAX_PROCESSES \<and> generations s ! pid_index p = pid_generation p
    \<and> processes s ! pid_index p = Reserved"

lemma index_pid_new [simp]: "i < MAX_PROCESSES \<Longrightarrow> pid_index (pid_new i g) = i"
  "i < MAX_PROCESSES \<Longrightarrow> pid_generation (pid_new i g) = g"
  by (simp_all add: MAX_PROCESSES_def)

lemma allocate_pid_cases:
  obtains (Full) "allocate_pid s = (pid_new MAX_PROCESSES 0, s)" "\<And>i. i < MAX_PROCESSES \<Longrightarrow> \<not> slot_allocatable s i"
  | (Got) i where "i < MAX_PROCESSES" "slot_allocatable s i"
      "allocate_pid s = (pid_new i (generations s ! i + 1),
         s\<lparr>generations := (generations s)[i := generations s ! i + 1], processes := (processes s)[i := Reserved]\<rparr>)"
proof (cases "List.find (slot_allocatable s) [0..<MAX_PROCESSES]")
  case None
  then show thesis using that(1) find_NoneD [OF None] by (simp add: allocate_pid_def)
next
  case (Some i)
  then show thesis using that(2) [of i] find_SomeD [OF Some] by (simp add: allocate_pid_def Let_def)
qed

lemma allocate_pid_occupied:
  assumes "table_ok s"
  shows "occupied (snd (allocate_pid s)) = occupied s"
proof (cases rule: allocate_pid_cases [of s])
  case (Got i)
  have "occupied (snd (allocate_pid s)) q = occupied s q" for q
    using Got assms
    by (cases "pid_index q = i") (auto simp: occupied_def Let_def table_ok_def slot_allocatable_def list_update_same_iff)
  then show ?thesis by blast
qed simp

lemma allocate_pid_inv:
  assumes inv: "sched_inv s" and a: "allocate_pid s = (p, s')"
  shows "sched_inv s'" "pid_index p < MAX_PROCESSES \<Longrightarrow> reserved_for s' p"
proof -
  note D = sched_invD [OF inv]
  have occ: "occupied s' = occupied s" using allocate_pid_occupied [OF D(3)] a by (metis snd_conv)
  show "sched_inv s'"
  proof (cases rule: allocate_pid_cases [of s])
    case Full
    then show ?thesis using inv a by simp
  next
    case (Got i)
    then have s': "s' = s\<lparr>generations := (generations s)[i := generations s ! i + 1], processes := (processes s)[i := Reserved]\<rparr>"
      using a by simp
    have "shape s'" using D(1) by (simp add: s' shape_def table_ok_def)
    then show ?thesis using D(2) occ by (simp add: sched_inv_def) (simp add: s')
  qed
  assume i: "pid_index p < MAX_PROCESSES"
  show "reserved_for s' p"
  proof (cases rule: allocate_pid_cases [of s])
    case Full
    then show ?thesis using i a by (simp add: MAX_PROCESSES_def)
  next
    case (Got i)
    then show ?thesis using a D(3) by (auto simp: reserved_for_def table_ok_def)
  qed
qed

lemma sched_inv_not_occupied_slot:
  assumes "sched_inv s" "i < MAX_PROCESSES" "\<forall>b proc. processes s ! i \<noteq> Occupied b proc" "\<forall>b proc. sl \<noteq> Occupied b proc"
  shows "sched_inv (put_slot i sl s)"
proof -
  note D = sched_invD [OF assms(1)]
  have "occupied s (pid_new i (generations s ! i)) = None"
    using assms(2,3) by (auto simp: occupied_def Let_def split: table_slot.splits)
  then have "occupied (put_slot i sl s) = occupied s"
    using occupied_put_slot [OF D(3) assms(2), of sl] assms(4) by (auto split: table_slot.splits)
  then show ?thesis using D shape_put_slot by (simp add: sched_inv_def)
qed

lemma release_reservation_inv [inv_intros]: "sched_inv s \<Longrightarrow> sched_inv (release_reservation p s)"
  by (auto simp: release_reservation_def Let_def intro!: sched_inv_not_occupied_slot)

lemma slot_used_inv [simp]: "sched_inv (s\<lparr>process_slot_used := u\<rparr>) = sched_inv s"
  by (rule sched_inv_cong) simp_all

lemma mem_inv [simp]: "sched_inv (s\<lparr>mem := m\<rparr>) = sched_inv s"
  by (rule sched_inv_cong) simp_all

lemma alloc_process_slot_SomeD:
  "alloc_process_slot s = Inr (b, s1) \<Longrightarrow> s1 = s\<lparr>process_slot_used := (process_slot_used s)[b := True]\<rparr>"
  by (auto simp: alloc_process_slot_def split: option.splits)

text \<open>Filling a reserved slot.\<close>

lemma fill_reserved:
  assumes inv: "sched_inv s" and res: "reserved_for s (pid proc)"
  shows "occupied (put_slot (pid_index (pid proc)) (Occupied b proc) s) = (occupied s)(pid proc \<mapsto> proc)"
    "occupied s (pid proc) = None" "pid proc \<notin> set (ready_list s)"
    "length (ready_list s) < MAX_PROCESSES"
proof -
  note D = sched_invD [OF inv]
  let ?s' = "put_slot (pid_index (pid proc)) (Occupied b proc) s"
  show occ: "occupied ?s' = (occupied s)(pid proc \<mapsto> proc)"
    using occupied_put_slot [OF D(3), of "pid_index (pid proc)"] res pid_new_parts [of "pid proc"]
    by (simp add: reserved_for_def)
  show none: "occupied s (pid proc) = None" using res by (simp add: reserved_for_def occupied_def Let_def)
  show nr: "pid proc \<notin> set (ready_list s)" using view_ready [OF D(2), of "pid proc"] none by simp
  have "set (ready_list s) \<subseteq> dom (occupied s)" using view_ready [OF D(2)] by auto
  then have "set (pid proc # ready_list s) \<subseteq> dom (occupied ?s')" using occ by auto
  then have "set (pid proc # ready_list s) \<subseteq> (\<lambda>i. pid_new i (generations ?s' ! i)) ` {..<MAX_PROCESSES}"
    using dom_occupied by blast
  then have "card (set (pid proc # ready_list s)) \<le> card {..<MAX_PROCESSES}" by (rule surj_card_le [OF finite_lessThan])
  then show "length (ready_list s) < MAX_PROCESSES"
    using distinct_card [of "pid proc # ready_list s"] nr view_distinct [OF D(2)] by simp
qed

lemma spawn_suspended_inv:
  assumes inv: "sched_inv s" and res: "pid_index (pid proc) < MAX_PROCESSES \<Longrightarrow> reserved_for s (pid proc)"
    and st: "pstate proc = Suspended" and sp: "spawn_suspended pg proc s = Inr (r, s')"
  shows "sched_inv s'"
proof (cases "pid_index (pid proc) < MAX_PROCESSES")
  case False
  then show ?thesis using inv sp by (auto simp: spawn_suspended_def refuse_def Let_def split: option.splits)
next
  case True
  then obtain b s1 where a: "alloc_process_slot s = Inr (b, s1)"
    and s': "s' = put_slot (pid_index (pid proc)) (Occupied b proc) s1"
    using sp by (auto simp: spawn_suspended_def Let_def sbind_Inr_iff)
  note s1 = alloc_process_slot_SomeD [OF a]
  have inv1: "sched_inv s1" and res1: "reserved_for s1 (pid proc)"
    using inv res [OF True] by (auto simp: s1 reserved_for_def)
  note D = sched_invD [OF inv1] and F = fill_reserved [OF inv1 res1]
  have "view_inv ((occupied s1)(pid proc \<mapsto> proc)) (ready_list s1) (current s1)"
    by (rule view_park [OF D(2) _ F(3)]) (use F(2) st in auto)
  then show ?thesis using D(1) F(1) s' by (simp add: sched_inv_def shape_put_slot)
qed

lemma spawn_inv:
  assumes inv: "sched_inv s" and res: "pid_index (pid proc) < MAX_PROCESSES \<Longrightarrow> reserved_for s (pid proc)"
    and st: "pstate proc = Ready" and sp: "spawn pg proc s = Inr (r, s')"
  shows "sched_inv s'"
proof (cases "pid_index (pid proc) < MAX_PROCESSES")
  case False
  then show ?thesis using inv sp by (auto simp: spawn_def refuse_def Let_def split: option.splits)
next
  case True
  then obtain b s1 where a: "alloc_process_slot s = Inr (b, s1)"
    and s': "s' = notify_idle_cores (push_ready (pid proc) (put_slot (pid_index (pid proc)) (Occupied b proc) s1))"
    using sp by (auto simp: spawn_def Let_def sbind_Inr_iff)
  note s1 = alloc_process_slot_SomeD [OF a]
  have inv1: "sched_inv s1" and res1: "reserved_for s1 (pid proc)"
    using inv res [OF True] by (auto simp: s1 reserved_for_def)
  note D = sched_invD [OF inv1] and F = fill_reserved [OF inv1 res1]
  let ?s2 = "put_slot (pid_index (pid proc)) (Occupied b proc) s1"
  have sh2: "shape ?s2" by (rule shape_put_slot [OF D(1)])
  have "view_inv ((occupied s1)(pid proc \<mapsto> proc)) (ready_list s1 @ [pid proc]) (current s1)"
    by (rule view_wake [OF D(2) _ F(3)]) (use F(2) st in auto)
  then have "sched_inv (push_ready (pid proc) ?s2)"
    using shape_push_ready [OF sh2, of "pid proc"] push_ready_list [OF sh2, of "pid proc"] F(1,4)
    by (simp add: sched_inv_def del: push_ready_fields(3))
  then show ?thesis using s' by simp
qed

lemma start_child_inv:
  assumes inv: "sched_inv s" and st: "start_child target caller s = (r, s')"
  shows "sched_inv s'"
proof (cases "occupied s target")
  case None
  then show ?thesis using inv st by (simp add: start_child_def)
next
  case (Some proc)
  note D = sched_invD [OF inv]
  show ?thesis
    using st Some inv make_ready_inv(1) [OF D(1,2) Some, of "proc\<lparr>pstate := Ready\<rparr>"] view_pid [OF D(2) Some]
    by (auto simp: start_child_def split: if_splits)
qed

end
