(* ===== verification/Sched_Exit.thy ===== *)
theory Sched_Exit
  imports Sched_Ops
begin

text \<open>
  Termination, reaping, killing and waiting keep the scheduler invariant; the mutual recursion of
  \<^verbatim>\<open>take_and_finalize_slot\<close> and \<^verbatim>\<open>reap_children_of\<close> always ends within the process table's size and
  never panics.
\<close>

subsection \<open>What a sweep may change\<close>

text \<open>
  Between two states of a termination: no process appears, the ones that stay keep their
  capabilities, address space and heap, and lose at most their parent; generations, endpoints,
  memory and the stack markers are untouched.
\<close>

definition shrinks :: "'pt kernel \<Rightarrow> 'pt kernel \<Rightarrow> bool" where
  "shrinks s s' \<longleftrightarrow> generations s' = generations s \<and> endpoints s' = endpoints s \<and> stack_busy s' = stack_busy s
    \<and> mem s' = mem s \<and> user_cs s' = user_cs s \<and> user_ss s' = user_ss s \<and> regs s' = regs s
    \<and> (\<forall>q pr'. occupied s' q = Some pr' \<longrightarrow>
        (\<exists>pr. occupied s q = Some pr \<and> cap_table pr' = cap_table pr \<and> pml4 pr' = pml4 pr
          \<and> heap_end pr' = heap_end pr \<and> (parent pr' = parent pr \<or> parent pr' = None)))"

lemma shrinks_refl [simp]: "shrinks s s"
  by (auto simp: shrinks_def)

lemma shrinks_trans: "shrinks s t \<Longrightarrow> shrinks t u \<Longrightarrow> shrinks s u"
  unfolding shrinks_def by metis

lemma shrinks_dom: "shrinks s s' \<Longrightarrow> dom (occupied s') \<subseteq> dom (occupied s)"
  unfolding shrinks_def by blast

lemma finite_dom_occupied: "finite (dom (occupied s))"
  by (rule finite_subset [OF dom_occupied]) simp

lemma card_dom_occupied: "card (dom (occupied s)) \<le> MAX_PROCESSES"
  using surj_card_le [OF finite_lessThan dom_occupied] by simp

lemma shrinks_wake:
  assumes inv: "sched_inv s"
  shows "shrinks s (wake_blocked_process_locked w r s)"
proof (cases "occupied s w")
  case None
  then show ?thesis by (simp add: wake_blocked_process_locked_def)
next
  case (Some proc)
  note D = sched_invD [OF inv]
  show ?thesis
    unfolding shrinks_def
    using Some occupied_put_process [OF D(3) Some]
    by (auto simp: wake_blocked_process_locked_def apply_wake_result_def put_process_set_frame push_ready_set_frame
        split: if_splits)
qed

lemma shrinks_put_slot:
  assumes "table_ok s" "i < MAX_PROCESSES" "occupied s (pid_new i (generations s ! i)) = Some pr"
    "sl = Occupied b pr' \<Longrightarrow> cap_table pr' = cap_table pr \<and> pml4 pr' = pml4 pr \<and> heap_end pr' = heap_end pr
      \<and> (parent pr' = parent pr \<or> parent pr' = None)" "sl = Occupied b pr' \<or> sl = Empty \<or> sl = Zombie x y"
  shows "shrinks s (put_slot i sl s)"
  unfolding shrinks_def using assms occupied_put_slot [OF assms(1,2), of sl] by (auto split: if_splits)

lemma shrinks_put_dead:
  assumes "table_ok s" "i < MAX_PROCESSES" "\<forall>b pr. sl \<noteq> Occupied b pr"
  shows "shrinks s (put_slot i sl s)"
  unfolding shrinks_def using assms occupied_put_slot [OF assms(1,2), of sl]
  by (auto split: if_splits table_slot.splits)

subsection \<open>Vacating a slot\<close>

text \<open>The slot is emptied, the pid leaves the ready queue and every core.\<close>

definition evacuated :: "pid \<Rightarrow> 'pt kernel \<Rightarrow> 'pt kernel" where
  "evacuated p s = clear_current_of p (remove_from_ready_queue p (put_slot (pid_index p) Empty s))"

lemma evacuated_inv:
  assumes inv: "sched_inv s" and live: "occupied s p = Some proc"
  shows "sched_inv (evacuated p s)" "occupied (evacuated p s) = (occupied s)(p := None)"
    "processes (evacuated p s) = (processes s)[pid_index p := Empty]" "generations (evacuated p s) = generations s"
    "shrinks s (evacuated p s)"
proof -
  note D = sched_invD [OF inv]
  have i: "pid_index p < MAX_PROCESSES" "generations s ! pid_index p = pid_generation p"
    using occupied_SomeD [OF live] by auto
  let ?s1 = "remove_from_ready_queue p (put_slot (pid_index p) Empty s)"
  have sh1: "shape ?s1" by (intro shape_remove_ready shape_put_slot D(1))
  show occ: "occupied (evacuated p s) = (occupied s)(p := None)"
    using occupied_put_slot [OF D(3) i(1), of Empty] i(2) pid_new_parts [of p] by (simp add: evacuated_def)
  show pr: "processes (evacuated p s) = (processes s)[pid_index p := Empty]" "generations (evacuated p s) = generations s"
    by (simp_all add: evacuated_def)
  have rl: "ready_list (evacuated p s) = filter (\<lambda>x. x \<noteq> p) (ready_list s)"
    using remove_ready_spec(2) [OF shape_put_slot [OF D(1)]] by (simp add: evacuated_def)
  have sh: "shape (evacuated p s)" unfolding evacuated_def by (rule shape_clear_current [OF sh1])
  have "view_inv ((occupied s)(p := None)) (filter (\<lambda>x. x \<noteq> p) (ready_list s)) (current (evacuated p s))"
    using clear_current_nth [OF sh1, of _ p] shape_current_length [OF sh] D(4)
    by (intro view_remove [OF D(2)]) (simp_all add: evacuated_def)
  then show "sched_inv (evacuated p s)" using sh occ rl by (simp add: sched_inv_def)
  show "shrinks s (evacuated p s)" unfolding shrinks_def using occ by (simp add: evacuated_def)
qed

lemma vacate_alt:
  "vacate p proc status s =
    (case wait_waiter proc of
       Some w \<Rightarrow> wake_blocked_process_locked w (WaitCompleted status) (evacuated p s)
     | None \<Rightarrow> (case parent proc of
         Some q \<Rightarrow> put_slot (pid_index p) (Zombie q status) (evacuated p s)
       | None \<Rightarrow> evacuated p s))"
  by (simp add: vacate_def evacuated_def Let_def split: option.splits)

lemma vacate_inv:
  assumes inv: "sched_inv s" and live: "occupied s p = Some proc"
  shows "sched_inv (vacate p proc status s)" "shrinks s (vacate p proc status s)"
    "dom (occupied (vacate p proc status s)) = dom (occupied s) - {p}"
proof -
  note E = evacuated_inv [OF inv live]
  note D = sched_invD [OF E(1)]
  have i: "pid_index p < MAX_PROCESSES" "pid_index p < length (processes s)"
    using occupied_SomeD(1) [OF live] sched_invD(3) [OF inv] by (auto simp: table_ok_def)
  show "sched_inv (vacate p proc status s)"
    using wake_locked_inv [OF E(1)] sched_inv_not_occupied_slot [OF E(1) i(1)] E(1,3) i(2)
    by (auto simp: vacate_alt split: option.splits)
  have Z: "occupied (put_slot (pid_index p) (Zombie q status) (evacuated p s)) = (occupied s)(p := None)" for q
    using occupied_put_slot [OF D(3) i(1)] E(2,4) occupied_SomeD(2) [OF live] pid_new_parts [of p] by simp
  show "shrinks s (vacate p proc status s)"
    using shrinks_trans [OF E(5) shrinks_wake [OF E(1)]] shrinks_trans [OF E(5) shrinks_put_dead [OF D(3) i(1)]] E(5)
    by (auto simp: vacate_alt split: option.splits)
  have W: "dom (occupied (wake_blocked_process_locked w r (evacuated p s))) = dom (occupied s) - {p}" for w r
  proof (cases "occupied (evacuated p s) w")
    case None
    then show ?thesis using E(2) by (simp add: wake_blocked_process_locked_def)
  next
    case (Some pr)
    then have "w \<in> dom (occupied s) - {p}" using E(2) by (auto split: if_splits)
    then show ?thesis
      using Some occupied_put_process [OF D(3) Some] E(2)
      by (auto simp: wake_blocked_process_locked_def apply_wake_result_def put_process_set_frame push_ready_set_frame
          split: if_splits)
  qed
  show "dom (occupied (vacate p proc status s)) = dom (occupied s) - {p}"
    using W Z E(2) by (auto simp: vacate_alt split: option.splits)
qed

subsection \<open>The sweep and the recursion\<close>

lemma reap_loop_induct:
  assumes "reap_loop fin p is (s, d) = Inr (s', d')" "Q s d"
    "\<And>i s d s' d'. i \<in> set is \<Longrightarrow> Q s d \<Longrightarrow> reap_one fin p i (s, d) = Inr (s', d') \<Longrightarrow> Q s' d'"
  shows "Q s' d'"
  using assms
proof (induction "is" arbitrary: s d)
  case (Cons i "is")
  obtain s1 d1 where r: "reap_one fin p i (s, d) = Inr (s1, d1)" "reap_loop fin p is (s1, d1) = Inr (s', d')"
    using Cons.prems(1) by (auto simp: sbind_Inr_iff)
  have "Q s1 d1" using Cons.prems(3) [OF _ Cons.prems(2) r(1)] by simp
  then show ?case using Cons.IH [OF r(2)] Cons.prems(3) by (meson list.set_intros(2))
qed simp

text \<open>A loop whose every iteration succeeds and keeps \<^term>\<open>Q\<close> succeeds and keeps \<^term>\<open>Q\<close>.\<close>

lemma reap_loop_total:
  assumes "Q s d"
    "\<And>i s d. i \<in> set is \<Longrightarrow> Q s d \<Longrightarrow> \<exists>s' d'. reap_one fin p i (s, d) = Inr (s', d') \<and> Q s' d'"
  shows "\<exists>s' d'. reap_loop fin p is (s, d) = Inr (s', d') \<and> Q s' d'"
  using assms
proof (induction "is" arbitrary: s d)
  case (Cons i "is")
  obtain s1 d1 where r: "reap_one fin p i (s, d) = Inr (s1, d1)" "Q s1 d1" using Cons.prems by fastforce
  then show ?case using Cons.IH [OF r(2)] Cons.prems(2) by fastforce
qed auto

lemma slot_live:
  assumes "i < MAX_PROCESSES" "processes s ! i = Occupied b pr"
  shows "occupied s (pid_new i (generations s ! i)) = Some pr"
  using assms by (simp add: occupied_def Let_def)

lemma reap_one_keeps:
  assumes inv: "sched_inv s" and i: "i < MAX_PROCESSES"
    and fin: "\<And>b child. processes s ! i = Occupied b child \<Longrightarrow> parent child = Some p \<Longrightarrow> pstate child = Suspended \<Longrightarrow>
      \<exists>s' d'. fin s (pid_new i (generations s ! i)) Killed d = Inr (s', d') \<and> sched_inv s' \<and> shrinks s s'"
  shows "\<exists>s' d'. reap_one fin p i (s, d) = Inr (s', d') \<and> sched_inv s' \<and> shrinks s s'"
proof (cases "processes s ! i")
  case (Occupied b child)
  note D = sched_invD [OF inv]
  note live = slot_live [OF i Occupied]
  show ?thesis
  proof (cases "parent child = Some p")
    case True
    show ?thesis
    proof (cases "pstate child = Suspended")
      case True
      then show ?thesis using fin [OF Occupied \<open>parent child = Some p\<close>] Occupied \<open>parent child = Some p\<close>
        by (simp add: reap_one_def)
    next
      case False
      let ?s' = "put_slot i (Occupied b (child\<lparr>parent := None\<rparr>)) s"
      have "sched_inv ?s'"
        using put_process_same_inv [OF inv live, of "child\<lparr>parent := None\<rparr>"] i
        by (simp add: put_process_put_slot [OF Occupied])
      moreover have "shrinks s ?s'"
        by (rule shrinks_put_slot [OF D(3) i live, where pr' = "child\<lparr>parent := None\<rparr>" and b = b]) simp_all
      ultimately show ?thesis using Occupied \<open>parent child = Some p\<close> False by (simp add: reap_one_def)
    qed
  qed (use inv Occupied in \<open>simp add: reap_one_def\<close>)
next
  case (Zombie q st)
  then show ?thesis
    using inv sched_inv_not_occupied_slot [OF inv i] shrinks_put_dead [OF sched_invD(3) [OF inv] i]
    by (auto simp: reap_one_def)
qed (use inv in \<open>simp_all add: reap_one_def\<close>)

text \<open>A pid that names the current generation of its slot.\<close>

definition current_generation :: "'pt kernel \<Rightarrow> pid \<Rightarrow> bool" where
  "current_generation s p \<longleftrightarrow> pid_index p < MAX_PROCESSES \<and> generations s ! pid_index p = pid_generation p"

lemma current_generation_live: "occupied s p = Some proc \<Longrightarrow> current_generation s p"
  using occupied_SomeD [of s p proc] by (simp add: current_generation_def)

lemma finalize_total:
  assumes "sched_inv s" "current_generation s p" "card (dom (occupied s)) < n"
  shows "\<exists>s' d'. finalize_fuel n s p status d = Inr (s', d') \<and> sched_inv s' \<and> shrinks s s'
    \<and> p \<notin> dom (occupied s')"
  using assms
proof (induction n arbitrary: s p status d)
  case (Suc n)
  have i: "pid_index p < MAX_PROCESSES" "generations s ! pid_index p = pid_generation p"
    using Suc.prems(2) by (auto simp: current_generation_def)
  show ?case
  proof (cases "\<exists>b proc. processes s ! pid_index p = Occupied b proc")
    case False
    then have "occupied s p = None" by (auto simp: occupied_def Let_def split: table_slot.splits)
    then show ?thesis
      using False i Suc.prems(1) by (cases "processes s ! pid_index p") auto
  next
    case True
    then obtain b proc where b: "processes s ! pid_index p = Occupied b proc" by blast
    have live: "occupied s p = Some proc" using occupiedI [OF i b] .
    note V = vacate_inv [OF Suc.prems(1) live, of status]
    let ?v = "vacate p proc status s"
    let ?Q = "\<lambda>t d. sched_inv t \<and> shrinks ?v t"
    have cardv: "card (dom (occupied ?v)) < n"
      using Suc.prems(3) V(3) card_Suc_Diff1 [OF finite_dom_occupied domI [of "occupied s", OF live]] by simp
    have "\<exists>s' d'. reap_loop (finalize_fuel n) p [0..<MAX_PROCESSES] (?v, d) = Inr (s', d') \<and> ?Q s' d'"
    proof (rule reap_loop_total)
      fix k t e assume k: "k \<in> set [0..<MAX_PROCESSES]" and Q: "?Q t e"
      have "card (dom (occupied t)) < n"
        using cardv card_mono [OF finite_dom_occupied shrinks_dom [of ?v t]] Q by force
      then show "\<exists>s' d'. reap_one (finalize_fuel n) p k (t, e) = Inr (s', d') \<and> ?Q s' d'"
        using Q k reap_one_keeps [of t k p "finalize_fuel n" e] Suc.IH [of t "pid_new k (generations t ! k)" Killed e]
          shrinks_trans [of ?v t] by (fastforce simp: current_generation_def)
    qed (simp add: V(1))
    then obtain s' d' where r: "reap_loop (finalize_fuel n) p [0..<MAX_PROCESSES] (?v, d) = Inr (s', d')"
      "sched_inv s'" "shrinks ?v s'" by blast
    have "p \<notin> dom (occupied s')" using shrinks_dom [OF r(3)] V(3) by blast
    then show ?thesis using r b i shrinks_trans [OF V(2) r(3)] by simp
  qed
qed simp

lemma take_and_finalize_total:
  assumes "sched_inv s" "current_generation s p"
  shows "\<exists>s' d'. take_and_finalize_slot s p status d = Inr (s', d') \<and> sched_inv s' \<and> shrinks s s'
    \<and> p \<notin> dom (occupied s')"
  using finalize_total [OF assms, of "Suc MAX_PROCESSES" status d] card_dom_occupied [of s]
  by (simp add: take_and_finalize_slot_def)

subsection \<open>Orphaned receivers, exit, kill, eviction, wait\<close>

lemma endpoints_inv [simp]: "sched_inv (s\<lparr>endpoints := es\<rparr>) = sched_inv s"
  by (rule sched_inv_cong) simp_all

lemma wake_orphan_inv [inv_intros]: "sched_inv s \<Longrightarrow> sched_inv (wake_orphan e s)"
  by (auto simp: wake_orphan_def take_waiting_process_receiver_def inv_intros
      split: rslot.splits waiter.splits)

lemma fold_inv: "(\<And>x s. P s \<Longrightarrow> P (f x s)) \<Longrightarrow> P s \<Longrightarrow> P (fold f xs s)"
  by (induction xs arbitrary: s) auto

lemma wake_orphaned_receivers_inv [inv_intros]: "sched_inv s \<Longrightarrow> sched_inv (wake_orphaned_receivers ds s)"
  unfolding wake_orphaned_receivers_def by (rule fold_inv [where P = sched_inv]) (auto intro: inv_intros)

lemma forget_current_inv [inv_intros]: "sched_inv s \<Longrightarrow> sched_inv (set_current c None s)"
  using view_forget_one [OF sched_invD(2), of s c] shape_set_current [OF sched_invD(1)]
  by (simp add: sched_inv_def)

lemma terminate_slot_total:
  assumes "sched_inv s" "current_generation s p"
  shows "\<exists>s' ds. terminate_slot p status s = Inr (s', ds) \<and> sched_inv s'"
proof -
  obtain s1 ds where "take_and_finalize_slot s p status [] = Inr (s1, ds)" "sched_inv s1"
    using take_and_finalize_total [OF assms] by blast
  then show ?thesis by (simp add: terminate_slot_def inv_intros)
qed

lemma current_generation_cong [simp]:
  "current_generation (mark_stack_busy i s) p = current_generation s p"
  by (simp add: current_generation_def)

lemma terminate_current_inv:
  assumes inv: "sched_inv s" and c: "c < MAX_CORES" and t: "terminate_current_process pg c status s = Inr (r, s')"
  shows "sched_inv s'"
proof (cases "current s ! c")
  case None
  then show ?thesis using t switch_next_inv [OF inv c] by (simp add: terminate_current_process_def)
next
  case (Some p)
  obtain proc where live: "occupied s p = Some proc" using sched_inv_current [OF inv c Some] by blast
  let ?s0 = "mark_stack_busy (pid_index p) s"
  have "sched_inv ?s0" "current_generation ?s0 p" using inv current_generation_live [OF live] by auto
  then obtain s1 ds where s1: "terminate_slot p status ?s0 = Inr (s1, ds)" "sched_inv s1"
    using terminate_slot_total by blast
  then show ?thesis
    using t Some occupied_SomeD(1) [OF live] switch_next_inv [OF s1(2) c] by (simp add: terminate_current_process_def)
qed

lemma terminate_scan_inv:
  assumes inv: "sched_inv s" and g: "current_generation s target" and t: "terminate_scan pg target s = Inr (r, s')"
  shows "sched_inv s'"
proof (cases "owning_core target s")
  case (Some core)
  then show ?thesis using t inv by (auto simp: terminate_scan_def)
next
  case None
  obtain s1 ds where s1: "take_and_finalize_slot s target Killed [] = Inr (s1, ds)" "sched_inv s1"
    using take_and_finalize_total [OF inv g] by blast
  then show ?thesis
    using t None wake_orphaned_receivers_inv [OF s1(2)]
    by (auto simp: terminate_scan_def sbind_Inr_iff dest!: drop_boxes_inv)
qed

lemma reschedule_ipi_inv:
  assumes inv: "sched_inv s" and c: "c < MAX_CORES" and t: "on_reschedule_ipi pg c f s = Inr (r, s')"
  shows "sched_inv s'"
proof -
  let ?s1 = "set_evict_request c 0 s"
  let ?p = "Pid (evict_request (percpu s ! c))"
  have i1: "sched_inv ?s1" using inv by simp
  then have i2: "sched_inv (mark_stack_busy (pid_index ?p) (set_current c None ?s1))" by (simp add: inv_intros)
  show ?thesis
    using t i1 switch_next_inv [OF i2 c, of pg _ _ r s'] by (auto simp: on_reschedule_ipi_def Let_def split: if_splits)
qed

lemma wait_for_child_inv:
  assumes inv: "sched_inv s" and c: "c < MAX_CORES" and t: "wait_for_child pg c f target caller s = Inr (r, s')"
  shows "sched_inv s'"
proof (cases "pid_index target < MAX_PROCESSES \<and> generations s ! pid_index target = pid_generation target")
  case False
  then show ?thesis using t inv by (auto simp: wait_for_child_def Let_def)
next
  case True
  let ?i = "pid_index target"
  show ?thesis
  proof (cases "processes s ! ?i")
    case (Occupied b proc)
    have live: "occupied s target = Some proc" using True Occupied occupiedI by blast
    let ?s1 = "put_slot ?i (Occupied b (proc\<lparr>wait_waiter := Some caller\<rparr>)) s"
    have "sched_inv ?s1"
      using put_process_same_inv [OF inv live, of "proc\<lparr>wait_waiter := Some caller\<rparr>"]
      by (simp add: put_process_put_slot [OF Occupied])
    then obtain s2 where "block_current_process_locked c f ?s1 = Inr s2" "sched_inv s2"
      using block_locked_inv [OF _ c] by blast
    then show ?thesis
      using t True Occupied inv switch_next_inv [OF _ c]
      by (auto simp: wait_for_child_def Let_def wait_outcome_of_def split: if_splits)
  next
    case (Zombie q st)
    then show ?thesis
      using t True inv sched_inv_not_occupied_slot [OF inv, of ?i Empty]
      by (auto simp: wait_for_child_def Let_def wait_outcome_of_def split: if_splits prod.splits)
  qed (use t True inv in \<open>auto simp: wait_for_child_def Let_def wait_outcome_of_def\<close>)
qed

text \<open>Reading or rewriting a process through \<^verbatim>\<open>with_process\<close>.\<close>

lemma with_process_inv:
  assumes inv: "sched_inv s" and w: "with_process p f s = (r, s')"
    and f: "\<And>proc. pid (snd (f proc)) = pid proc \<and> pstate (snd (f proc)) = pstate proc"
  shows "sched_inv s'"
proof (cases "occupied s p")
  case None
  then show ?thesis using w inv by (simp add: with_process_def)
next
  case (Some proc)
  then show ?thesis
    using w put_process_same_inv [OF inv Some] f [of proc] by (auto simp: with_process_def split: prod.splits)
qed

lemma with_current_process_inv:
  assumes "sched_inv s" "with_current_process c f s = (r, s')"
    "\<And>proc. pid (snd (f proc)) = pid proc \<and> pstate (snd (f proc)) = pstate proc"
  shows "sched_inv s'"
proof (cases "current s ! c")
  case (Some p)
  then show ?thesis using assms(2) with_process_inv [OF assms(1) _ assms(3)] by (simp add: with_current_process_def)
qed (use assms in \<open>simp add: with_current_process_def\<close>)

end
