(* ===== verification/Ipc.thy ===== *)
theory Ipc
  imports Sched_Exit
begin

text \<open>
  \<^verbatim>\<open>kernel/src/ipc/endpoint.rs\<close> and \<^verbatim>\<open>ipc/message.rs\<close>: the kernel's endpoints, which wrap the
  rendezvous slot of theory \<^verbatim>\<open>Rendezvous\<close> and wake whoever it displaces, as a kernel task through
  the executor's ready queue or as a process through the scheduler.  An endpoint is named by a
  number; its slot is \<^verbatim>\<open>endpoints s e\<close>.
\<close>

subsection \<open>The operations\<close>

datatype send_result = SDelivered | SBlocked | SQueueFull

datatype recv_result = RDelivered message | RBlocked | RQueueFull

fun into_inline :: "message_payload \<Rightarrow> kpanic + message" where
  "into_inline (Inline m) = Inr m"
| "into_inline (OutOfLine page n) = Inl OutOfLineMessage"

text \<open>\<^verbatim>\<open>TaskWaker::wake_task\<close> of the executor.\<close>

definition wake_task :: "nat \<Rightarrow> 'pt kernel \<Rightarrow> 'pt kernel" where
  "wake_task t s =
    (case ring_push t (task_ready s) of
       (True, q) \<Rightarrow> s\<lparr>task_ready := q\<rparr>
     | (False, q) \<Rightarrow> s\<lparr>task_ready := q, overflowed := True\<rparr>)"

fun wake_sender :: "pid waiter \<Rightarrow> 'pt kernel \<Rightarrow> 'pt kernel" where
  "wake_sender (Task t) s = wake_task t s"
| "wake_sender (Process p) s = wake_blocked_process p SendCompleted s"
| "wake_sender NoWaiter s = s"

definition set_endpoint :: "nat \<Rightarrow> endpoint_slot \<Rightarrow> 'pt kernel \<Rightarrow> 'pt kernel" where
  "set_endpoint e slot s = s\<lparr>endpoints := (endpoints s)(e := slot)\<rparr>"

definition endpoint_try_recv :: "nat \<Rightarrow> pid \<Rightarrow> 'pt kernel \<Rightarrow> kpanic + (recv_result \<times> 'pt kernel)" where
  "endpoint_try_recv e receiver s =
    (case slot_try_recv (Process receiver) (endpoints s e) of
       None \<Rightarrow> Inl EmptySenderQueue
     | Some (out, slot) \<Rightarrow>
         (let s1 = set_endpoint e slot s in
          case out of
            RecvDelivered payload sender \<Rightarrow>
              (let s2 = wake_sender sender s1 in sbind (into_inline payload) (\<lambda>m. Inr (RDelivered m, s2)))
          | RecvEnqueued \<Rightarrow> Inr (RBlocked, s1)
          | RecvQueueFull \<Rightarrow> Inr (RQueueFull, s1)))"

text \<open>The first three words of a message are what a woken receiver gets in its registers.\<close>

definition recv_completed :: "message \<Rightarrow> wake_result" where
  "recv_completed m = RecvCompleted (msg_tag m) (msg_words m ! 0) (msg_words m ! 1) (msg_words m ! 2)"

fun wake_receiver :: "nat \<Rightarrow> pid waiter \<Rightarrow> 'pt kernel \<Rightarrow> kpanic + 'pt kernel" where
  "wake_receiver e (Task t) s = Inr (wake_task t s)"
| "wake_receiver e (Process p) s =
    sbind (endpoint_try_recv e p s) (\<lambda>(r, s).
      Inr (case r of RDelivered m \<Rightarrow> wake_blocked_process p (recv_completed m) s | _ \<Rightarrow> s))"
| "wake_receiver e NoWaiter s = Inr s"

definition endpoint_send_as :: "nat \<Rightarrow> message \<Rightarrow> pid waiter \<Rightarrow> 'pt kernel \<Rightarrow> kpanic + (send_result \<times> 'pt kernel)" where
  "endpoint_send_as e m sender s =
    (case slot_try_send MAX_PROCESSES (Inline m) sender (endpoints s e) of
       (out, slot) \<Rightarrow>
         (let s1 = set_endpoint e slot s in
          case out of
            SendDelivered receiver \<Rightarrow> sbind (wake_receiver e receiver s1) (\<lambda>s. Inr (SDelivered, s))
          | SendEnqueued \<Rightarrow> Inr (SBlocked, s1)
          | SendQueueFull \<Rightarrow> Inr (SQueueFull, s1)))"

definition endpoint_try_send :: "nat \<Rightarrow> message \<Rightarrow> pid \<Rightarrow> 'pt kernel \<Rightarrow> kpanic + (send_result \<times> 'pt kernel)" where
  "endpoint_try_send e m sender s = endpoint_send_as e m (Process sender) s"

text \<open>
  One poll of the futures kernel tasks use.  The future of a send holds the message until it has
  been queued or delivered; the first component of the result is \<^verbatim>\<open>Poll::Ready\<close>.
\<close>

definition send_future_poll ::
  "nat \<Rightarrow> nat \<Rightarrow> message option \<Rightarrow> 'pt kernel \<Rightarrow> kpanic + (bool \<times> message option \<times> 'pt kernel)" where
  "send_future_poll e task held s =
    (case held of
       None \<Rightarrow> Inr (True, None, s)
     | Some m \<Rightarrow>
         sbind (endpoint_send_as e m (Task task) s) (\<lambda>(r, s).
           Inr (case r of
                  SDelivered \<Rightarrow> (True, None, s)
                | SBlocked \<Rightarrow> (False, None, s)
                | SQueueFull \<Rightarrow> (False, Some m, wake_task task s))))"

definition recv_future_poll :: "nat \<Rightarrow> nat \<Rightarrow> 'pt kernel \<Rightarrow> kpanic + (message option \<times> 'pt kernel)" where
  "recv_future_poll e task s =
    (case slot_try_recv (Task task) (endpoints s e) of
       None \<Rightarrow> Inl EmptySenderQueue
     | Some (out, slot) \<Rightarrow>
         (let s1 = set_endpoint e slot s in
          case out of
            RecvDelivered payload sender \<Rightarrow>
              (let s2 = wake_sender sender s1 in sbind (into_inline payload) (\<lambda>m. Inr (Some m, s2)))
          | RecvEnqueued \<Rightarrow> Inr (None, s1)
          | RecvQueueFull \<Rightarrow> Inr (None, wake_task task s1)))"

subsection \<open>Invariants\<close>

text \<open>Every endpoint's slot is well formed and carries inline messages of four words.\<close>

definition payload_ok :: "message_payload \<Rightarrow> bool" where
  "payload_ok x \<longleftrightarrow> (case x of Inline m \<Rightarrow> message_wf m | OutOfLine _ _ \<Rightarrow> False)"

definition endpoints_ok :: "'pt kernel \<Rightarrow> bool" where
  "endpoints_ok s \<longleftrightarrow> (\<forall>e. slot_ok MAX_PROCESSES (endpoints s e)
    \<and> list_all (\<lambda>(x, _). payload_ok x) (pending (endpoints s e)))"

lemma wake_task_fields [simp]:
  "processes (wake_task t s) = processes s" "generations (wake_task t s) = generations s"
  "ready (wake_task t s) = ready s" "current (wake_task t s) = current s" "percpu (wake_task t s) = percpu s"
  "regs (wake_task t s) = regs s" "trap_frames (wake_task t s) = trap_frames s"
  "stack_busy (wake_task t s) = stack_busy s" "endpoints (wake_task t s) = endpoints s"
  "mem (wake_task t s) = mem s" "user_cs (wake_task t s) = user_cs s" "user_ss (wake_task t s) = user_ss s"
  by (auto simp: wake_task_def split: prod.splits bool.splits)

lemma set_endpoint_fields [simp]:
  "processes (set_endpoint e x s) = processes s" "generations (set_endpoint e x s) = generations s"
  "ready (set_endpoint e x s) = ready s" "current (set_endpoint e x s) = current s" "percpu (set_endpoint e x s) = percpu s"
  "regs (set_endpoint e x s) = regs s" "trap_frames (set_endpoint e x s) = trap_frames s"
  "stack_busy (set_endpoint e x s) = stack_busy s" "endpoints (set_endpoint e x s) = (endpoints s)(e := x)"
  "mem (set_endpoint e x s) = mem s" "user_cs (set_endpoint e x s) = user_cs s" "user_ss (set_endpoint e x s) = user_ss s"
  by (simp_all add: set_endpoint_def)

lemma ipc_plain_inv [simp]:
  "sched_inv (wake_task t s) = sched_inv s" "sched_inv (set_endpoint e x s) = sched_inv s"
  "occupied (wake_task t s) = occupied s" "occupied (set_endpoint e x s) = occupied s"
  by ((rule sched_inv_cong | rule occupied_cong); simp)+

lemma wake_fields [simp]:
  "endpoints (wake_blocked_process p r s) = endpoints s" "current (wake_blocked_process p r s) = current s"
  "generations (wake_blocked_process p r s) = generations s" "mem (wake_blocked_process p r s) = mem s"
  "user_cs (wake_blocked_process p r s) = user_cs s" "user_ss (wake_blocked_process p r s) = user_ss s"
  "stack_busy (wake_blocked_process p r s) = stack_busy s" "regs (wake_blocked_process p r s) = regs s"
  by (auto simp: wake_blocked_process_def wake_blocked_process_locked_def apply_wake_result_def split: option.splits)

lemma wake_sender_fields [simp]:
  "endpoints (wake_sender w s) = endpoints s" "current (wake_sender w s) = current s"
  "generations (wake_sender w s) = generations s" "mem (wake_sender w s) = mem s"
  by (cases w; simp)+

lemma wake_sender_inv [inv_intros]: "sched_inv s \<Longrightarrow> sched_inv (wake_sender w s)"
  by (cases w) (auto intro: inv_intros)

text \<open>A receive on a well-formed endpoint: the slot stays well formed, what it delivers is an inline message.\<close>

lemma receive_slot:
  assumes ok: "endpoints_ok s"
  obtains out slot where "slot_try_recv w (endpoints s e) = Some (out, slot)" "endpoints_ok (set_endpoint e slot s)"
    "\<And>x sender. out = RecvDelivered x sender \<Longrightarrow> \<exists>m. x = Inline m \<and> message_wf m"
proof -
  have so: "slot_ok MAX_PROCESSES (endpoints s e)" "list_all (\<lambda>(x, _). payload_ok x) (pending (endpoints s e))"
    using ok by (auto simp: endpoints_ok_def)
  obtain out slot where t: "slot_try_recv w (endpoints s e) = Some (out, slot)" "slot_ok MAX_PROCESSES slot"
    and spec: "case pending (endpoints s e) of
        (m, s) # ps \<Rightarrow> out = RecvDelivered m s \<and> pending slot = ps \<and> receiver_of slot = None
      | [] \<Rightarrow> (case receiver_of (endpoints s e) of
          None \<Rightarrow> out = RecvEnqueued \<and> slot = ReceiverWaiting w
        | Some _ \<Rightarrow> out = RecvQueueFull \<and> slot = endpoints s e)"
    using slot_try_recv_spec [OF so(1), of w] by blast
  have "list_all (\<lambda>(x, _). payload_ok x) (pending slot)"
    using spec so(2) by (cases "pending (endpoints s e)") (auto split: option.splits)
  then have "endpoints_ok (set_endpoint e slot s)" using ok t(2) by (simp add: endpoints_ok_def)
  moreover have "\<exists>m. x = Inline m \<and> message_wf m" if "out = RecvDelivered x sender" for x sender
  proof -
    have "payload_ok x" using spec that so by (auto split: list.splits option.splits)
    then show ?thesis by (auto simp: payload_ok_def split: message_payload.splits)
  qed
  ultimately show ?thesis using that t(1) by blast
qed

lemma wake_sender_ok [inv_intros]: "endpoints_ok s \<Longrightarrow> endpoints_ok (wake_sender w s)"
  by (simp add: endpoints_ok_def)

lemma try_recv_total:
  assumes inv: "sched_inv s" and ok: "endpoints_ok s"
  shows "\<exists>r s'. endpoint_try_recv e p s = Inr (r, s') \<and> sched_inv s' \<and> endpoints_ok s' \<and> current s' = current s
    \<and> (\<forall>m. r = RDelivered m \<longrightarrow> message_wf m)"
proof (rule receive_slot [OF ok, of "Process p" e])
  fix out slot
  assume t: "slot_try_recv (Process p) (endpoints s e) = Some (out, slot)" and ok': "endpoints_ok (set_endpoint e slot s)"
    and m: "\<And>x sender. out = RecvDelivered x sender \<Longrightarrow> \<exists>m. x = Inline m \<and> message_wf m"
  show ?thesis
  proof (cases out)
    case (RecvDelivered x w)
    then show ?thesis
      using t m [OF RecvDelivered] wake_sender_inv [of "set_endpoint e slot s" w] inv wake_sender_ok [OF ok', of w]
      by (auto simp: endpoint_try_recv_def Let_def)
  qed (use t ok' inv in \<open>auto simp: endpoint_try_recv_def Let_def\<close>)
qed

lemma recv_future_total:
  assumes inv: "sched_inv s" and ok: "endpoints_ok s"
  shows "\<exists>r s'. recv_future_poll e t s = Inr (r, s') \<and> sched_inv s' \<and> endpoints_ok s' \<and> current s' = current s
    \<and> (\<forall>m. r = Some m \<longrightarrow> message_wf m)"
proof (rule receive_slot [OF ok, of "Task t" e])
  fix out slot
  assume t: "slot_try_recv (Task t) (endpoints s e) = Some (out, slot)" and ok': "endpoints_ok (set_endpoint e slot s)"
    and m: "\<And>x sender. out = RecvDelivered x sender \<Longrightarrow> \<exists>m. x = Inline m \<and> message_wf m"
  have w: "endpoints_ok (wake_task t (set_endpoint e slot s))" using ok' by (simp add: endpoints_ok_def)
  show ?thesis
  proof (cases out)
    case (RecvDelivered x w)
    then show ?thesis
      using t m [OF RecvDelivered] wake_sender_inv [of "set_endpoint e slot s" w] inv wake_sender_ok [OF ok', of w]
      by (auto simp: recv_future_poll_def Let_def)
  qed (use t ok' inv w in \<open>auto simp: recv_future_poll_def Let_def\<close>)
qed

lemma wake_receiver_total:
  assumes inv: "sched_inv s" and ok: "endpoints_ok s"
  shows "\<exists>s'. wake_receiver e w s = Inr s' \<and> sched_inv s' \<and> endpoints_ok s' \<and> current s' = current s"
proof (cases w)
  case (Process p)
  obtain r s1 where r: "endpoint_try_recv e p s = Inr (r, s1)" "sched_inv s1" "endpoints_ok s1" "current s1 = current s"
    using try_recv_total [OF inv ok, of e p] by blast
  have "endpoints_ok (wake_blocked_process p x s1)" for x using r(3) by (simp add: endpoints_ok_def)
  then show ?thesis using r Process wake_process_inv [OF r(2)] by (cases r) auto
qed (use inv ok in \<open>auto simp: endpoints_ok_def\<close>)

lemma send_as_total:
  assumes inv: "sched_inv s" and ok: "endpoints_ok s" and m: "message_wf m"
  shows "\<exists>r s'. endpoint_send_as e m w s = Inr (r, s') \<and> sched_inv s' \<and> endpoints_ok s' \<and> current s' = current s"
proof -
  obtain out slot where t: "slot_try_send MAX_PROCESSES (Inline m) w (endpoints s e) = (out, slot)" by fastforce
  have so: "slot_ok MAX_PROCESSES (endpoints s e)" using ok by (simp add: endpoints_ok_def)
  have "0 < MAX_PROCESSES" by (simp add: MAX_PROCESSES_def)
  note spec = slot_try_send_spec [OF so this t]
  have po: "payload_ok (Inline m)" using m by (simp add: payload_ok_def)
  have ok': "endpoints_ok (set_endpoint e slot s)"
    using ok spec po by (auto simp: endpoints_ok_def split: option.splits if_splits)
  obtain s2 where s2: "wake_receiver e r (set_endpoint e slot s) = Inr (s2 r)" "sched_inv (s2 r)" "endpoints_ok (s2 r)"
    "current (s2 r) = current s" for r
    using wake_receiver_total [OF _ ok', of e] inv by (simp, metis)
  show ?thesis
    using t s2 ok' inv by (cases out) (auto simp: endpoint_send_as_def Let_def)
qed

end
