(* ===== verification/Syscall.thy ===== *)
theory Syscall
  imports Create Ipc
begin

text \<open>
  \<^verbatim>\<open>kernel/src/arch/x86_64/syscall.rs\<close>: the system calls.  A handler takes the trap frame the call
  was entered with and returns where the core resumes.  The parts of a handler that use \<^verbatim>\<open>?\<close> are
  actions on the kernel state with four outcomes: not returned (yet), a kernel panic, an error for
  the caller, or a value.
\<close>

subsection \<open>Actions\<close>

type_synonym ('pt, 'a) sys = "'pt kernel \<Rightarrow> (kpanic + ((syscall_error + 'a) \<times> 'pt kernel)) option"

type_synonym 'pt sys_result = "(kpanic + (resume \<times> 'pt kernel)) option"

definition sys_ok :: "'a \<Rightarrow> ('pt, 'a) sys" where
  "sys_ok x s = Some (Inr (Inr x, s))"

definition sys_err :: "syscall_error \<Rightarrow> ('pt, 'a) sys" where
  "sys_err e s = Some (Inr (Inl e, s))"

definition sys_panic :: "kpanic \<Rightarrow> ('pt, 'a) sys" where
  "sys_panic k s = Some (Inl k)"

definition sys_bind :: "('pt, 'a) sys \<Rightarrow> ('a \<Rightarrow> ('pt, 'b) sys) \<Rightarrow> ('pt, 'b) sys" where
  "sys_bind m f s =
    (case m s of
       None \<Rightarrow> None
     | Some (Inl k) \<Rightarrow> Some (Inl k)
     | Some (Inr (Inl e, s')) \<Rightarrow> Some (Inr (Inl e, s'))
     | Some (Inr (Inr x, s')) \<Rightarrow> f x s')"

text \<open>Writing the result of an action to \<^verbatim>\<open>rax\<close> and returning to the caller.\<close>

definition retval :: "syscall_error + u64 \<Rightarrow> u64" where
  "retval r = (case r of Inl e \<Rightarrow> as_retval e | Inr v \<Rightarrow> v)"

definition return_to :: "trap_frame \<Rightarrow> ('pt, u64) sys \<Rightarrow> 'pt kernel \<Rightarrow> 'pt sys_result" where
  "return_to frame m s =
    (case m s of
       None \<Rightarrow> None
     | Some (Inl k) \<Rightarrow> Some (Inl k)
     | Some (Inr (r, s')) \<Rightarrow> Some (Inr (ResumeFrame (frame\<lparr>rax := retval r\<rparr>), s')))"

text \<open>\<^verbatim>\<open>with_current_process(f).unwrap_or(Err(e))\<close>, and the current pid.\<close>

definition on_current :: "nat \<Rightarrow> syscall_error \<Rightarrow> (process \<Rightarrow> (syscall_error + 'a) \<times> process) \<Rightarrow> ('pt, 'a) sys" where
  "on_current core e f s =
    (case with_current_process core f s of
       (None, s') \<Rightarrow> sys_err e s'
     | (Some r, s') \<Rightarrow> Some (Inr (r, s')))"

definition current_pid :: "nat \<Rightarrow> ('pt, pid) sys" where
  "current_pid core = on_current core InvalidTarget (\<lambda>p. (Inr (pid p), p))"

text \<open>
  What the kernel relies on besides its own state: the paging crate, how often the block driver
  spins and what the device does meanwhile, and for a kill how many rounds it makes and what the
  other cores do between them.
\<close>

record 'pt platform =
  pf_paging :: "'pt paging"
  pf_spins :: nat
  pf_device :: "nat \<Rightarrow> (u64 \<Rightarrow> u8) \<Rightarrow> u64 \<Rightarrow> u8"
  pf_rounds :: nat
  pf_others :: "nat \<Rightarrow> 'pt kernel \<Rightarrow> 'pt kernel"

subsection \<open>IPC\<close>

definition resolve_endpoint :: "nat \<Rightarrow> cap_index \<Rightarrow> rights \<Rightarrow> ('pt, nat \<times> pid) sys" where
  "resolve_endpoint core index required = on_current core BadCapability (\<lambda>p.
    (case captable_lookup (cap_table p) index required of
       Inl e \<Rightarrow> Inl e
     | Inr slot \<Rightarrow> (case cap_object slot of KEndpoint e \<Rightarrow> Inr (e, pid p) | _ \<Rightarrow> Inl BadCapability), p))"

definition send_message :: "trap_frame \<Rightarrow> message" where
  "send_message frame = \<lparr>msg_tag = rsi frame, msg_words = [rdx frame, r10 frame, r8 frame, r9 frame]\<rparr>"

definition sys_send :: "'pt paging \<Rightarrow> nat \<Rightarrow> trap_frame \<Rightarrow> 'pt kernel \<Rightarrow> 'pt sys_result" where
  "sys_send pg core frame s =
    (case resolve_endpoint core (CapIndex (ucast (rdi frame))) R_SEND s of
       Some (Inr (Inr (e, p), s)) \<Rightarrow>
         Some (sbind (endpoint_try_send e (send_message frame) p s) (\<lambda>(r, s).
           case r of
             SDelivered \<Rightarrow> Inr (ResumeFrame (frame\<lparr>rax := 0\<rparr>), s)
           | SBlocked \<Rightarrow> block_current_process pg core frame s
           | SQueueFull \<Rightarrow> Inr (ResumeFrame (frame\<lparr>rax := as_retval ResourceExhausted\<rparr>), s)))
     | Some (Inr (Inl e, s)) \<Rightarrow> Some (Inr (ResumeFrame (frame\<lparr>rax := as_retval e\<rparr>), s))
     | Some (Inl k) \<Rightarrow> Some (Inl k)
     | None \<Rightarrow> None)"

definition recv_frame :: "message \<Rightarrow> trap_frame \<Rightarrow> trap_frame" where
  "recv_frame m frame = frame\<lparr>rax := 0, rdi := msg_tag m, rsi := msg_words m ! 0, rdx := msg_words m ! 1,
    r10 := msg_words m ! 2\<rparr>"

definition sys_recv :: "'pt paging \<Rightarrow> nat \<Rightarrow> trap_frame \<Rightarrow> 'pt kernel \<Rightarrow> 'pt sys_result" where
  "sys_recv pg core frame s =
    (case resolve_endpoint core (CapIndex (ucast (rdi frame))) R_RECV s of
       Some (Inr (Inr (e, p), s)) \<Rightarrow>
         Some (sbind (endpoint_try_recv e p s) (\<lambda>(r, s).
           case r of
             RDelivered m \<Rightarrow> Inr (ResumeFrame (recv_frame m frame), s)
           | RBlocked \<Rightarrow> block_current_process pg core frame s
           | RQueueFull \<Rightarrow> Inr (ResumeFrame (frame\<lparr>rax := as_retval ResourceExhausted\<rparr>), s)))
     | Some (Inr (Inl e, s)) \<Rightarrow> Some (Inr (ResumeFrame (frame\<lparr>rax := as_retval e\<rparr>), s))
     | Some (Inl k) \<Rightarrow> Some (Inl k)
     | None \<Rightarrow> None)"

subsection \<open>Creating and controlling processes\<close>

text \<open>\<^verbatim>\<open>fs::fat::with_root(|volume, device| volume.read_file(device, name))\<close>.\<close>

definition read_root_file :: "'pt platform \<Rightarrow> bytes \<Rightarrow> 'pt kernel \<Rightarrow> ((fat_error + bytes) option \<times> 'pt kernel) option" where
  "read_root_file pf name s =
    (case (root_volume s, blk_device s) of
       (Some v, Some d) \<Rightarrow>
         (case read_file (virtio_read_sectors (pf_spins pf) (pf_device pf)) v name d of
            None \<Rightarrow> None
          | Some (r, d') \<Rightarrow> Some (Some r, s\<lparr>blk_device := Some d'\<rparr>))
     | _ \<Rightarrow> Some (None, s))"

definition program_bytes :: "'pt platform \<Rightarrow> bytes \<Rightarrow> ('pt, bytes) sys" where
  "program_bytes pf name s =
    (case lookup_spawnable_module (spawnable s) name of
       Some bs \<Rightarrow> sys_ok bs s
     | None \<Rightarrow>
         (case read_root_file pf name s of
            None \<Rightarrow> None
          | Some (Some (Inr bs), s') \<Rightarrow> sys_ok bs s'
          | Some (_, s') \<Rightarrow> sys_err NoSuchProgram s'))"

definition build_child :: "'pt paging \<Rightarrow> pid \<Rightarrow> bytes \<Rightarrow> pid \<Rightarrow> ('pt, process) sys" where
  "build_child pg child_pid elf_bytes caller s =
    (case process_from_elf pg child_pid elf_bytes (Some caller) s of
       Inl k \<Rightarrow> Some (Inl k)
     | Inr (Inl _, s') \<Rightarrow> sys_err SpawnFailed (release_reservation child_pid s')
     | Inr (Inr child, s') \<Rightarrow> sys_ok (child\<lparr>pstate := Suspended\<rparr>) s')"

definition sys_spawn :: "'pt platform \<Rightarrow> nat \<Rightarrow> trap_frame \<Rightarrow> 'pt kernel \<Rightarrow> 'pt sys_result" where
  "sys_spawn pf core frame =
    (let name = unpack_short_name (rdi frame) (rsi frame) (rdx frame) in
     return_to frame
       (sys_bind (current_pid core) (\<lambda>caller.
        sys_bind (program_bytes pf name) (\<lambda>elf_bytes.
        sys_bind (\<lambda>s. case allocate_pid s of (p, s') \<Rightarrow> sys_ok p s') (\<lambda>child_pid.
        sys_bind (build_child (pf_paging pf) child_pid elf_bytes caller) (\<lambda>child.
        sys_bind (\<lambda>s. Some (spawn_suspended (pf_paging pf) child s)) (\<lambda>_.
        sys_ok (pid_raw child_pid))))))))"

definition grant_source :: "nat \<Rightarrow> cap_index \<Rightarrow> rights \<Rightarrow> ('pt, kernel_object \<times> pid) sys" where
  "grant_source core src requested = on_current core BadCapability (\<lambda>p.
    (case captable_get (cap_table p) src of
       Inl e \<Rightarrow> Inl e
     | Inr slot \<Rightarrow>
         if \<not> rights_contains (cap_rights slot) requested then Inl PermissionDenied
         else Inr (cap_object slot, pid p), p))"

definition grant_into :: "pid \<Rightarrow> pid \<Rightarrow> cap_index \<Rightarrow> kernel_object capability_slot \<Rightarrow> ('pt, unit) sys" where
  "grant_into target caller dest slot s =
    (case with_process target (\<lambda>child.
        if parent child \<noteq> Some caller \<or> pstate child \<noteq> Suspended then (Inl InvalidTarget, child)
        else (Inr (), child\<lparr>cap_table := captable_insert (cap_table child) dest slot\<rparr>)) s of
       (None, s') \<Rightarrow> sys_err InvalidTarget s'
     | (Some r, s') \<Rightarrow> Some (Inr (r, s')))"

definition sys_grant :: "nat \<Rightarrow> trap_frame \<Rightarrow> 'pt kernel \<Rightarrow> 'pt sys_result" where
  "sys_grant core frame =
    (let target = Pid (rdi frame); src = CapIndex (ucast (rsi frame)); dest = CapIndex (ucast (rdx frame));
         requested = rights_from_bits_truncate (ucast (r10 frame))
     in return_to frame
          (sys_bind (grant_source core src requested) (\<lambda>(object, caller).
           sys_bind (grant_into target caller dest \<lparr>cap_object = object, cap_rights = requested\<rparr>) (\<lambda>_.
           sys_ok 0))))"

definition sys_process_start :: "nat \<Rightarrow> trap_frame \<Rightarrow> 'pt kernel \<Rightarrow> 'pt sys_result" where
  "sys_process_start core frame =
    return_to frame
      (sys_bind (current_pid core) (\<lambda>caller.
       sys_bind (\<lambda>s. Some (Inr (start_child (Pid (rdi frame)) caller s))) (\<lambda>_. sys_ok 0)))"

definition sys_wait :: "'pt paging \<Rightarrow> nat \<Rightarrow> trap_frame \<Rightarrow> 'pt kernel \<Rightarrow> 'pt sys_result" where
  "sys_wait pg core frame s =
    (case with_current_process core (\<lambda>p. (pid p, p)) s of
       (Some caller, s') \<Rightarrow> Some (wait_for_child pg core frame (Pid (rdi frame)) caller s')
     | (None, s') \<Rightarrow> Some (Inr (ResumeFrame (frame\<lparr>rax := as_retval InvalidTarget\<rparr>), s')))"

definition sys_kill :: "'pt platform \<Rightarrow> nat \<Rightarrow> trap_frame \<Rightarrow> 'pt kernel \<Rightarrow> 'pt sys_result" where
  "sys_kill pf core frame =
    return_to frame
      (sys_bind (current_pid core) (\<lambda>caller.
       sys_bind (\<lambda>s. case terminate_process (pf_rounds pf) (pf_others pf) (pf_paging pf) (Pid (rdi frame)) caller s of
                       Inl k \<Rightarrow> Some (Inl k)
                     | Inr None \<Rightarrow> None
                     | Inr (Some r) \<Rightarrow> Some (Inr r)) (\<lambda>_. sys_ok 0)))"

subsection \<open>The heap\<close>

definition USER_HEAP_MAX_SIZE :: u64 where "USER_HEAP_MAX_SIZE = 64 * 1024 * 1024"

definition align_up :: "u64 \<Rightarrow> u64 \<Rightarrow> u64" where
  "align_up addr align = (addr + align - 1) AND NOT (align - 1)"

text \<open>
  The first critical section of \<^verbatim>\<open>sys_sbrk\<close>: the old and new break.  The increment is an
  \<^verbatim>\<open>i64\<close>, negative when its top bit is set; subtracting the heap's start from a smaller break
  would be an overflow.
\<close>

definition sbrk_plan :: "u64 \<Rightarrow> u64 \<Rightarrow> kpanic + (syscall_error + (u64 \<times> u64))" where
  "sbrk_plan increment old_end =
    (if bit increment 63 then Inr (Inl InvalidArgument)
     else case checked_add old_end increment of
            None \<Rightarrow> Inr (Inl InvalidArgument)
          | Some new_end \<Rightarrow>
              if new_end < USER_HEAP_START then Inl ArithmeticOverflow
              else if new_end - USER_HEAP_START > USER_HEAP_MAX_SIZE then Inr (Inl InvalidArgument)
              else Inr (Inr (old_end, new_end)))"

text \<open>The addresses \<^verbatim>\<open>while addr < new_top\<close> visits.\<close>

definition heap_pages :: "u64 \<Rightarrow> u64 \<Rightarrow> u64 list" where
  "heap_pages old_top new_top =
    map (\<lambda>i. old_top + of_nat i * 4096) [0..<div_ceil (unat new_top - unat old_top) 4096]"

fun map_heap_pages :: "'pt paging \<Rightarrow> u64 \<Rightarrow> u64 list \<Rightarrow> ('pt, unit) sys" where
  "map_heap_pages pg root [] = sys_ok ()"
| "map_heap_pages pg root (addr # addrs) = (\<lambda>s.
    case mem_allocate_frame (mem s) of
      (None, m) \<Rightarrow> sys_err ResourceExhausted (s\<lparr>mem := m\<rparr>)
    | (Some frame, m) \<Rightarrow>
        if \<not> va_ok pg addr then sys_panic NonCanonicalAddress s
        else case map_in pg root addr frame USER_DATA_FLAGS m of
               (Inl _, m) \<Rightarrow> sys_err ResourceExhausted (s\<lparr>mem := m\<rparr>)
             | (Inr _, m) \<Rightarrow> map_heap_pages pg root addrs (s\<lparr>mem := m\<rparr>))"

definition sys_sbrk :: "'pt paging \<Rightarrow> nat \<Rightarrow> trap_frame \<Rightarrow> 'pt kernel \<Rightarrow> 'pt sys_result" where
  "sys_sbrk pg core frame =
    return_to frame
      (sys_bind (on_current core InvalidTarget (\<lambda>p. (Inr (sbrk_plan (rdi frame) (heap_end p), pml4 p), p))) (\<lambda>(plan, root).
       case plan of
         Inl k \<Rightarrow> sys_panic k
       | Inr (Inl e) \<Rightarrow> sys_err e
       | Inr (Inr (old_end, new_end)) \<Rightarrow>
           sys_bind (map_heap_pages pg root (heap_pages (align_up old_end 4096) (align_up new_end 4096))) (\<lambda>_.
           sys_bind (on_current core InvalidTarget (\<lambda>p. (Inr (), p\<lparr>heap_end := new_end\<rparr>))) (\<lambda>_.
           sys_ok old_end))))"

subsection \<open>Writing to user memory\<close>

definition saturating_add :: "u64 \<Rightarrow> u64 \<Rightarrow> u64" where
  "saturating_add a b = (case checked_add a b of Some c \<Rightarrow> c | None \<Rightarrow> - 1)"

lemma saturating_page_progress:
  assumes "page < stop"
  shows "unat stop - unat (saturating_add page 4096) < unat stop - unat page"
proof -
  have "unat page < unat stop" using assms by (simp add: word_less_nat_alt)
  moreover have "unat page < unat (saturating_add page 4096)"
  proof (cases "checked_add page 4096")
    case None
    have "unat stop \<le> unat (- 1 :: u64)" using word_le_nat_alt [of stop "- 1"] by simp
    then show ?thesis using None \<open>unat page < unat stop\<close> by (simp add: saturating_add_def)
  next
    case (Some c)
    then have "unat c = unat page + 4096" by (simp add: checked_add_Some_iff)
    then show ?thesis using Some by (simp add: saturating_add_def)
  qed
  ultimately show ?thesis by linarith
qed

definition WRITE_FLAGS :: u64 where
  "WRITE_FLAGS = PF_PRESENT OR PF_WRITABLE OR PF_USER"

function validate_pages :: "'pt paging \<Rightarrow> u64 \<Rightarrow> u64 \<Rightarrow> u64 \<Rightarrow> 'pt mem \<Rightarrow> kpanic + (syscall_error + unit)" where
  "validate_pages pg root stop page m =
    (if page < stop then
       if \<not> va_ok pg page then Inl NonCanonicalAddress
       else case translate_in pg root page m of
              None \<Rightarrow> Inr (Inl InvalidArgument)
            | Some (_, flags) \<Rightarrow>
                if \<not> flags_contain flags WRITE_FLAGS then Inr (Inl InvalidArgument)
                else validate_pages pg root stop (saturating_add page 4096) m
     else Inr (Inr ()))"
  by pat_completeness auto
termination
  by (relation "measure (\<lambda>(_, _, stop, page, _). unat stop - unat page)") (auto simp: saturating_page_progress)

declare validate_pages.simps [simp del]

definition validate_write_range :: "'pt paging \<Rightarrow> u64 \<Rightarrow> u64 \<Rightarrow> u64 \<Rightarrow> 'pt mem \<Rightarrow> kpanic + (syscall_error + u64)" where
  "validate_write_range pg root ptr buf_len m =
    (case checked_add ptr buf_len of
       None \<Rightarrow> Inr (Inl InvalidArgument)
     | Some stop \<Rightarrow>
         sbind (validate_pages pg root stop (page_of ptr) m) (\<lambda>r. Inr (map_sum id (\<lambda>_. stop) r)))"

function copy_pages :: "'pt paging \<Rightarrow> u64 \<Rightarrow> u64 \<Rightarrow> u64 \<Rightarrow> bytes \<Rightarrow> u64 \<Rightarrow> 'pt mem \<Rightarrow> kpanic + 'pt mem" where
  "copy_pages pg root ptr stop src page m =
    (if page < stop then
       if \<not> va_ok pg page then Inl NonCanonicalAddress
       else case translate_in pg root page m of
              None \<Rightarrow> Inl RangeNotMapped
            | Some (phys, _) \<Rightarrow>
                let copy_start = max ptr page;
                    copy_end = min stop (saturating_add page 4096);
                    n = unat (copy_end - copy_start);
                    m1 = m\<lparr>pmem := mem_write (phys + (copy_start - page)) (slice src (unat (copy_start - ptr)) n) (pmem m)\<rparr>
                in copy_pages pg root ptr stop src (saturating_add page 4096) m1
     else Inr m)"
  by pat_completeness auto
termination
  by (relation "measure (\<lambda>(_, _, _, stop, _, page, _). unat stop - unat page)") (auto simp: saturating_page_progress)

declare copy_pages.simps [simp del]

definition copy_into_user_range :: "'pt paging \<Rightarrow> u64 \<Rightarrow> u64 \<Rightarrow> bytes \<Rightarrow> 'pt mem \<Rightarrow> kpanic + 'pt mem" where
  "copy_into_user_range pg root ptr src m =
    (case checked_add ptr (of_nat (length src)) of
       None \<Rightarrow> Inl ArithmeticOverflow
     | Some stop \<Rightarrow> copy_pages pg root ptr stop src (page_of ptr) m)"

definition check_range :: "'pt paging \<Rightarrow> u64 \<Rightarrow> u64 \<Rightarrow> u64 \<Rightarrow> ('pt, unit) sys" where
  "check_range pg root ptr buf_len s =
    (case validate_write_range pg root ptr buf_len (mem s) of
       Inl k \<Rightarrow> sys_panic k s
     | Inr (Inl e) \<Rightarrow> sys_err e s
     | Inr (Inr _) \<Rightarrow> sys_ok () s)"

definition copy_out :: "'pt paging \<Rightarrow> u64 \<Rightarrow> u64 \<Rightarrow> bytes \<Rightarrow> ('pt, unit) sys" where
  "copy_out pg root ptr src s =
    (case copy_into_user_range pg root ptr src (mem s) of
       Inl k \<Rightarrow> sys_panic k s
     | Inr m \<Rightarrow> sys_ok () (s\<lparr>mem := m\<rparr>))"

definition object_pml4 :: "nat \<Rightarrow> cap_index \<Rightarrow> kernel_object \<Rightarrow> ('pt, u64) sys" where
  "object_pml4 core index object = on_current core BadCapability (\<lambda>p.
    (case captable_lookup (cap_table p) index R_READ of
       Inl e \<Rightarrow> Inl e
     | Inr slot \<Rightarrow> if cap_object slot = object then Inr (pml4 p) else Inl BadCapability, p))"

subsection \<open>Block and file reads\<close>

definition device_read :: "'pt platform \<Rightarrow> u64 \<Rightarrow> nat \<Rightarrow> ('pt, bytes) sys" where
  "device_read pf lba n s =
    (case blk_device s of
       None \<Rightarrow> sys_err IoError s
     | Some d \<Rightarrow>
         (case virtio_read_sectors (pf_spins pf) (pf_device pf) lba n d of
            None \<Rightarrow> None
          | Some (Inl e, d') \<Rightarrow> sys_err (if e = OutOfRange then IoOutOfRange else IoError) (s\<lparr>blk_device := Some d'\<rparr>)
          | Some (Inr data, d') \<Rightarrow> sys_ok data (s\<lparr>blk_device := Some d'\<rparr>)))"

definition sys_block_read :: "'pt platform \<Rightarrow> nat \<Rightarrow> trap_frame \<Rightarrow> 'pt kernel \<Rightarrow> 'pt sys_result" where
  "sys_block_read pf core frame =
    (let index = CapIndex (ucast (rdi frame)); lba = rsi frame; buf_ptr = rdx frame; count = r10 frame in
     return_to frame
       (if count = 0 \<or> unat count > MAX_SECTORS_PER_REQUEST then sys_err InvalidArgument
        else let n = unat count * SECTOR_SIZE in
          sys_bind (object_pml4 core index KBlockDevice) (\<lambda>root.
          sys_bind (check_range (pf_paging pf) root buf_ptr (of_nat n)) (\<lambda>_.
          sys_bind (device_read pf lba n) (\<lambda>data.
          sys_bind (copy_out (pf_paging pf) root buf_ptr data) (\<lambda>_.
          sys_ok 0))))))"

definition file_bytes :: "'pt platform \<Rightarrow> bytes \<Rightarrow> ('pt, bytes) sys" where
  "file_bytes pf name s =
    (case read_root_file pf name s of
       None \<Rightarrow> None
     | Some (None, s') \<Rightarrow> sys_err BadCapability s'
     | Some (Some (Inr data), s') \<Rightarrow> sys_ok data s'
     | Some (Some (Inl e), s') \<Rightarrow>
         sys_err (case e of FatNoSuchFile \<Rightarrow> NoSuchFile | NameTooLong \<Rightarrow> InvalidArgument | _ \<Rightarrow> IoError) s')"

definition sys_file_read :: "'pt platform \<Rightarrow> nat \<Rightarrow> trap_frame \<Rightarrow> 'pt kernel \<Rightarrow> 'pt sys_result" where
  "sys_file_read pf core frame =
    (let index = CapIndex (ucast (rdi frame)); name = unpack_short_name (rsi frame) (rdx frame) (r10 frame);
         buf_ptr = r8 frame; buf_len = r9 frame
     in return_to frame
          (sys_bind (object_pml4 core index KFsRoot) (\<lambda>root.
           sys_bind (check_range (pf_paging pf) root buf_ptr buf_len) (\<lambda>_.
           sys_bind (file_bytes pf name) (\<lambda>data.
           let copy_len = min (length data) (unat buf_len) in
           sys_bind (copy_out (pf_paging pf) root buf_ptr (take copy_len data)) (\<lambda>_.
           sys_ok (of_nat copy_len)))))))"

subsection \<open>Dispatch\<close>

definition syscall_dispatch :: "'pt platform \<Rightarrow> nat \<Rightarrow> trap_frame \<Rightarrow> 'pt kernel \<Rightarrow> 'pt sys_result" where
  "syscall_dispatch pf core frame s =
    (let pg = pf_paging pf; n = rax frame in
     if n = SYS_YIELD then Some (on_syscall_yield core frame s)
     else if n = SYS_SEND then sys_send pg core frame s
     else if n = SYS_RECV then sys_recv pg core frame s
     else if n = SYS_EXIT then Some (on_syscall_exit pg core frame s)
     else if n = SYS_SPAWN then sys_spawn pf core frame s
     else if n = SYS_GRANT then sys_grant core frame s
     else if n = SYS_PROCESS_START then sys_process_start core frame s
     else if n = SYS_WAIT then sys_wait pg core frame s
     else if n = SYS_KILL then sys_kill pf core frame s
     else if n = SYS_SBRK then sys_sbrk pg core frame s
     else if n = SYS_BLOCK_READ then sys_block_read pf core frame s
     else if n = SYS_FILE_READ then sys_file_read pf core frame s
     else Some (Inr (ResumeFrame (frame\<lparr>rax := as_retval NoSuchSyscall\<rparr>), s)))"

end
