(* ===== verification/Kernel_Inv.thy ===== *)
theory Kernel_Inv
  imports Syscall
begin

text \<open>
  The kernel invariant over whole kernel entries.  Every timer tick, system call, reschedule
  interrupt, fault and idle turn of any core keeps the scheduler's and the endpoints' invariant, and
  none of them can end in a panic that reports inconsistent kernel data.
\<close>

subsection \<open>Invariant and panics\<close>

definition kernel_ok :: "'pt kernel \<Rightarrow> bool" where
  "kernel_ok s \<longleftrightarrow> sched_inv s \<and> endpoints_ok s"

text \<open>
  The assertions of \<^verbatim>\<open>switch_to\<close> on the process table and the registers, array indexing out of
  bounds, and the states the code calls impossible.
\<close>

definition consistency_panic :: "kpanic \<Rightarrow> bool" where
  "consistency_panic k \<longleftrightarrow> k \<in> {DoubleDispatch, CurrentReadback, IndexOutOfBounds, GenerationMismatch, NoSuchProcess,
    PidMismatch, Cr3Readback, Rsp0Readback, SyscallStackReadback, EmptySenderQueue, OutOfLineMessage, RecursionBound}"

lemma benign_panics [simp]:
  "\<not> consistency_panic FrameAssertion" "\<not> consistency_panic UnmappedTrapFrame"
  "\<not> consistency_panic NonCanonicalAddress" "\<not> consistency_panic RangeNotMapped"
  "\<not> consistency_panic ArithmeticOverflow" "\<not> consistency_panic OutOfProcessSlots"
  by (simp_all add: consistency_panic_def)

definition good :: "kpanic + ('a \<times> 'pt kernel) \<Rightarrow> bool" where
  "good r \<longleftrightarrow> (case r of Inl k \<Rightarrow> \<not> consistency_panic k | Inr (_, s') \<Rightarrow> kernel_ok s')"

lemma good_simps [simp]:
  "good (Inl k) \<longleftrightarrow> \<not> consistency_panic k" "good (Inr (x, s)) \<longleftrightarrow> kernel_ok s"
  by (simp_all add: good_def)

lemma good_sbind:
  assumes "good r" "\<And>x s. r = Inr (x, s) \<Longrightarrow> kernel_ok s \<Longrightarrow> good (f (x, s))"
  shows "good (sbind r f)"
proof (cases r)
  case (Inr y)
  then show ?thesis using assms by (cases y) simp
qed (use assms in simp)

lemma endpoints_ok_cong: "endpoints s = endpoints t \<Longrightarrow> endpoints_ok s = endpoints_ok t"
  by (simp add: endpoints_ok_def)

lemma frame_check_benign: "frame_check s f = Some k \<Longrightarrow> \<not> consistency_panic k"
  by (auto simp: frame_check_def consistency_panic_def split: if_splits)

lemma drop_boxes_benign: "drop_boxes pg ds s = Inl k \<Longrightarrow> \<not> consistency_panic k"
  by (induction ds arbitrary: s) (auto simp: drop_box_def sbind_Inl_iff consistency_panic_def split: option.splits)

lemma kernel_ok_cong: "sched_inv s = sched_inv t \<Longrightarrow> endpoints s = endpoints t \<Longrightarrow> kernel_ok s = kernel_ok t"
  by (simp add: kernel_ok_def endpoints_ok_def)

lemma blk_device_inv [simp]: "sched_inv (s\<lparr>blk_device := d\<rparr>) = sched_inv s"
  by (rule sched_inv_cong) simp_all

lemma space_evict_endpoints [simp]:
  "endpoints (activate_idle_address_space c s) = endpoints s" "endpoints (set_evict_request c w s) = endpoints s"
  by (simp_all add: activate_idle_address_space_def set_evict_request_def)

lemma kernel_ok_fields [simp]:
  "kernel_ok (s\<lparr>mem := m\<rparr>) = kernel_ok s" "kernel_ok (s\<lparr>blk_device := d\<rparr>) = kernel_ok s"
  "kernel_ok (set_frame i f s) = kernel_ok s" "kernel_ok (clear_outgoing out s) = kernel_ok s"
  "kernel_ok (mark_stack_busy i s) = kernel_ok s" "kernel_ok (activate_idle_address_space c s) = kernel_ok s"
  "kernel_ok (set_evict_request c w s) = kernel_ok s" "kernel_ok (send_reschedule c s) = kernel_ok s"
  by (rule kernel_ok_cong; simp)+

subsection \<open>Leaving and entering a process\<close>

lemma drop_boxes_ok: "drop_boxes pg ds s = Inr s' \<Longrightarrow> kernel_ok s' = kernel_ok s"
  by (rule kernel_ok_cong) (auto dest: drop_boxes_inv drop_boxes_fields)

lemma dispatched_ok:
  assumes "sched_inv_but c s" "endpoints_ok s" "c < MAX_CORES" "ring_pop (ready s) = (Some p, q)"
    "processes s ! pid_index p = Occupied b proc" "occupied s p = Some proc"
  shows "kernel_ok (dispatched c p b proc (s\<lparr>ready := q\<rparr>))"
  using dispatched_inv [OF assms(1,3-6)] assms(2)
  by (simp add: kernel_ok_def endpoints_ok_def dispatched_def Let_def)

lemma switch_to_good:
  assumes "sched_inv_but c s" "endpoints_ok s" "c < MAX_CORES" "ring_pop (ready s) = (Some p, q)"
  shows "good (switch_to c p (s\<lparr>ready := q\<rparr>))"
proof -
  obtain b proc where b: "processes s ! pid_index p = Occupied b proc" "occupied s p = Some proc"
    and sw: "switch_to c p (s\<lparr>ready := q\<rparr>) =
      (case frame_check s (trap_frames s ! pid_index p) of
         Some e \<Rightarrow> Inl e
       | None \<Rightarrow> Inr (pid_index p, dispatched c p b proc (s\<lparr>ready := q\<rparr>)))"
    using switch_to_popped [OF assms(1,3,4)] by blast
  then show ?thesis using dispatched_ok [OF assms b] by (auto simp: frame_check_benign split: option.splits)
qed

lemma kernel_okD: "kernel_ok s \<Longrightarrow> sched_inv s" "kernel_ok s \<Longrightarrow> endpoints_ok s" "kernel_ok s \<Longrightarrow> sched_inv_but c s"
  by (auto simp: kernel_ok_def intro: sched_inv_butI)

lemma pop_None_ok: "kernel_ok s \<Longrightarrow> ring_pop (ready s) = (None, q) \<Longrightarrow> kernel_ok (s\<lparr>ready := q\<rparr>)"
  using sched_inv_pop_None by (auto simp: kernel_ok_def endpoints_ok_def)

lemma drop_then_good:
  assumes "kernel_ok s" "\<And>s'. kernel_ok s' \<Longrightarrow> good (f s')"
  shows "good (sbind (drop_boxes pg ds s) f)"
  using assms drop_boxes_benign [of pg ds s] drop_boxes_ok [of pg ds s] by (cases "drop_boxes pg ds s") auto

lemma switch_next_good:
  assumes ok: "kernel_ok s" and c: "c < MAX_CORES"
  shows "good (switch_to_next_or_halt pg c out drops s)"
proof -
  obtain v q where pop: "ring_pop (ready s) = (v, q)" by fastforce
  show ?thesis
  proof (cases v)
    case None
    have "kernel_ok (s\<lparr>ready := q\<rparr>)" using pop_None_ok [OF ok] pop None by simp
    then show ?thesis
      using pop None by (auto simp: switch_to_next_or_halt_def abandon_process_stack_and_idle_def intro!: drop_then_good)
  next
    case (Some p)
    have "good (switch_to c p (s\<lparr>ready := q\<rparr>))"
      using switch_to_good [OF kernel_okD(3) [OF ok] kernel_okD(2) [OF ok] c] pop Some by simp
    then show ?thesis
      using pop Some by (auto simp: switch_to_next_or_halt_def finish_switch_def intro!: good_sbind drop_then_good)
  qed
qed

lemma preempt_endpoints: "preempt_current c f s = Inr s' \<Longrightarrow> endpoints s' = endpoints s"
  by (auto simp: preempt_current_def Let_def split: option.splits if_splits table_slot.splits)

lemma timer_tick_good:
  assumes ok: "kernel_ok s" and c: "c < MAX_CORES"
  shows "good (on_timer_tick c f s)"
proof -
  obtain s1 where s1: "preempt_current c f s = Inr s1" "sched_inv_but c s1"
    using preempt_current_inv [OF kernel_okD(1) [OF ok] c] by blast
  have e: "endpoints_ok s1" using kernel_okD(2) [OF ok] preempt_endpoints [OF s1(1)] by (simp add: endpoints_ok_def)
  obtain v q where pop: "ring_pop (ready s1) = (v, q)" by fastforce
  show ?thesis
  proof (cases v)
    case None
    then have r: "on_timer_tick c f s = Inr (ResumeFrame f, s1\<lparr>ready := q\<rparr>)" using s1(1) pop by (simp add: on_timer_tick_def)
    then show ?thesis using on_timer_tick_inv [OF kernel_okD(1) [OF ok] c r] e by (simp add: kernel_ok_def endpoints_ok_def)
  next
    case (Some p)
    then show ?thesis
      using switch_to_good [OF s1(2) e c] pop s1(1) by (auto simp: on_timer_tick_def intro!: good_sbind)
  qed
qed

lemma idle_turn_good:
  assumes ok: "kernel_ok s" and c: "c < MAX_CORES"
  shows "good (idle_turn c h s)"
proof -
  obtain v q where pop: "ring_pop (ready s) = (v, q)" by fastforce
  show ?thesis
    using pop pop_None_ok [OF ok] switch_to_good [OF kernel_okD(3) [OF ok] kernel_okD(2) [OF ok] c]
    by (cases v) (auto simp: idle_turn_def intro!: good_sbind)
qed

subsection \<open>Blocking, exiting, evicting and waiting\<close>

lemma block_locked_ok:
  assumes ok: "kernel_ok s" and c: "c < MAX_CORES"
  shows "\<exists>s'. block_current_process_locked c f s = Inr s' \<and> kernel_ok s'"
proof (cases "current s ! c")
  case None
  then show ?thesis using ok by (simp add: block_current_process_locked_def)
next
  case (Some p)
  obtain proc where live: "occupied s p = Some proc" using sched_inv_current [OF kernel_okD(1) [OF ok] c Some] by blast
  obtain s' where "block_current_process_locked c f s = Inr s'" "sched_inv s'" "endpoints s' = endpoints s"
    using block_locked_spec [OF kernel_okD(1) [OF ok] c Some live] by blast
  then show ?thesis using kernel_okD(2) [OF ok] by (auto simp: kernel_ok_def endpoints_ok_def)
qed

lemma block_good: "kernel_ok s \<Longrightarrow> c < MAX_CORES \<Longrightarrow> good (block_current_process pg c f s)"
  using block_locked_ok [of s c f] switch_next_good by (auto simp: block_current_process_def)

lemma take_waiting_ok: "endpoints_ok s \<Longrightarrow> take_waiting_process_receiver e s = (r, s') \<Longrightarrow> endpoints_ok s'"
  by (auto simp: take_waiting_process_receiver_def endpoints_ok_def split: rslot.splits waiter.splits)

lemma wake_orphan_ok [inv_intros]: "kernel_ok s \<Longrightarrow> kernel_ok (wake_orphan e s)"
proof -
  assume ok: "kernel_ok s"
  obtain r s1 where t: "take_waiting_process_receiver e s = (r, s1)" by fastforce
  have "endpoints_ok s1" using take_waiting_ok [OF kernel_okD(2) [OF ok] t] .
  then have "endpoints_ok (wake_orphan e s)" using t by (auto simp: wake_orphan_def endpoints_ok_def split: option.splits)
  then show ?thesis using wake_orphan_inv [OF kernel_okD(1) [OF ok]] by (simp add: kernel_ok_def)
qed

lemma wake_orphaned_ok [inv_intros]: "kernel_ok s \<Longrightarrow> kernel_ok (wake_orphaned_receivers ds s)"
  unfolding wake_orphaned_receivers_def by (rule fold_inv [where P = kernel_ok]) (auto intro: inv_intros)

lemma finalize_ok:
  assumes "kernel_ok s" "current_generation s p"
  shows "\<exists>s' ds. take_and_finalize_slot s p status d = Inr (s', ds) \<and> kernel_ok s'"
  using take_and_finalize_total [OF kernel_okD(1) [OF assms(1)] assms(2), of status d] kernel_okD(2) [OF assms(1)]
  by (auto simp: kernel_ok_def endpoints_ok_def shrinks_def)

lemma terminate_slot_ok:
  assumes "kernel_ok s" "current_generation s p"
  shows "\<exists>s' ds. terminate_slot p status s = Inr (s', ds) \<and> kernel_ok s'"
  using finalize_ok [OF assms, of status "[]"] by (auto simp: terminate_slot_def inv_intros)

lemma current_live:
  assumes "kernel_ok s" "c < MAX_CORES" "current s ! c = Some p"
  shows "pid_index p < MAX_PROCESSES" "current_generation s p"
  using sched_inv_current [OF kernel_okD(1) [OF assms(1)] assms(2,3)] current_generation_live occupied_SomeD(1) by metis+

lemma terminate_current_good:
  assumes ok: "kernel_ok s" and c: "c < MAX_CORES"
  shows "good (terminate_current_process pg c status s)"
proof (cases "current s ! c")
  case None
  then show ?thesis using switch_next_good [OF ok c] by (simp add: terminate_current_process_def)
next
  case (Some p)
  obtain s1 ds where "terminate_slot p status (mark_stack_busy (pid_index p) s) = Inr (s1, ds)" "kernel_ok s1"
    using terminate_slot_ok [of "mark_stack_busy (pid_index p) s" p status] ok current_live(2) [OF ok c Some] by auto
  then show ?thesis
    using Some current_live(1) [OF ok c Some] switch_next_good [OF _ c] by (simp add: terminate_current_process_def)
qed

lemma forget_current_ok [inv_intros]: "kernel_ok s \<Longrightarrow> kernel_ok (set_current c None s)"
  using forget_current_inv [of s c] by (simp add: kernel_ok_def endpoints_ok_def)

lemma reschedule_good:
  assumes ok: "kernel_ok s" and c: "c < MAX_CORES"
  shows "good (on_reschedule_ipi pg c f s)"
proof -
  let ?e = "evict_request (percpu s ! c)" and ?s1 = "set_evict_request c 0 s"
  have ok2: "kernel_ok (mark_stack_busy i (set_current c None ?s1))" for i using ok by (simp add: inv_intros)
  have "pid_index (Pid ?e) < MAX_PROCESSES" if e: "map_option pid_raw (current ?s1 ! c) = Some ?e"
  proof -
    obtain p where p: "current s ! c = Some p" "pid_raw p = ?e" using e by (auto simp: set_evict_request_def)
    then have "Pid ?e = p" by (metis pid.exhaust_sel)
    then show ?thesis using current_live(1) [OF ok c p(1)] by simp
  qed
  then show ?thesis
    using ok switch_next_good [OF ok2 c] by (auto simp: on_reschedule_ipi_def Let_def)
qed

lemma wait_good:
  assumes ok: "kernel_ok s" and c: "c < MAX_CORES"
  shows "good (wait_for_child pg c f target caller s)"
proof (cases "pid_index target < MAX_PROCESSES \<and> generations s ! pid_index target = pid_generation target")
  case False
  then show ?thesis using ok by (auto simp: wait_for_child_def Let_def)
next
  case True
  let ?i = "pid_index target"
  show ?thesis
  proof (cases "processes s ! ?i")
    case (Occupied b proc)
    have live: "occupied s target = Some proc" using True Occupied occupiedI by blast
    let ?s1 = "put_slot ?i (Occupied b (proc\<lparr>wait_waiter := Some caller\<rparr>)) s"
    have "sched_inv ?s1"
      using put_process_same_inv [OF kernel_okD(1) [OF ok] live, of "proc\<lparr>wait_waiter := Some caller\<rparr>"]
      by (simp add: put_process_put_slot [OF Occupied])
    then have "kernel_ok ?s1" using kernel_okD(2) [OF ok] by (simp add: kernel_ok_def endpoints_ok_def)
    then obtain s2 where "block_current_process_locked c f ?s1 = Inr s2" "kernel_ok s2" using block_locked_ok c by blast
    then show ?thesis
      using True Occupied ok switch_next_good [OF _ c] by (auto simp: wait_for_child_def Let_def wait_outcome_of_def)
  next
    case (Zombie q st)
    have "kernel_ok (put_slot ?i Empty s)"
      using sched_inv_not_occupied_slot [OF kernel_okD(1) [OF ok], of ?i Empty] True Zombie kernel_okD(2) [OF ok]
      by (simp add: kernel_ok_def endpoints_ok_def)
    then show ?thesis
      using True Zombie ok by (auto simp: wait_for_child_def Let_def wait_outcome_of_def split: prod.splits)
  qed (use True ok in \<open>auto simp: wait_for_child_def Let_def wait_outcome_of_def\<close>)
qed

subsection \<open>Actions of system calls\<close>

text \<open>
  From a state with \<^term>\<open>P\<close> an action does not panic over inconsistent data; an error leaves the
  invariant, a value \<^term>\<open>x\<close> leaves \<^term>\<open>Q x\<close>.
\<close>

definition sys_triple :: "('pt kernel \<Rightarrow> bool) \<Rightarrow> ('pt, 'a) sys \<Rightarrow> ('a \<Rightarrow> 'pt kernel \<Rightarrow> bool) \<Rightarrow> bool" where
  "sys_triple P m Q \<longleftrightarrow> (\<forall>s. P s \<longrightarrow>
    (case m s of
       None \<Rightarrow> True
     | Some (Inl k) \<Rightarrow> \<not> consistency_panic k
     | Some (Inr (Inl e, s')) \<Rightarrow> kernel_ok s'
     | Some (Inr (Inr x, s')) \<Rightarrow> Q x s'))"

abbreviation keeps :: "('pt, 'a) sys \<Rightarrow> bool" where
  "keeps m \<equiv> sys_triple kernel_ok m (\<lambda>_. kernel_ok)"

definition result_good :: "'pt sys_result \<Rightarrow> bool" where
  "result_good r \<longleftrightarrow> (case r of None \<Rightarrow> True | Some x \<Rightarrow> good x)"

lemma result_good_simps [simp]: "result_good None" "result_good (Some x) = good x"
  by (simp_all add: result_good_def)

lemma sys_tripleD: "sys_triple P m Q \<Longrightarrow> P s \<Longrightarrow> m s = Some (Inr (Inr x, s')) \<Longrightarrow> Q x s'"
  "sys_triple P m Q \<Longrightarrow> P s \<Longrightarrow> m s = Some (Inr (Inl e, s')) \<Longrightarrow> kernel_ok s'"
  "sys_triple P m Q \<Longrightarrow> P s \<Longrightarrow> m s = Some (Inl k) \<Longrightarrow> \<not> consistency_panic k"
  by (fastforce simp: sys_triple_def)+

lemma sys_tripleI:
  assumes "\<And>s x s'. P s \<Longrightarrow> m s = Some (Inr (Inr x, s')) \<Longrightarrow> Q x s'"
    "\<And>s e s'. P s \<Longrightarrow> m s = Some (Inr (Inl e, s')) \<Longrightarrow> kernel_ok s'"
    "\<And>s k. P s \<Longrightarrow> m s = Some (Inl k) \<Longrightarrow> \<not> consistency_panic k"
  shows "sys_triple P m Q"
  using assms by (auto simp: sys_triple_def split: option.splits sum.splits)

lemma sys_bind_cases:
  "sys_bind m f s = Some r \<longleftrightarrow>
    (\<exists>k. m s = Some (Inl k) \<and> r = Inl k) \<or> (\<exists>e s'. m s = Some (Inr (Inl e, s')) \<and> r = Inr (Inl e, s'))
    \<or> (\<exists>x s'. m s = Some (Inr (Inr x, s')) \<and> f x s' = Some r)"
  by (auto simp: sys_bind_def split: option.splits sum.splits)

lemma triple_bind:
  assumes m: "sys_triple P m Q" and f: "\<And>x. sys_triple (Q x) (f x) R"
  shows "sys_triple P (sys_bind m f) R"
proof (rule sys_tripleI)
  fix s x s' assume "P s" "sys_bind m f s = Some (Inr (Inr x, s'))"
  then show "R x s'" using sys_tripleD(1) [OF m] sys_tripleD(1) [OF f] by (auto simp: sys_bind_cases) blast
next
  fix s e s' assume "P s" "sys_bind m f s = Some (Inr (Inl e, s'))"
  then show "kernel_ok s'" using sys_tripleD(1,2) [OF m] sys_tripleD(2) [OF f] by (auto simp: sys_bind_cases) blast+
next
  fix s k assume "P s" "sys_bind m f s = Some (Inl k)"
  then show "\<not> consistency_panic k"
    using sys_tripleD(1,3) [OF m] sys_tripleD(3) [OF f] by (auto simp: sys_bind_cases) blast+
qed

lemma return_to_good:
  assumes "sys_triple P m (\<lambda>_. kernel_ok)" "P s"
  shows "result_good (return_to frame m s)"
proof (cases "m s")
  case (Some r)
  show ?thesis
  proof (cases r)
    case (Inl k)
    then show ?thesis using Some sys_tripleD(3) [OF assms] by (simp add: return_to_def)
  next
    case (Inr y)
    then show ?thesis
      using Some sys_tripleD(1,2) [OF assms] by (cases y; cases "fst y") (auto simp: return_to_def)
  qed
qed (simp add: return_to_def)

lemma keeps_basic [simp, intro!]: "keeps (sys_ok x)" "keeps (sys_err e)"
  by (auto simp: sys_triple_def sys_ok_def sys_err_def)

lemma with_current_ok:
  assumes "kernel_ok s" "with_current_process c f s = (r, s')"
    "\<And>proc. pid (snd (f proc)) = pid proc \<and> pstate (snd (f proc)) = pstate proc"
  shows "kernel_ok s'"
proof -
  have "sched_inv s'" by (rule with_current_process_inv [OF kernel_okD(1) [OF assms(1)] assms(2,3)])
  moreover have "endpoints s' = endpoints s"
    using assms(2) by (auto simp: with_current_process_def with_process_def split: option.splits prod.splits)
  ultimately show ?thesis using kernel_okD(2) [OF assms(1)] by (simp add: kernel_ok_def endpoints_ok_def)
qed

lemma on_current_keeps:
  assumes "\<And>proc. pid (snd (f proc)) = pid proc \<and> pstate (snd (f proc)) = pstate proc"
  shows "keeps (on_current c e f)"
  using with_current_ok [OF _ _ assms]
  by (auto simp: sys_triple_def on_current_def sys_err_def split: prod.splits option.splits sum.splits)

lemma current_pid_keeps [intro!]: "keeps (current_pid c)"
  unfolding current_pid_def by (rule on_current_keeps) simp

end
