(* ===== verification/Kernel_Sys.thy ===== *)
theory Kernel_Sys
  imports Kernel_Inv
begin

text \<open>
  Every system call keeps the kernel invariant and never panics over inconsistent kernel data; the
  reachable states of the whole kernel, and what holds of them.
\<close>

subsection \<open>IPC calls\<close>

lemma resolve_keeps: "keeps (resolve_endpoint c i req)"
  unfolding resolve_endpoint_def by (rule on_current_keeps) simp

lemma message_wf_send [simp]: "message_wf (send_message f)"
  by (simp add: send_message_def message_wf_def MESSAGE_INLINE_WORDS_def)

lemma sys_send_good:
  assumes ok: "kernel_ok s" and c: "c < MAX_CORES"
  shows "result_good (sys_send pg c f s)"
proof -
  have S: "good (sbind (endpoint_try_send e (send_message f) p t) (\<lambda>(r, s).
           case r of
             SDelivered \<Rightarrow> Inr (ResumeFrame (f\<lparr>rax := 0\<rparr>), s)
           | SBlocked \<Rightarrow> block_current_process pg c f s
           | SQueueFull \<Rightarrow> Inr (ResumeFrame (f\<lparr>rax := as_retval ResourceExhausted\<rparr>), s)))" if t: "kernel_ok t" for e p t
  proof -
    obtain r t' where r: "endpoint_try_send e (send_message f) p t = Inr (r, t')" "sched_inv t'" "endpoints_ok t'"
      using send_as_total [OF kernel_okD(1,2) [OF t], of "send_message f" e "Process p"]
      by (auto simp: endpoint_try_send_def)
    then have "kernel_ok t'" by (simp add: kernel_ok_def)
    then show ?thesis using r(1) block_good [OF _ c] by (cases r) auto
  qed
  show ?thesis
    using S sys_tripleD [OF resolve_keeps ok, of c "CapIndex (ucast (rdi f))" R_SEND]
    by (auto simp: sys_send_def split: option.splits sum.splits)
qed

lemma sys_recv_good:
  assumes ok: "kernel_ok s" and c: "c < MAX_CORES"
  shows "result_good (sys_recv pg c f s)"
proof -
  have S: "good (sbind (endpoint_try_recv e p t) (\<lambda>(r, s).
           case r of
             RDelivered m \<Rightarrow> Inr (ResumeFrame (recv_frame m f), s)
           | RBlocked \<Rightarrow> block_current_process pg c f s
           | RQueueFull \<Rightarrow> Inr (ResumeFrame (f\<lparr>rax := as_retval ResourceExhausted\<rparr>), s)))" if t: "kernel_ok t" for e p t
  proof -
    obtain r t' where r: "endpoint_try_recv e p t = Inr (r, t')" "sched_inv t'" "endpoints_ok t'"
      using try_recv_total [OF kernel_okD(1,2) [OF t], of e p] by blast
    then have "kernel_ok t'" by (simp add: kernel_ok_def)
    then show ?thesis using r(1) block_good [OF _ c] by (cases r) auto
  qed
  show ?thesis
    using S sys_tripleD [OF resolve_keeps ok, of c "CapIndex (ucast (rdi f))" R_RECV]
    by (auto simp: sys_recv_def split: option.splits sum.splits)
qed

subsection \<open>Spawning\<close>

lemma read_root_file_ok: "kernel_ok s \<Longrightarrow> read_root_file pf name s = Some (r, s') \<Longrightarrow> kernel_ok s'"
  by (auto simp: read_root_file_def split: option.splits)

lemma program_bytes_keeps: "keeps (program_bytes pf name)"
  by (rule sys_tripleI)
     (auto simp: program_bytes_def sys_ok_def sys_err_def split: option.splits sum.splits dest: read_root_file_ok)

text \<open>A computation whose panics, if any, do not report inconsistent data.\<close>

definition harmless :: "kpanic + 'a \<Rightarrow> bool" where
  "harmless r \<longleftrightarrow> (case r of Inl k \<Rightarrow> \<not> consistency_panic k | Inr _ \<Rightarrow> True)"

lemma harmless_simps [simp]: "harmless (Inr x)" "harmless (Inl k) \<longleftrightarrow> \<not> consistency_panic k"
  by (simp_all add: harmless_def)

lemma harmless_sbind: "harmless r \<Longrightarrow> (\<And>x. harmless (f x)) \<Longrightarrow> harmless (sbind r f)"
  by (cases r) auto

lemma copy_segment_harmless: "harmless (copy_segment pg root va remaining m)"
proof (induction pg root va remaining m rule: copy_segment.induct)
  case (1 pg root va remaining m)
  show ?case
  proof (cases "remaining = []")
    case True
    then show ?thesis by (simp add: copy_segment.simps)
  next
    case False
    show ?thesis
    proof (cases "translate_in pg root (page_of va) m")
      case None
      then show ?thesis using False by (simp add: copy_segment.simps [of pg root va])
    next
      case (Some t)
      then obtain phys fl where t: "translate_in pg root (page_of va) m = Some (phys, fl)" by (cases t) simp
      show ?thesis using 1 [OF False t refl refl refl] False t by (subst copy_segment.simps) (simp add: Let_def)
    qed
  qed
qed

lemma load_segment_harmless: "harmless (load_segment pg root ph data m)"
  by (auto simp: load_segment_def intro!: harmless_sbind copy_segment_harmless split: sum.split prod.split)

lemma load_segments_harmless: "harmless (load_segments pg root data phs m)"
  by (induction phs arbitrary: m) (auto intro!: harmless_sbind load_segment_harmless split: sum.split)

lemma elf_load_harmless: "harmless (elf_load pg root bs m)"
  by (auto simp: elf_load_def intro!: harmless_sbind load_segments_harmless split: sum.split)

lemma fail_dropping_harmless: "harmless (fail_dropping pg root e m t)"
  by (auto simp: fail_dropping_def split: option.split)

lemma process_new_harmless: "harmless (process_new pg p root entry par t)"
  by (auto simp: process_new_def intro!: fail_dropping_harmless split: prod.split sum.split)

lemma from_elf_harmless: "harmless (process_from_elf pg p bs par s)"
  by (auto simp: process_from_elf_def intro!: harmless_sbind elf_load_harmless fail_dropping_harmless process_new_harmless
      split: prod.split sum.split)

lemma reserved_fields [simp]:
  "reserved_for (s\<lparr>mem := m\<rparr>) p = reserved_for s p" "reserved_for (set_frame i f s) p = reserved_for s p"
  by (simp_all add: reserved_for_def)

definition child_reserved :: "pid \<Rightarrow> 'pt kernel \<Rightarrow> bool" where
  "child_reserved p s \<longleftrightarrow> kernel_ok s \<and> (pid_index p < MAX_PROCESSES \<longrightarrow> reserved_for s p)"

lemma allocate_triple:
  "sys_triple kernel_ok (\<lambda>s. case allocate_pid s of (p, s') \<Rightarrow> sys_ok p s') child_reserved"
proof (rule sys_tripleI)
  fix s :: "'a kernel" and p s'
  assume ok: "kernel_ok s" and "(case allocate_pid s of (p, s') \<Rightarrow> sys_ok p s') = Some (Inr (Inr p, s'))"
  then have e: "allocate_pid s = (p, s')" by (simp add: sys_ok_def split: prod.splits)
  have "endpoints s' = endpoints s" using e by (cases rule: allocate_pid_cases [of s]) auto
  then show "child_reserved p s'"
    using allocate_pid_inv [OF kernel_okD(1) [OF ok] e] kernel_okD(2) [OF ok]
    by (auto simp: child_reserved_def kernel_ok_def endpoints_ok_def)
qed (auto simp: sys_ok_def split: prod.splits)

lemma release_endpoints: "endpoints (release_reservation p s) = endpoints s"
  by (simp add: release_reservation_def Let_def)

lemma spawn_suspended_endpoints: "spawn_suspended pg child s = Inr (r, s') \<Longrightarrow> endpoints s' = endpoints s"
  by (auto simp: spawn_suspended_def refuse_def Let_def sbind_Inr_iff alloc_process_slot_def
      split: if_splits option.splits)

lemma build_child_triple:
  "sys_triple (child_reserved p) (build_child pg p bs caller)
     (\<lambda>child s. child_reserved p s \<and> pid child = p \<and> pstate child = Suspended)"
proof (rule sys_tripleI)
  fix s :: "'a kernel" and child s'
  assume res: "child_reserved p s" and b: "build_child pg p bs caller s = Some (Inr (Inr child, s'))"
  then obtain proc where e: "process_from_elf pg p bs (Some caller) s = Inr (Inr proc, s')"
    and child: "child = proc\<lparr>pstate := Suspended\<rparr>"
    by (auto simp: build_child_def sys_ok_def sys_err_def split: sum.splits prod.splits)
  then show "child_reserved p s' \<and> pid child = p \<and> pstate child = Suspended"
    using process_from_elf_built [OF e] res by (auto simp: built_def fresh_process_def child_reserved_def)
next
  fix s :: "'a kernel" and e s'
  assume res: "child_reserved p s" and b: "build_child pg p bs caller s = Some (Inr (Inl e, s'))"
  then obtain err t where e: "process_from_elf pg p bs (Some caller) s = Inr (Inl err, t)"
    and s': "s' = release_reservation p t"
    by (auto simp: build_child_def sys_ok_def sys_err_def split: sum.splits prod.splits)
  then have "kernel_ok t" using process_from_elf_built [OF e] res by (auto simp: built_def child_reserved_def)
  then show "kernel_ok s'"
    using s' release_reservation_inv [of t p] release_endpoints [of p t] by (simp add: kernel_ok_def endpoints_ok_def)
next
  fix s :: "'a kernel" and k
  assume "build_child pg p bs caller s = Some (Inl k)"
  then show "\<not> consistency_panic k"
    using from_elf_harmless [of pg p bs "Some caller" s]
    by (auto simp: build_child_def sys_ok_def sys_err_def split: sum.splits prod.splits)
qed

lemma spawned:
  assumes "child_reserved p s" "pid child = p" "pstate child = Suspended" "spawn_suspended pg child s = Inr (r, s')"
  shows "kernel_ok s'"
  using spawn_suspended_inv [OF _ _ assms(3,4)] spawn_suspended_endpoints [OF assms(4)] assms(1,2)
  by (simp add: child_reserved_def kernel_ok_def endpoints_ok_def)

lemma spawn_suspended_triple:
  "sys_triple (\<lambda>s. child_reserved p s \<and> pid child = p \<and> pstate child = Suspended)
     (\<lambda>s. Some (spawn_suspended pg child s)) (\<lambda>_. kernel_ok)"
proof (rule sys_tripleI)
  fix s :: "'a kernel" and k
  assume "Some (spawn_suspended pg child s) = Some (Inl k)"
  then show "\<not> consistency_panic k"
    by (auto simp: spawn_suspended_def refuse_def Let_def sbind_Inl_iff alloc_process_slot_def
        split: if_splits option.splits)
next
  fix s :: "'a kernel" and r s'
  assume P: "child_reserved p s \<and> pid child = p \<and> pstate child = Suspended"
    and e: "Some (spawn_suspended pg child s) = Some (Inr (Inr r, s'))"
  then show "kernel_ok s'" by (intro spawned [of p s child pg]) auto
next
  fix s :: "'a kernel" and r s'
  assume P: "child_reserved p s \<and> pid child = p \<and> pstate child = Suspended"
    and e: "Some (spawn_suspended pg child s) = Some (Inr (Inl r, s'))"
  then show "kernel_ok s'" by (intro spawned [of p s child pg]) auto
qed

lemma sys_spawn_good: "kernel_ok s \<Longrightarrow> result_good (sys_spawn pf c f s)"
  unfolding sys_spawn_def Let_def
  by (rule return_to_good [of kernel_ok], intro triple_bind)
     (auto intro: program_bytes_keeps allocate_triple build_child_triple spawn_suspended_triple)

subsection \<open>Grants, starting and killing\<close>

lemma keeps_fun: "(\<And>s r s'. kernel_ok s \<Longrightarrow> g s = (r, s') \<Longrightarrow> kernel_ok s') \<Longrightarrow> keeps (\<lambda>s. Some (Inr (g s)))"
  by (rule sys_tripleI) auto

lemma with_process_ok:
  assumes "kernel_ok s" "with_process p f s = (r, s')"
    "\<And>proc. pid (snd (f proc)) = pid proc \<and> pstate (snd (f proc)) = pstate proc"
  shows "kernel_ok s'"
proof -
  have "sched_inv s'" by (rule with_process_inv [OF kernel_okD(1) [OF assms(1)] assms(2,3)])
  moreover have "endpoints s' = endpoints s"
    using assms(2) by (auto simp: with_process_def split: option.splits prod.splits)
  ultimately show ?thesis using kernel_okD(2) [OF assms(1)] by (simp add: kernel_ok_def endpoints_ok_def)
qed

lemma grant_source_keeps: "keeps (grant_source c src req)"
  unfolding grant_source_def by (rule on_current_keeps) simp

lemma grant_into_keeps: "keeps (grant_into target caller dest slot)"
  by (rule sys_tripleI) (auto simp: grant_into_def sys_err_def split: prod.splits option.splits dest!: with_process_ok [rotated])

lemma sys_grant_good: "kernel_ok s \<Longrightarrow> result_good (sys_grant c f s)"
  unfolding sys_grant_def Let_def
  by (rule return_to_good [of kernel_ok], intro triple_bind)
     (auto intro!: grant_source_keeps triple_bind grant_into_keeps split: prod.split)

lemma start_child_endpoints: "start_child target caller s = (r, s') \<Longrightarrow> endpoints s' = endpoints s"
  by (auto simp: start_child_def split: option.splits if_splits)

lemma start_child_ok: "kernel_ok s \<Longrightarrow> start_child target caller s = (r, s') \<Longrightarrow> kernel_ok s'"
  using start_child_inv [of s target caller r s'] start_child_endpoints [of target caller s r s']
  by (simp add: kernel_ok_def endpoints_ok_def)

lemma sys_process_start_good: "kernel_ok s \<Longrightarrow> result_good (sys_process_start c f s)"
  unfolding sys_process_start_def
  by (rule return_to_good [of kernel_ok], intro triple_bind) (auto intro: keeps_fun start_child_ok)

lemma sys_wait_good: "kernel_ok s \<Longrightarrow> c < MAX_CORES \<Longrightarrow> result_good (sys_wait pg c f s)"
  using with_current_ok [of s c "\<lambda>p. (pid p, p)"]
  by (auto simp: sys_wait_def intro!: wait_good split: prod.splits option.splits)

text \<open>
  While a kill spins, the other cores keep the invariant and do not recycle a slot in use.
\<close>

definition others_ok :: "'pt platform \<Rightarrow> bool" where
  "others_ok pf \<longleftrightarrow> (\<forall>n s p. kernel_ok s \<and> current_generation s p \<longrightarrow>
    kernel_ok (pf_others pf n s) \<and> current_generation (pf_others pf n s) p)"

lemma terminate_scan_good:
  assumes ok: "kernel_ok s" and g: "current_generation s p"
  shows "good (terminate_scan pg p s)"
proof (cases "owning_core p s")
  case None
  obtain s1 ds where f: "take_and_finalize_slot s p Killed [] = Inr (s1, ds)" "kernel_ok s1"
    using finalize_ok [OF ok g] by blast
  then have "good (sbind (drop_boxes pg ds (wake_orphaned_receivers ds s1)) (\<lambda>s. Inr (None, s)))"
    by (intro drop_then_good wake_orphaned_ok) auto
  then show ?thesis using None f by (simp add: terminate_scan_def)
qed (use ok in \<open>simp add: terminate_scan_def\<close>)

lemma current_generation_fields [simp]:
  "current_generation (set_evict_request c w s) p = current_generation s p"
  "current_generation (send_reschedule c s) p = current_generation s p"
  by (simp_all add: current_generation_def set_evict_request_def send_reschedule_def)

lemma terminate_loop_ok:
  assumes "kernel_ok s" "current_generation s p" "others_ok pf"
  shows "case terminate_loop n (pf_others pf) pg p s of
           Inl k \<Rightarrow> \<not> consistency_panic k | Inr None \<Rightarrow> True | Inr (Some s') \<Rightarrow> kernel_ok s'"
  using assms(1,2)
proof (induction n arbitrary: s)
  case (Suc n)
  have g: "good (terminate_scan pg p s)" using terminate_scan_good Suc.prems by blast
  show ?case
  proof (cases "terminate_scan pg p s")
    case (Inl k)
    then show ?thesis using g by simp
  next
    case (Inr r)
    then obtain ow s1 where r: "terminate_scan pg p s = Inr (ow, s1)" by (cases r) simp
    show ?thesis
    proof (cases ow)
      case None
      then show ?thesis using r g by simp
    next
      case (Some core)
      then have "s1 = send_reschedule core (set_evict_request core (pid_raw p) s)"
        using r by (auto simp: terminate_scan_def sbind_Inr_iff split: option.splits)
      then have "kernel_ok s1 \<and> current_generation s1 p" using Suc.prems by simp
      then have "kernel_ok (pf_others pf n s1) \<and> current_generation (pf_others pf n s1) p"
        using assms(3) unfolding others_ok_def by blast
      then show ?thesis using Suc.IH r Some by (simp add: Let_def)
    qed
  qed
qed simp

lemma sys_kill_good:
  assumes "kernel_ok s" "others_ok pf"
  shows "result_good (sys_kill pf c f s)"
proof -
  have "keeps (\<lambda>s. case terminate_process (pf_rounds pf) (pf_others pf) (pf_paging pf) (Pid (rdi f)) caller s of
                       Inl k \<Rightarrow> Some (Inl k) | Inr None \<Rightarrow> None | Inr (Some r) \<Rightarrow> Some (Inr r))" for caller
    unfolding sys_triple_def
  proof (intro allI impI)
    fix s :: "'a kernel" assume ok: "kernel_ok s"
    show "case (case terminate_process (pf_rounds pf) (pf_others pf) (pf_paging pf) (Pid (rdi f)) caller s of
                       Inl k \<Rightarrow> Some (Inl k) | Inr None \<Rightarrow> None | Inr (Some r) \<Rightarrow> Some (Inr r)) of
       None \<Rightarrow> True
     | Some (Inl k) \<Rightarrow> \<not> consistency_panic k
     | Some (Inr (Inl e, s')) \<Rightarrow> kernel_ok s'
     | Some (Inr (Inr x, s')) \<Rightarrow> kernel_ok s'"
    proof (cases "terminate_check (Pid (rdi f)) caller s")
      case (Inl e)
      then show ?thesis using ok by (simp add: terminate_process_def)
    next
      case (Inr u)
      then obtain proc where "occupied s (Pid (rdi f)) = Some proc" by (auto simp: terminate_check_def split: option.splits)
      then have "current_generation s (Pid (rdi f))" by (rule current_generation_live)
      from terminate_loop_ok [OF ok this assms(2), of "pf_rounds pf" "pf_paging pf"]
      show ?thesis using Inr by (auto simp: terminate_process_def split: sum.splits option.splits)
    qed
  qed
  then show ?thesis
    unfolding sys_kill_def using assms(1) by (intro return_to_good [of kernel_ok] triple_bind) auto
qed

subsection \<open>Memory, block and file calls\<close>

lemma map_heap_keeps: "keeps (map_heap_pages pg root addrs)"
proof (induction addrs)
  case (Cons a as)
  note D = sys_tripleD [OF Cons]
  show ?case
    by (rule sys_tripleI)
       (auto simp: sys_err_def sys_panic_def split: prod.splits option.splits sum.splits if_splits
         dest: D(1) [rotated] D(2) [rotated] D(3) [rotated])
qed simp

lemma sbrk_plan_harmless: "harmless (sbrk_plan i e)"
  by (auto simp: sbrk_plan_def split: option.split)

lemma keeps_panic: "\<not> consistency_panic k \<Longrightarrow> keeps (sys_panic k)"
  by (simp add: sys_triple_def sys_panic_def)

lemma sys_sbrk_good:
  fixes s :: "'pt kernel"
  assumes "kernel_ok s" shows "result_good (sys_sbrk pg c f s)"
proof -
  let ?first = "on_current c InvalidTarget (\<lambda>p. (Inr (sbrk_plan (rdi f) (heap_end p), pml4 p), p)) :: ('pt, (kpanic + syscall_error + u64 \<times> u64) \<times> u64) sys"
  have first: "sys_triple kernel_ok ?first (\<lambda>x s. kernel_ok s \<and> harmless (fst x))"
  proof (rule sys_tripleI)
    fix s :: "'pt kernel" and x s'
    assume ok: "kernel_ok s" and e: "?first s = Some (Inr (Inr x, s'))"
    have "kernel_ok s'" using sys_tripleD(1) [OF on_current_keeps ok e] by simp
    moreover have "\<exists>i e r. x = (sbrk_plan i e, r)"
      using e by (auto simp: on_current_def with_current_process_def with_process_def sys_err_def
          split: option.splits prod.splits)
    ultimately show "kernel_ok s' \<and> harmless (fst x)" using sbrk_plan_harmless by auto
  qed (use on_current_keeps [of "\<lambda>p. (Inr (sbrk_plan (rdi f) (heap_end p), pml4 p), p)"] sys_tripleD in fastforce)+
  have rest: "sys_triple (\<lambda>s. kernel_ok s \<and> harmless plan)
     (case plan of Inl k \<Rightarrow> sys_panic k | Inr (Inl e) \<Rightarrow> sys_err e
       | Inr (Inr (old_end, new_end)) \<Rightarrow>
           sys_bind (map_heap_pages pg root (heap_pages (align_up old_end 4096) (align_up new_end 4096))) (\<lambda>_.
           sys_bind (on_current c InvalidTarget (\<lambda>p. (Inr (), p\<lparr>heap_end := new_end\<rparr>))) (\<lambda>_.
           sys_ok old_end))) (\<lambda>_. kernel_ok)" for plan and root
  proof -
    have "sys_triple (\<lambda>s. kernel_ok s \<and> R) m (\<lambda>_. kernel_ok)" if "R \<Longrightarrow> keeps m" for R and m :: "('pt, u64) sys"
      using that by (auto simp: sys_triple_def)
    then show ?thesis
      by (auto intro!: keeps_panic triple_bind map_heap_keeps on_current_keeps split: sum.split)
  qed
  show ?thesis
    unfolding sys_sbrk_def by (rule return_to_good [of kernel_ok], rule triple_bind [OF first]) (use rest assms in auto)
qed

lemma validate_pages_harmless: "harmless (validate_pages pg root stop page m)"
proof (induction pg root stop page m rule: validate_pages.induct)
  case (1 pg root stop page m)
  show ?case
    by (subst validate_pages.simps) (auto intro!: 1 split: option.split)
qed

lemma copy_pages_harmless: "harmless (copy_pages pg root ptr stop src page m)"
proof (induction pg root ptr stop src page m rule: copy_pages.induct)
  case (1 pg root ptr stop src page m)
  show ?case
    by (subst copy_pages.simps) (auto simp: Let_def intro!: 1 split: option.split)
qed

lemma check_range_keeps: "keeps (check_range pg root ptr n)"
proof -
  have "harmless (validate_write_range pg root ptr n m)" for m
    by (auto simp: validate_write_range_def intro!: harmless_sbind validate_pages_harmless split: option.split)
  then show ?thesis
    by (intro sys_tripleI)
       (auto simp: check_range_def sys_ok_def sys_err_def sys_panic_def split: sum.splits, metis harmless_simps(2))
qed

lemma copy_out_keeps: "keeps (copy_out pg root ptr src)"
proof -
  have "harmless (copy_into_user_range pg root ptr src m)" for m
    by (auto simp: copy_into_user_range_def intro!: copy_pages_harmless split: option.split)
  then show ?thesis
    by (intro sys_tripleI)
       (auto simp: copy_out_def sys_ok_def sys_panic_def split: sum.splits, metis harmless_simps(2))
qed

lemma object_pml4_keeps: "keeps (object_pml4 c i ob)"
  unfolding object_pml4_def by (rule on_current_keeps) simp

lemma device_read_keeps: "keeps (device_read pf lba n)"
  by (rule sys_tripleI) (auto simp: device_read_def sys_ok_def sys_err_def split: option.splits sum.splits)

lemma file_bytes_keeps: "keeps (file_bytes pf name)"
  by (rule sys_tripleI)
     (auto simp: file_bytes_def sys_ok_def sys_err_def split: option.splits sum.splits dest: read_root_file_ok)

lemma sys_block_read_good: "kernel_ok s \<Longrightarrow> result_good (sys_block_read pf c f s)"
  unfolding sys_block_read_def Let_def
  by (rule return_to_good [of kernel_ok])
     (auto intro!: triple_bind object_pml4_keeps check_range_keeps device_read_keeps copy_out_keeps)

lemma sys_file_read_good: "kernel_ok s \<Longrightarrow> result_good (sys_file_read pf c f s)"
  unfolding sys_file_read_def Let_def
  by (rule return_to_good [of kernel_ok])
     (auto intro!: triple_bind object_pml4_keeps check_range_keeps file_bytes_keeps copy_out_keeps)

subsection \<open>Dispatch\<close>

lemma result_good_if: "result_good a \<Longrightarrow> result_good b \<Longrightarrow> result_good (if P then a else b)"
  by simp

lemma syscall_good:
  assumes "kernel_ok s" "c < MAX_CORES" "others_ok pf"
  shows "result_good (syscall_dispatch pf c f s)"
proof -
  have "result_good (Some (on_syscall_yield c f s))" "result_good (Some (on_syscall_exit (pf_paging pf) c f s))"
    using timer_tick_good [OF assms(1,2)] terminate_current_good [OF assms(1,2)]
    by (simp_all add: on_syscall_yield_def on_syscall_exit_def)
  then show ?thesis
    unfolding syscall_dispatch_def Let_def
    using assms
    by (intro result_good_if sys_send_good sys_recv_good sys_spawn_good sys_grant_good sys_process_start_good
        sys_wait_good sys_kill_good sys_sbrk_good sys_block_read_good sys_file_read_good) auto
qed

end
