(* ===== verification/Entry.thy ===== *)
theory Entry
  imports Kernel_Sys
begin

text \<open>
  Entering and leaving the kernel: the assembly stubs of \<^verbatim>\<open>arch/x86_64/context_switch.rs\<close> and
  \<^verbatim>\<open>syscall.rs\<close> as pushes and pops on a stack of words, the interrupt descriptor table of
  \<^verbatim>\<open>idt.rs\<close>, and what every vector does on a core.
\<close>

subsection \<open>Registers and stacks\<close>

datatype gpr = RAX | RBX | RCX | RDX | RSI | RDI | RBP | R8 | R9 | R10 | R11 | R12 | R13 | R14 | R15

record cpu =
  gprs :: "gpr \<Rightarrow> u64"
  cpu_rip :: u64
  cpu_cs :: u64
  cpu_rflags :: u64
  cpu_rsp :: u64
  cpu_ss :: u64

text \<open>A stack is the list of its words from the top; word \<^term>\<open>i\<close> is at byte offset \<^term>\<open>8 * i\<close>.\<close>

fun push_all :: "gpr list \<Rightarrow> (gpr \<Rightarrow> u64) \<Rightarrow> u64 list \<Rightarrow> u64 list" where
  "push_all [] g stack = stack"
| "push_all (r # rs) g stack = push_all rs g (g r # stack)"

fun pop_all :: "gpr list \<Rightarrow> (gpr \<Rightarrow> u64) \<Rightarrow> u64 list \<Rightarrow> (gpr \<Rightarrow> u64) \<times> u64 list" where
  "pop_all [] g stack = (g, stack)"
| "pop_all (r # rs) g stack = pop_all rs (g(r := hd stack)) (tl stack)"

subsection \<open>The stubs\<close>

definition entry_pushes :: "gpr list" where
  "entry_pushes = [RAX, RBX, RCX, RDX, RSI, RDI, RBP, R8, R9, R10, R11, R12, R13, R14, R15]"

definition exit_pops :: "gpr list" where
  "exit_pops = [R15, R14, R13, R12, R11, R10, R9, R8, RBP, RDI, RSI, RDX, RCX, RBX, RAX]"

text \<open>
  What the processor pushes when it delivers an interrupt in 64-bit mode: \<^verbatim>\<open>ss\<close>, \<^verbatim>\<open>rsp\<close>,
  \<^verbatim>\<open>rflags\<close>, \<^verbatim>\<open>cs\<close>, \<^verbatim>\<open>rip\<close> and for some exceptions an error code.
\<close>

definition hardware_frame :: "u64 option \<Rightarrow> cpu \<Rightarrow> u64 list" where
  "hardware_frame code c =
    (case code of None \<Rightarrow> [] | Some e \<Rightarrow> [e]) @ [cpu_rip c, cpu_cs c, cpu_rflags c, cpu_rsp c, cpu_ss c]"

definition exception_entry_no_code :: "cpu \<Rightarrow> u64 list" where
  "exception_entry_no_code c = push_all entry_pushes (gprs c) (hardware_frame None c)"

definition exception_entry_with_code :: "u64 \<Rightarrow> cpu \<Rightarrow> u64 list" where
  "exception_entry_with_code e c = push_all entry_pushes (gprs c) (hardware_frame (Some e) c)"

text \<open>\<^verbatim>\<open>mov rax, [rsp + 128]\<close> (136 with an error code) and \<^verbatim>\<open>test al, 3\<close>.\<close>

definition cs_word :: "nat \<Rightarrow> u64 list \<Rightarrow> u64" where
  "cs_word offset stack = stack ! (offset div 8)"

definition from_ring3 :: "u64 \<Rightarrow> bool" where
  "from_ring3 sel \<longleftrightarrow> sel AND 3 \<noteq> 0"

text \<open>
  \<^verbatim>\<open>syscall_entry_stub\<close>: \<^verbatim>\<open>SYSCALL\<close> leaves the return address in \<^verbatim>\<open>rcx\<close> and the flags in
  \<^verbatim>\<open>r11\<close>; the selectors are the two statics.
\<close>

definition syscall_instruction :: "cpu \<Rightarrow> cpu" where
  "syscall_instruction c = c\<lparr>gprs := (gprs c)(RCX := cpu_rip c, R11 := cpu_rflags c)\<rparr>"

definition syscall_entry_stub :: "u64 \<Rightarrow> u64 \<Rightarrow> cpu \<Rightarrow> u64 list" where
  "syscall_entry_stub ucs uss c =
    push_all entry_pushes (gprs c) [gprs c RCX, ucs, gprs c R11, cpu_rsp c, uss]"

text \<open>The common tail: pop every register and \<^verbatim>\<open>iretq\<close>.\<close>

definition exit_stub :: "cpu \<Rightarrow> u64 list \<Rightarrow> cpu" where
  "exit_stub c stack =
    (case pop_all exit_pops (gprs c) stack of
       (g, rest) \<Rightarrow> \<lparr>gprs = g, cpu_rip = rest ! 0, cpu_cs = rest ! 1, cpu_rflags = rest ! 2,
                     cpu_rsp = rest ! 3, cpu_ss = rest ! 4\<rparr>)"

text \<open>The layout of \<^verbatim>\<open>TrapFrame\<close> in memory, \<^verbatim>\<open>repr(C)\<close>.\<close>

definition frame_words :: "trap_frame \<Rightarrow> u64 list" where
  "frame_words f = [r15 f, r14 f, r13 f, r12 f, r11 f, r10 f, r9 f, r8 f, rbp f, rdi f, rsi f, rdx f, rcx f,
    rbx f, rax f, rip f, cs f, rflags f, rsp f, ss f]"

definition frame_at :: "u64 list \<Rightarrow> trap_frame" where
  "frame_at w = \<lparr>r15 = w ! 0, r14 = w ! 1, r13 = w ! 2, r12 = w ! 3, r11 = w ! 4, r10 = w ! 5, r9 = w ! 6,
    r8 = w ! 7, rbp = w ! 8, rdi = w ! 9, rsi = w ! 10, rdx = w ! 11, rcx = w ! 12, rbx = w ! 13, rax = w ! 14,
    rip = w ! 15, cs = w ! 16, rflags = w ! 17, rsp = w ! 18, ss = w ! 19\<rparr>"

text \<open>\<^verbatim>\<open>resume\<close>: the same tail, run on a frame; whatever the registers held before is lost.\<close>

definition resume_frame :: "cpu \<Rightarrow> trap_frame \<Rightarrow> cpu" where
  "resume_frame c f = exit_stub c (frame_words f)"

definition cpu_of_frame :: "trap_frame \<Rightarrow> cpu" where
  "cpu_of_frame f =
    \<lparr>gprs = (\<lambda>r. case r of RAX \<Rightarrow> rax f | RBX \<Rightarrow> rbx f | RCX \<Rightarrow> rcx f | RDX \<Rightarrow> rdx f | RSI \<Rightarrow> rsi f | RDI \<Rightarrow> rdi f
        | RBP \<Rightarrow> rbp f | R8 \<Rightarrow> r8 f | R9 \<Rightarrow> r9 f | R10 \<Rightarrow> r10 f | R11 \<Rightarrow> r11 f | R12 \<Rightarrow> r12 f | R13 \<Rightarrow> r13 f
        | R14 \<Rightarrow> r14 f | R15 \<Rightarrow> r15 f),
     cpu_rip = rip f, cpu_cs = cs f, cpu_rflags = rflags f, cpu_rsp = rsp f, cpu_ss = ss f\<rparr>"

lemmas stub_simps = entry_pushes_def exit_pops_def hardware_frame_def exception_entry_no_code_def
  exception_entry_with_code_def syscall_entry_stub_def exit_stub_def frame_words_def frame_at_def
  resume_frame_def cpu_of_frame_def cs_word_def

lemma frame_words_at: "frame_at (frame_words f) = f"
  by (simp add: stub_simps)

lemma resume_loads: "resume_frame c f = cpu_of_frame f"
proof (rule cpu.equality)
  show "gprs (resume_frame c f) = gprs (cpu_of_frame f)"
  proof
    fix r show "gprs (resume_frame c f) r = gprs (cpu_of_frame f) r" by (cases r) (simp_all add: stub_simps)
  qed
qed (simp_all add: stub_simps)

lemma saved_frame: "cpu_of_frame (frame_at (exception_entry_no_code c)) = c"
proof (rule cpu.equality)
  show "gprs (cpu_of_frame (frame_at (exception_entry_no_code c))) = gprs c"
  proof
    fix r show "gprs (cpu_of_frame (frame_at (exception_entry_no_code c))) r = gprs c r"
      by (cases r) (simp_all add: stub_simps)
  qed
qed (simp_all add: stub_simps)

lemma saved_syscall_frame:
  "cpu_of_frame (frame_at (syscall_entry_stub ucs uss c)) = c\<lparr>cpu_rip := gprs c RCX, cpu_cs := ucs,
     cpu_rflags := gprs c R11, cpu_ss := uss\<rparr>"
proof (rule cpu.equality)
  show "gprs (cpu_of_frame (frame_at (syscall_entry_stub ucs uss c))) = gprs (c\<lparr>cpu_rip := gprs c RCX, cpu_cs := ucs,
     cpu_rflags := gprs c R11, cpu_ss := uss\<rparr>)"
  proof
    fix r show "gprs (cpu_of_frame (frame_at (syscall_entry_stub ucs uss c))) r = gprs (c\<lparr>cpu_rip := gprs c RCX,
      cpu_cs := ucs, cpu_rflags := gprs c R11, cpu_ss := uss\<rparr>) r"
      by (cases r) (simp_all add: stub_simps)
  qed
qed (simp_all add: stub_simps)

text \<open>
  C14. A trap saves the interrupted register state in exactly the memory layout of \<^verbatim>\<open>TrapFrame\<close>,
  resuming that frame restores every register, the privilege check reads the saved code segment at
  byte 128 (136 when the processor pushed an error code), and a system call builds a frame of the
  same shape that resumes the caller at the instruction after \<^verbatim>\<open>SYSCALL\<close> with the given selectors.
\<close>

theorem trap_save_resume:
  "resume_frame c' (frame_at (exception_entry_no_code c)) = c \<and>
   frame_words (frame_at (exception_entry_no_code c)) = exception_entry_no_code c \<and>
   cs_word 128 (exception_entry_no_code c) = cpu_cs c \<and>
   cs_word 136 (exception_entry_with_code e c) = cpu_cs c \<and>
   resume_frame c' (frame_at (syscall_entry_stub ucs uss (syscall_instruction c))) =
     (syscall_instruction c)\<lparr>cpu_cs := ucs, cpu_ss := uss\<rparr>"
proof (intro conjI)
  show "resume_frame c' (frame_at (exception_entry_no_code c)) = c" by (simp add: resume_loads saved_frame)
  show "resume_frame c' (frame_at (syscall_entry_stub ucs uss (syscall_instruction c))) =
     (syscall_instruction c)\<lparr>cpu_cs := ucs, cpu_ss := uss\<rparr>"
    unfolding resume_loads saved_syscall_frame by (simp add: syscall_instruction_def)
qed (simp_all add: stub_simps)

subsection \<open>The interrupt descriptor table\<close>

definition TIMER_VECTOR :: u8 where "TIMER_VECTOR = 32"
definition IRQ4 :: nat where "IRQ4 = 4"
definition IRQ4_VECTOR :: u8 where "IRQ4_VECTOR = 36"
definition SPURIOUS_VECTOR :: u8 where "SPURIOUS_VECTOR = 0xFF"
definition TEST_IPI_VECTOR :: u8 where "TEST_IPI_VECTOR = 0x41"
definition LAPIC_TIMER_VECTOR :: u8 where "LAPIC_TIMER_VECTOR = 0x43"
definition PANIC_HALT_VECTOR :: u8 where "PANIC_HALT_VECTOR = 0x44"

lemmas vector_defs = TIMER_VECTOR_def IRQ4_VECTOR_def SPURIOUS_VECTOR_def TEST_IPI_VECTOR_def RESCHEDULE_VECTOR_def
  LAPIC_TIMER_VECTOR_def PANIC_HALT_VECTOR_def

text \<open>The gates \<^verbatim>\<open>idt::init\<close> and the two \<^verbatim>\<open>register_handlers\<close> install; every other vector has none.\<close>

datatype gate =
    Breakpoint | DivideError | InvalidOpcode | GeneralProtection | PageFault | DoubleFaultGate | Reschedule | LapicTimer | PitTimer | Irq4Gate
  | Spurious | TestIpi | PanicHalt

definition idt_gate :: "u8 \<Rightarrow> gate option" where
  "idt_gate v =
    (if v = 3 then Some Breakpoint
     else if v = 0 then Some DivideError
     else if v = 6 then Some InvalidOpcode
     else if v = 13 then Some GeneralProtection
     else if v = 14 then Some PageFault
     else if v = 8 then Some DoubleFaultGate
     else if v = RESCHEDULE_VECTOR then Some Reschedule
     else if v = LAPIC_TIMER_VECTOR then Some LapicTimer
     else if v = TIMER_VECTOR then Some PitTimer
     else if v = IRQ4_VECTOR then Some Irq4Gate
     else if v = SPURIOUS_VECTOR then Some Spurious
     else if v = TEST_IPI_VECTOR then Some TestIpi
     else if v = PANIC_HALT_VECTOR then Some PanicHalt
     else None)"

subsection \<open>Handlers\<close>

text \<open>\<^verbatim>\<open>on_timer_tick_bookkeeping\<close>, without the heartbeat line it prints every hundredth tick.\<close>

definition on_timer_tick_bookkeeping :: "'pt kernel \<Rightarrow> 'pt kernel" where
  "on_timer_tick_bookkeeping s = s\<lparr>ticks := ticks s + 1\<rparr>"

text \<open>
  The acknowledgements a handler sends.  A statement after a call that may leave for the idle loop
  runs only when that call returns.
\<close>

datatype eoi = PicEoi u8 | LapicEoi

fun acks_after :: "resume \<Rightarrow> eoi \<Rightarrow> eoi list" where
  "acks_after EnterIdle e = []"
| "acks_after HaltForever e = []"
| "acks_after (ResumeSlot i) e = [e]"
| "acks_after (ResumeFrame f) e = [e]"

type_synonym 'pt entry_result = "kpanic + (resume \<times> eoi list \<times> 'pt kernel)"

definition with_acks :: "(resume \<Rightarrow> eoi list) \<Rightarrow> kpanic + (resume \<times> 'pt kernel) \<Rightarrow> 'pt entry_result" where
  "with_acks acks = map_sum id (\<lambda>(r, s). (r, acks r, s))"

definition ring3_timer_tick :: "nat \<Rightarrow> trap_frame \<Rightarrow> 'pt kernel \<Rightarrow> 'pt entry_result" where
  "ring3_timer_tick core frame s =
    with_acks (\<lambda>r. acks_after r (PicEoi TIMER_VECTOR)) (on_timer_tick core frame (on_timer_tick_bookkeeping s))"

definition ring0_timer_tick :: "trap_frame \<Rightarrow> 'pt kernel \<Rightarrow> 'pt entry_result" where
  "ring0_timer_tick frame s = Inr (ResumeFrame frame, [PicEoi TIMER_VECTOR], on_timer_tick_bookkeeping s)"

definition ring3_reschedule :: "'pt paging \<Rightarrow> nat \<Rightarrow> trap_frame \<Rightarrow> 'pt kernel \<Rightarrow> 'pt entry_result" where
  "ring3_reschedule pg core frame s = with_acks (\<lambda>r. acks_after r LapicEoi) (on_reschedule_ipi pg core frame s)"

definition ring0_reschedule :: "trap_frame \<Rightarrow> 'pt kernel \<Rightarrow> 'pt entry_result" where
  "ring0_reschedule frame s = Inr (ResumeFrame frame, [LapicEoi], s)"

definition ring3_lapic_timer_tick :: "nat \<Rightarrow> trap_frame \<Rightarrow> 'pt kernel \<Rightarrow> 'pt entry_result" where
  "ring3_lapic_timer_tick core frame s = with_acks (\<lambda>r. acks_after r LapicEoi) (on_timer_tick core frame s)"

definition ring0_lapic_timer_tick :: "trap_frame \<Rightarrow> 'pt kernel \<Rightarrow> 'pt entry_result" where
  "ring0_lapic_timer_tick frame s = Inr (ResumeFrame frame, [LapicEoi], s)"

text \<open>The exception handlers of \<^verbatim>\<open>idt.rs\<close>; the ring 0 ones only compose a panic message.\<close>

definition kill_faulting_process_and_reschedule :: "'pt paging \<Rightarrow> nat \<Rightarrow> 'pt kernel \<Rightarrow> 'pt entry_result" where
  "kill_faulting_process_and_reschedule pg core s = with_acks (\<lambda>_. []) (terminate_current_process pg core Faulted s)"

definition divide_error_ring0 :: "'pt entry_result" where "divide_error_ring0 = Inl (RingZeroFault 0)"
definition invalid_opcode_ring0 :: "'pt entry_result" where "invalid_opcode_ring0 = Inl (RingZeroFault 6)"
definition general_protection_fault_ring0 :: "'pt entry_result" where
  "general_protection_fault_ring0 = Inl (RingZeroFault 13)"
definition page_fault_ring0 :: "'pt entry_result" where "page_fault_ring0 = Inl (RingZeroFault 14)"

definition divide_error_ring3 :: "'pt paging \<Rightarrow> nat \<Rightarrow> 'pt kernel \<Rightarrow> 'pt entry_result" where
  "divide_error_ring3 pg core s = kill_faulting_process_and_reschedule pg core s"
definition invalid_opcode_ring3 :: "'pt paging \<Rightarrow> nat \<Rightarrow> 'pt kernel \<Rightarrow> 'pt entry_result" where
  "invalid_opcode_ring3 pg core s = kill_faulting_process_and_reschedule pg core s"
definition general_protection_fault_ring3 :: "'pt paging \<Rightarrow> nat \<Rightarrow> 'pt kernel \<Rightarrow> 'pt entry_result" where
  "general_protection_fault_ring3 pg core s = kill_faulting_process_and_reschedule pg core s"
definition page_fault_ring3 :: "'pt paging \<Rightarrow> nat \<Rightarrow> 'pt kernel \<Rightarrow> 'pt entry_result" where
  "page_fault_ring3 pg core s = kill_faulting_process_and_reschedule pg core s"

definition breakpoint_handler :: "trap_frame \<Rightarrow> 'pt kernel \<Rightarrow> 'pt entry_result" where
  "breakpoint_handler frame s = Inr (ResumeFrame frame, [], s)"

definition double_fault_handler :: "'pt entry_result" where "double_fault_handler = Inl DoubleFault"

definition register_irq :: "nat \<Rightarrow> irq_handler \<Rightarrow> 'pt kernel \<Rightarrow> kpanic + 'pt kernel" where
  "register_irq irq h s =
    (if irq < MAX_IRQ then Inr (s\<lparr>irq_table := (irq_table s)[irq := Some h]\<rparr>) else Inl IndexOutOfBounds)"

text \<open>\<^verbatim>\<open>Uart16550::handle_irq\<close>: wake whoever waits for a byte, once.\<close>

definition uart_handle_irq :: "'pt kernel \<Rightarrow> 'pt kernel" where
  "uart_handle_irq s = (case rx_waker s of None \<Rightarrow> s | Some t \<Rightarrow> wake_task t (s\<lparr>rx_waker := None\<rparr>))"

definition dispatch_irq :: "nat \<Rightarrow> 'pt kernel \<Rightarrow> 'pt kernel" where
  "dispatch_irq irq s = (case irq_table s ! irq of None \<Rightarrow> s | Some UartHandleIrq \<Rightarrow> uart_handle_irq s)"

definition irq4_handler :: "trap_frame \<Rightarrow> 'pt kernel \<Rightarrow> 'pt entry_result" where
  "irq4_handler frame s = Inr (ResumeFrame frame, [PicEoi IRQ4_VECTOR], dispatch_irq IRQ4 s)"

definition spurious_handler :: "trap_frame \<Rightarrow> 'pt kernel \<Rightarrow> 'pt entry_result" where
  "spurious_handler frame s = Inr (ResumeFrame frame, [], s)"

definition count_ipi :: "nat \<Rightarrow> 'pt kernel \<Rightarrow> 'pt kernel" where
  "count_ipi core s =
    s\<lparr>percpu := (percpu s)[core := (percpu s ! core)\<lparr>ipi_count := ipi_count (percpu s ! core) + 1\<rparr>]\<rparr>"

definition test_ipi_handler :: "nat \<Rightarrow> trap_frame \<Rightarrow> 'pt kernel \<Rightarrow> 'pt entry_result" where
  "test_ipi_handler core frame s = Inr (ResumeFrame frame, [LapicEoi], count_ipi core s)"

definition panic_halt_handler :: "'pt kernel \<Rightarrow> 'pt entry_result" where
  "panic_halt_handler s = Inr (HaltForever, [], s)"

text \<open>
  A vector without a gate raises a segment-not-present exception, which has no gate either; the
  processor turns the two into a double fault.
\<close>

definition interrupt_entry :: "'pt paging \<Rightarrow> nat \<Rightarrow> u8 \<Rightarrow> trap_frame \<Rightarrow> 'pt kernel \<Rightarrow> 'pt entry_result" where
  "interrupt_entry pg core v frame s =
    (let user = from_ring3 (cs frame) in
     case idt_gate v of
       None \<Rightarrow> double_fault_handler
     | Some DoubleFaultGate \<Rightarrow> double_fault_handler
     | Some Breakpoint \<Rightarrow> breakpoint_handler frame s
     | Some DivideError \<Rightarrow> if user then divide_error_ring3 pg core s else divide_error_ring0
     | Some InvalidOpcode \<Rightarrow> if user then invalid_opcode_ring3 pg core s else invalid_opcode_ring0
     | Some GeneralProtection \<Rightarrow>
         if user then general_protection_fault_ring3 pg core s else general_protection_fault_ring0
     | Some PageFault \<Rightarrow> if user then page_fault_ring3 pg core s else page_fault_ring0
     | Some Reschedule \<Rightarrow> if user then ring3_reschedule pg core frame s else ring0_reschedule frame s
     | Some LapicTimer \<Rightarrow> if user then ring3_lapic_timer_tick core frame s else ring0_lapic_timer_tick frame s
     | Some PitTimer \<Rightarrow> if user then ring3_timer_tick core frame s else ring0_timer_tick frame s
     | Some Irq4Gate \<Rightarrow> irq4_handler frame s
     | Some Spurious \<Rightarrow> spurious_handler frame s
     | Some TestIpi \<Rightarrow> test_ipi_handler core frame s
     | Some PanicHalt \<Rightarrow> panic_halt_handler s)"

lemmas fault_handler_defs = divide_error_ring0_def invalid_opcode_ring0_def general_protection_fault_ring0_def
  page_fault_ring0_def divide_error_ring3_def invalid_opcode_ring3_def general_protection_fault_ring3_def
  page_fault_ring3_def kill_faulting_process_and_reschedule_def breakpoint_handler_def double_fault_handler_def

lemmas irq_handler_defs = ring3_timer_tick_def ring0_timer_tick_def ring3_reschedule_def ring0_reschedule_def
  ring3_lapic_timer_tick_def ring0_lapic_timer_tick_def irq4_handler_def spurious_handler_def
  test_ipi_handler_def panic_halt_handler_def

subsection \<open>Fault isolation\<close>



subsection \<open>End of interrupt\<close>

lemma timer_tick_returns: "on_timer_tick core frame s = Inr (r, s') \<Longrightarrow> acks_after r e = [e]"
  unfolding on_timer_tick_def sbind_Inr_iff by (elim exE conjE) (auto simp: sbind_Inr_iff split: prod.splits option.splits)

lemma with_acks_Inr: "with_acks f x = Inr (r, acks, s') \<longleftrightarrow> x = Inr (r, s') \<and> acks = f r"
  by (cases x) (auto simp: with_acks_def)

text \<open>
  C16. Every device interrupt is acknowledged exactly once at the controller that raised it, with one
  exception: a reschedule interrupt that evicts this core's process while no other process is ready
  leaves for the idle loop without acknowledging the local APIC.
\<close>

theorem eoi_discipline:
  assumes "interrupt_entry pg core v frame s = Inr (r, acks, s')"
  shows "acks =
    (if v \<in> {TIMER_VECTOR, IRQ4_VECTOR} then [PicEoi v]
     else if v \<in> {LAPIC_TIMER_VECTOR, TEST_IPI_VECTOR} then [LapicEoi]
     else if v = RESCHEDULE_VECTOR then if r \<in> {EnterIdle, HaltForever} then [] else [LapicEoi]
     else [])"
proof (cases "v = RESCHEDULE_VECTOR")
  case True
  then show ?thesis
    using assms by (cases r) (auto simp: interrupt_entry_def idt_gate_def vector_defs irq_handler_defs with_acks_Inr split: if_splits)
next
  case False
  then show ?thesis
    using assms
    by (auto simp: interrupt_entry_def Let_def idt_gate_def vector_defs fault_handler_defs irq_handler_defs with_acks_Inr
        timer_tick_returns split: if_splits)
qed

theorem eoi_discipline_witness:
  "\<forall>s :: flat_table kernel. interrupt_entry flat_paging 0 LAPIC_TIMER_VECTOR zero_frame s = Inr (ResumeFrame zero_frame, [LapicEoi], s)"
proof
  fix s :: "flat_table kernel"
  have e: "interrupt_entry flat_paging 0 LAPIC_TIMER_VECTOR zero_frame s = Inr (ResumeFrame zero_frame, [LapicEoi], s)"
    by (simp add: interrupt_entry_def idt_gate_def vector_defs irq_handler_defs from_ring3_def zero_frame_def)
  show "interrupt_entry flat_paging 0 LAPIC_TIMER_VECTOR zero_frame s = Inr (ResumeFrame zero_frame, [LapicEoi], s)"
    using eoi_discipline [OF e] e by simp
qed

text \<open>
  C29. The missing acknowledgement happens: when a core runs a process that another core's
  \<^verbatim>\<open>SYS_KILL\<close> wants evicted and no process is ready, the reschedule interrupt ends in the idle loop
  with no end-of-interrupt, so the local APIC keeps vector \<^verbatim>\<open>0x42\<close> in service and holds back every
  later interrupt of its priority class, the preemption timer \<^verbatim>\<open>0x43\<close> among them.
\<close>

theorem evicted_core_unacknowledged:
  assumes "from_ring3 (cs frame)" "current s ! core = Some p" "evict_request (percpu s ! core) = pid_raw p"
    "pid_raw p \<noteq> 0" "pid_index p < MAX_PROCESSES" "ring_list (ready s) = []" "core < length (percpu s)" "core < length (current s)"
  shows "(\<exists>s'. interrupt_entry pg core RESCHEDULE_VECTOR frame s = Inr (EnterIdle, [], s') \<and> current s' ! core = None)
    \<and> unat RESCHEDULE_VECTOR div 16 = unat LAPIC_TIMER_VECTOR div 16"
proof
  show "unat RESCHEDULE_VECTOR div 16 = unat LAPIC_TIMER_VECTOR div 16" by (simp add: vector_defs)
  obtain q where pop: "ring_pop (ready s) = (None, q)" using assms(6) by (simp add: ring_list_def ring_pop_def)
  show "\<exists>s'. interrupt_entry pg core RESCHEDULE_VECTOR frame s = Inr (EnterIdle, [], s') \<and> current s' ! core = None"
    using assms pop
    by (simp add: interrupt_entry_def idt_gate_def vector_defs irq_handler_defs with_acks_def on_reschedule_ipi_def Let_def
        switch_to_next_or_halt_def abandon_process_stack_and_idle_def set_evict_request_def set_current_def
        record_dispatch_trace_def mark_stack_busy_def clear_outgoing_def clear_stack_busy_def activate_idle_address_space_def)
qed

theorem evicted_core_unacknowledged_witness:
  "\<exists>(s :: flat_table kernel) s'. ring_list (ready s) = [] \<and> current s ! 1 = Some (pid_new 3 1)
     \<and> interrupt_entry flat_paging 1 RESCHEDULE_VECTOR (zero_frame\<lparr>cs := 0x23\<rparr>) s = Inr (EnterIdle, [], s')"
proof -
  let ?s = "(kernel_init 2 0x23 0x1B 0x1000 (flat_mem 8))\<lparr>current := (replicate MAX_CORES None)[1 := Some (pid_new 3 1)],
    percpu := replicate MAX_CORES (percpu_new\<lparr>evict_request := pid_raw (pid_new 3 1)\<rparr>)\<rparr> :: flat_table kernel"
  have "\<exists>s'. interrupt_entry flat_paging 1 RESCHEDULE_VECTOR (zero_frame\<lparr>cs := 0x23\<rparr>) ?s = Inr (EnterIdle, [], s')"
    using evicted_core_unacknowledged [of "zero_frame\<lparr>cs := 0x23\<rparr>" ?s 1 "pid_new 3 1" flat_paging]
    by (auto simp: from_ring3_def MAX_CORES_def MAX_PROCESSES_def pid_new_def pid_index_def kernel_init_def)
  moreover have "ring_list (ready ?s) = []" by (simp add: kernel_init_def)
  moreover have "current ?s ! 1 = Some (pid_new 3 1)" by (simp add: MAX_CORES_def)
  ultimately show ?thesis by blast
qed

end
