(* ===== verification/Boot.thy ===== *)
theory Boot
  imports Entry
begin

unbundle bit_operations_syntax

text \<open>
  The end of the boot sequence of \<^verbatim>\<open>kernel/src/main.rs\<close>, which mounts the root file system and
  spawns \<^verbatim>\<open>init\<close>, and the kernel as a transition system: every entry of every core is a step, and
  what holds in all reachable states.
\<close>

subsection \<open>Boot\<close>





subsection \<open>The kernel as a transition system\<close>




subsection \<open>The invariant of reachable states\<close>



lemma root_volume_inv [simp]: "kernel_ok (s\<lparr>root_volume := v\<rparr>) = kernel_ok s"
  by (rule kernel_ok_cong, rule sched_inv_cong) simp_all

lemma boot_fields_ok [simp]:
  "kernel_ok (s\<lparr>spawnable := x\<rparr>) = kernel_ok s" "kernel_ok (s\<lparr>irq_table := t\<rparr>) = kernel_ok s"
  "kernel_ok (s\<lparr>ticks := n\<rparr>) = kernel_ok s" "kernel_ok (s\<lparr>rx_waker := w\<rparr>) = kernel_ok s"
  by (rule kernel_ok_cong, rule sched_inv_cong; simp)+

lemma wake_task_ok [simp]: "kernel_ok (wake_task t s) = kernel_ok s"
  by (rule kernel_ok_cong) simp_all

lemma percpu_counter_inv:
  assumes "sched_inv s" "pc_current x = pc_current (percpu s ! core)"
  shows "sched_inv (s\<lparr>percpu := (percpu s)[core := x]\<rparr>)"
proof -
  have "occupied (s\<lparr>percpu := (percpu s)[core := x]\<rparr>) = occupied s" by (rule occupied_cong) simp_all
  moreover have "shape (s\<lparr>percpu := (percpu s)[core := x]\<rparr>)"
    using shape_percpu [OF _ assms(2)] assms(1) by (simp add: sched_inv_def)
  ultimately show ?thesis using assms(1) by (simp add: sched_inv_def)
qed

lemma percpu_counter_ok:
  "kernel_ok s \<Longrightarrow> pc_current x = pc_current (percpu s ! core) \<Longrightarrow> kernel_ok (s\<lparr>percpu := (percpu s)[core := x]\<rparr>)"
  using percpu_counter_inv [of s x core] by (simp add: kernel_ok_def endpoints_ok_def)

lemma set_idle_ok [inv_intros]: "kernel_ok s \<Longrightarrow> kernel_ok (set_idle c b s)"
  unfolding set_idle_def by (rule percpu_counter_ok) simp_all

lemma park_check_ok [inv_intros]: "kernel_ok s \<Longrightarrow> kernel_ok (snd (park_check c s))"
  by (auto simp: park_check_def Let_def intro!: set_idle_ok)







definition event_good :: "(kpanic + 'pt kernel) option \<Rightarrow> bool" where
  "event_good r \<longleftrightarrow> (case r of None \<Rightarrow> True | Some (Inl k) \<Rightarrow> \<not> consistency_panic k | Some (Inr s) \<Rightarrow> kernel_ok s)"

lemma event_good_simps [simp]:
  "event_good None" "event_good (Some (Inl k)) \<longleftrightarrow> \<not> consistency_panic k" "event_good (Some (Inr s)) \<longleftrightarrow> kernel_ok s"
  by (simp_all add: event_good_def)









subsection \<open>What holds in every reachable state\<close>









end
