(* ===== verification/Layout.thy ===== *)
theory Layout
  imports Create Entry
begin

text \<open>
  The kernel's virtual memory layout: the fixed regions that boot maps eagerly, each slot with an
  unmapped guard page below it, and the window of the block driver's device registers.  Sources:
  \<^verbatim>\<open>memory/heap.rs\<close>, \<^verbatim>\<open>task/process.rs\<close>, \<^verbatim>\<open>task/scheduler.rs\<close>, \<^verbatim>\<open>arch/x86_64/gdt.rs\<close>,
  \<^verbatim>\<open>lapic.rs\<close>, \<^verbatim>\<open>smp.rs\<close> and \<^verbatim>\<open>driver/virtio_blk.rs\<close>.
\<close>

subsection \<open>Constants\<close>

definition HEAP_START :: u64 where "HEAP_START = 0xffff900000000000"
definition HEAP_SIZE :: u64 where "HEAP_SIZE = 8 * 1024 * 1024"
definition SCHED_STATE_BASE :: u64 where "SCHED_STATE_BASE = 0xffff970000000000"
definition SCHED_FIELD_STRIDE :: u64 where "SCHED_FIELD_STRIDE = 0x10000"
definition PROCESS_BOX_BASE :: u64 where "PROCESS_BOX_BASE = 0xffff977000000000"
definition PROCESS_BOX_STRIDE :: u64 where "PROCESS_BOX_STRIDE = 0x10000"
definition DOUBLE_FAULT_STACK_PAGES :: nat where "DOUBLE_FAULT_STACK_PAGES = 5"
definition DOUBLE_FAULT_STACK_BASE :: u64 where "DOUBLE_FAULT_STACK_BASE = 0xffff940000000000"
definition DOUBLE_FAULT_STACK_SLOT_STRIDE :: u64 where "DOUBLE_FAULT_STACK_SLOT_STRIDE = 4096 * (1 + 5)"
definition LAPIC_MMIO_VBASE :: u64 where "LAPIC_MMIO_VBASE = 0xffff950000000000"
definition IDLE_STACK_PAGES :: nat where "IDLE_STACK_PAGES = 4"
definition IDLE_STACK_BASE :: u64 where "IDLE_STACK_BASE = 0xffff960000000000"
definition IDLE_STACK_SLOT_STRIDE :: u64 where "IDLE_STACK_SLOT_STRIDE = 4096 * (1 + 4)"
definition MMIO_VBASE :: u64 where "MMIO_VBASE = 0xffff960000000000"
definition BAR_VSTRIDE :: u64 where "BAR_VSTRIDE = 0x100000"

definition KERNEL_DATA_FLAGS :: u64 where
  "KERNEL_DATA_FLAGS = PF_PRESENT OR PF_WRITABLE OR PF_NO_EXECUTE"

definition PF_NO_CACHE :: u64 where "PF_NO_CACHE = 16"

subsection \<open>Mapping\<close>

text \<open>Mapping pages to fresh frames; both failures are \<^verbatim>\<open>expect\<close>ed not to happen.\<close>

fun map_fresh :: "'pt paging \<Rightarrow> u64 \<Rightarrow> u64 list \<Rightarrow> 'pt mem \<Rightarrow> kpanic + 'pt mem" where
  "map_fresh pg flags [] m = Inr m"
| "map_fresh pg flags (page # pages) m =
    (case mem_allocate_frame m of
       (None, _) \<Rightarrow> Inl ExpectFailed
     | (Some frame, m) \<Rightarrow>
         (case virt_map pg page frame flags m of
            (Inl _, _) \<Rightarrow> Inl ExpectFailed
          | (Inr _, m) \<Rightarrow> map_fresh pg flags pages m))"

text \<open>\<^verbatim>\<open>for i in 1..=n\<close>: the pages above the guard page of a slot.\<close>

definition slot_pages :: "u64 \<Rightarrow> nat \<Rightarrow> u64 list" where
  "slot_pages slot_base n = map (\<lambda>i. slot_base + of_nat i * 4096) [1..<Suc n]"

definition heap_pages_of_kernel :: "u64 list" where
  "heap_pages_of_kernel = page_range (page_of HEAP_START) (page_of (HEAP_START + HEAP_SIZE - 1))"

definition heap_init :: "'pt paging \<Rightarrow> 'pt mem \<Rightarrow> kpanic + 'pt mem" where
  "heap_init pg m = map_fresh pg KERNEL_DATA_FLAGS heap_pages_of_kernel m"

fun map_slots :: "('s \<Rightarrow> 'pt mem \<Rightarrow> kpanic + 'pt mem) \<Rightarrow> 's list \<Rightarrow> 'pt mem \<Rightarrow> kpanic + 'pt mem" where
  "map_slots f [] m = Inr m"
| "map_slots f (x # xs) m = sbind (f x m) (map_slots f xs)"

definition init_kernel_stacks :: "'pt paging \<Rightarrow> 'pt mem \<Rightarrow> kpanic + 'pt mem" where
  "init_kernel_stacks pg =
    map_slots (\<lambda>slot. map_fresh pg KERNEL_DATA_FLAGS
      (slot_pages (KERNEL_STACKS_BASE + of_nat slot * KERNEL_STACK_SLOT_STRIDE) (unat KERNEL_STACK_PAGES)))
      [0..<MAX_PROCESSES]"

definition guarded_pages :: "nat \<Rightarrow> nat" where
  "guarded_pages size_bytes = max (div_ceil size_bytes 4096) 1"

definition map_guarded_raw :: "'pt paging \<Rightarrow> u64 \<Rightarrow> nat \<Rightarrow> 'pt mem \<Rightarrow> kpanic + 'pt mem" where
  "map_guarded_raw pg slot_base size_bytes m =
    map_fresh pg KERNEL_DATA_FLAGS (slot_pages slot_base (guarded_pages size_bytes)) m"

text \<open>
  \<^verbatim>\<open>map_guarded_scheduler_state\<close>: the argument lists the sizes of the four fields
  (\<^verbatim>\<open>core::mem::size_of\<close>, which the compiler fixes).
\<close>

definition scheduler_init :: "'pt paging \<Rightarrow> nat list \<Rightarrow> 'pt mem \<Rightarrow> kpanic + 'pt mem" where
  "scheduler_init pg field_sizes =
    map_slots (\<lambda>k. map_guarded_raw pg (SCHED_STATE_BASE + of_nat k * SCHED_FIELD_STRIDE) (field_sizes ! k)) [0..<4]"

definition TRAP_FRAME_SIZE :: nat where "TRAP_FRAME_SIZE = 20 * 8"

definition init_trap_frames :: "'pt paging \<Rightarrow> 'pt mem \<Rightarrow> kpanic + 'pt mem" where
  "init_trap_frames pg =
    map_slots (\<lambda>index. map_guarded_raw pg (trap_frame_slot_base (pid_new index 0)) TRAP_FRAME_SIZE) [0..<MAX_PROCESSES]"

definition process_box_slot_base :: "nat \<Rightarrow> u64" where
  "process_box_slot_base slot = PROCESS_BOX_BASE + of_nat slot * PROCESS_BOX_STRIDE"

definition init_process_slots :: "'pt paging \<Rightarrow> nat \<Rightarrow> 'pt mem \<Rightarrow> kpanic + 'pt mem" where
  "init_process_slots pg process_size =
    map_slots (\<lambda>slot. map_guarded_raw pg (process_box_slot_base slot) process_size) [0..<PROCESS_SLOT_COUNT]"

definition double_fault_stack_slot_base :: "nat \<Rightarrow> u64" where
  "double_fault_stack_slot_base core = DOUBLE_FAULT_STACK_BASE + of_nat core * DOUBLE_FAULT_STACK_SLOT_STRIDE"

definition double_fault_stack_top :: "'pt paging \<Rightarrow> nat \<Rightarrow> 'pt mem \<Rightarrow> kpanic + (u64 \<times> 'pt mem)" where
  "double_fault_stack_top pg core m =
    sbind (map_fresh pg KERNEL_DATA_FLAGS (slot_pages (double_fault_stack_slot_base core) DOUBLE_FAULT_STACK_PAGES) m)
      (\<lambda>m. Inr (double_fault_stack_slot_base core + (1 + of_nat DOUBLE_FAULT_STACK_PAGES) * 4096, m))"

definition init_mmio_mapping :: "'pt paging \<Rightarrow> u64 \<Rightarrow> 'pt mem \<Rightarrow> kpanic + 'pt mem" where
  "init_mmio_mapping pg apic_frame m =
    (case virt_map pg (page_of LAPIC_MMIO_VBASE) apic_frame (KERNEL_DATA_FLAGS OR PF_NO_CACHE) m of
       (Inl _, _) \<Rightarrow> Inl ExpectFailed
     | (Inr _, m) \<Rightarrow> Inr m)"

definition idle_stack_slot_base :: "nat \<Rightarrow> u64" where
  "idle_stack_slot_base core = IDLE_STACK_BASE + of_nat core * IDLE_STACK_SLOT_STRIDE"

definition idle_stack_top_addr :: "nat \<Rightarrow> u64" where
  "idle_stack_top_addr core = idle_stack_slot_base core + (1 + of_nat IDLE_STACK_PAGES) * 4096"

definition idle_stack_top :: "'pt paging \<Rightarrow> nat \<Rightarrow> 'pt mem \<Rightarrow> kpanic + (u64 \<times> 'pt mem)" where
  "idle_stack_top pg core m =
    sbind (map_fresh pg KERNEL_DATA_FLAGS (slot_pages (idle_stack_slot_base core) IDLE_STACK_PAGES) m)
      (\<lambda>m. Inr (idle_stack_top_addr core, m))"

text \<open>The pages of a device's register window, and mapping them.\<close>

definition bar_pages :: "nat \<Rightarrow> nat \<Rightarrow> u64 list" where
  "bar_pages bar size_bytes =
    map (\<lambda>i. MMIO_VBASE + of_nat bar * BAR_VSTRIDE + of_nat i * 4096) [0..<max (div_ceil size_bytes 4096) 1]"

fun map_device_pages :: "'pt paging \<Rightarrow> u64 \<Rightarrow> u64 list \<Rightarrow> 'pt mem \<Rightarrow> kpanic + 'pt mem" where
  "map_device_pages pg frame [] m = Inr m"
| "map_device_pages pg frame (page # pages) m =
    (case virt_map pg page frame (KERNEL_DATA_FLAGS OR PF_NO_CACHE) m of
       (Inl _, _) \<Rightarrow> Inl ExpectFailed
     | (Inr _, m) \<Rightarrow> map_device_pages pg (frame + 4096) pages m)"

definition map_bar :: "'pt paging \<Rightarrow> u64 \<Rightarrow> nat \<Rightarrow> nat \<Rightarrow> 'pt mem \<Rightarrow> kpanic + (u64 \<times> 'pt mem)" where
  "map_bar pg phys_base bar size_bytes m =
    (if phys_base \<ge> 2 ^ 52 then Inl NonCanonicalAddress else
     sbind (map_device_pages pg (page_of phys_base) (bar_pages bar size_bytes) m)
      (\<lambda>m. Inr (MMIO_VBASE + of_nat bar * BAR_VSTRIDE, m)))"

text \<open>
  The mappings in boot order: \<^verbatim>\<open>heap::init\<close>, \<^verbatim>\<open>init_kernel_stacks\<close>, \<^verbatim>\<open>scheduler::init\<close>,
  \<^verbatim>\<open>init_trap_frames\<close>, \<^verbatim>\<open>init_process_slots\<close>, the double-fault stacks of \<^verbatim>\<open>gdt::init_bsp\<close>,
  \<^verbatim>\<open>lapic::init_mmio_mapping\<close> and the idle stacks of \<^verbatim>\<open>bring_up_aps\<close>.
\<close>

definition boot_mappings ::
  "'pt paging \<Rightarrow> nat list \<Rightarrow> nat \<Rightarrow> u64 \<Rightarrow> 'pt mem \<Rightarrow> kpanic + 'pt mem" where
  "boot_mappings pg field_sizes process_size apic_frame m =
    sbind (heap_init pg m) (\<lambda>m.
    sbind (init_kernel_stacks pg m) (\<lambda>m.
    sbind (scheduler_init pg field_sizes m) (\<lambda>m.
    sbind (init_trap_frames pg m) (\<lambda>m.
    sbind (init_process_slots pg process_size m) (\<lambda>m.
    sbind (map_slots (\<lambda>core m. sbind (double_fault_stack_top pg core m) (\<lambda>(_, m). Inr m)) [0..<MAX_CORES] m) (\<lambda>m.
    sbind (init_mmio_mapping pg apic_frame m) (\<lambda>m.
      map_slots (\<lambda>core m. sbind (idle_stack_top pg core m) (\<lambda>(_, m). Inr m)) [0..<MAX_CORES] m)))))))"

subsection \<open>The pages of the regions\<close>

text \<open>The pages of \<^term>\<open>k\<close> slots of \<^term>\<open>n\<close> pages each; the page count may differ between slots.\<close>

definition region :: "u64 \<Rightarrow> u64 \<Rightarrow> (nat \<Rightarrow> nat) \<Rightarrow> nat \<Rightarrow> u64 list" where
  "region base stride n k = concat (map (\<lambda>j. slot_pages (base + of_nat j * stride) (n j)) [0..<k])"

definition early_pages :: "nat list \<Rightarrow> nat \<Rightarrow> u64 list" where
  "early_pages field_sizes process_size =
    heap_pages_of_kernel
    @ region KERNEL_STACKS_BASE KERNEL_STACK_SLOT_STRIDE (\<lambda>_. unat KERNEL_STACK_PAGES) MAX_PROCESSES
    @ region SCHED_STATE_BASE SCHED_FIELD_STRIDE (\<lambda>k. guarded_pages (field_sizes ! k)) 4
    @ region TRAP_FRAME_BASE TRAP_FRAME_STRIDE (\<lambda>_. guarded_pages TRAP_FRAME_SIZE) MAX_PROCESSES
    @ region PROCESS_BOX_BASE PROCESS_BOX_STRIDE (\<lambda>_. guarded_pages process_size) PROCESS_SLOT_COUNT
    @ region DOUBLE_FAULT_STACK_BASE DOUBLE_FAULT_STACK_SLOT_STRIDE (\<lambda>_. DOUBLE_FAULT_STACK_PAGES) MAX_CORES"

definition idle_pages :: "u64 list" where
  "idle_pages = region IDLE_STACK_BASE IDLE_STACK_SLOT_STRIDE (\<lambda>_. IDLE_STACK_PAGES) MAX_CORES"

definition boot_pages :: "nat list \<Rightarrow> nat \<Rightarrow> u64 list" where
  "boot_pages field_sizes process_size = early_pages field_sizes process_size @ [page_of LAPIC_MMIO_VBASE] @ idle_pages"

lemma map_fresh_append: "map_fresh pg fl (xs @ ys) m = sbind (map_fresh pg fl xs m) (map_fresh pg fl ys)"
  by (induction xs arbitrary: m) (auto split: option.split sum.split prod.split)

lemma map_slots_fresh:
  "map_slots (\<lambda>j. map_fresh pg fl (ps j)) js = map_fresh pg fl (concat (map ps js))"
proof (rule ext)
  fix m show "map_slots (\<lambda>j. map_fresh pg fl (ps j)) js m = map_fresh pg fl (concat (map ps js)) m"
  proof (induction js arbitrary: m)
    case (Cons j js)
    then have "map_slots (\<lambda>j. map_fresh pg fl (ps j)) js = map_fresh pg fl (concat (map ps js))" by blast
    then show ?case by (simp add: map_fresh_append)
  qed simp
qed

lemma sbind_assoc: "sbind (sbind r f) g = sbind r (\<lambda>x. sbind (f x) g)"
  by (cases r) auto

lemma sbind_id: "sbind r Inr = r"
  by (cases r) auto

lemma boot_mappings_pages:
  "boot_mappings pg field_sizes process_size apic m =
    sbind (map_fresh pg KERNEL_DATA_FLAGS (early_pages field_sizes process_size) m) (\<lambda>m.
    sbind (init_mmio_mapping pg apic m) (map_fresh pg KERNEL_DATA_FLAGS idle_pages))"
proof -
  have df: "(\<lambda>core m. sbind (double_fault_stack_top pg core m) (\<lambda>(_, m). Inr m)) = (\<lambda>core.
      map_fresh pg KERNEL_DATA_FLAGS (slot_pages (DOUBLE_FAULT_STACK_BASE + of_nat core * DOUBLE_FAULT_STACK_SLOT_STRIDE) DOUBLE_FAULT_STACK_PAGES))"
    by (simp add: double_fault_stack_top_def sbind_assoc sbind_id double_fault_stack_slot_base_def)
  have idle: "(\<lambda>core m. sbind (idle_stack_top pg core m) (\<lambda>(_, m). Inr m)) = (\<lambda>core.
      map_fresh pg KERNEL_DATA_FLAGS (slot_pages (IDLE_STACK_BASE + of_nat core * IDLE_STACK_SLOT_STRIDE) IDLE_STACK_PAGES))"
    by (simp add: idle_stack_top_def sbind_assoc sbind_id idle_stack_slot_base_def)
  have tf: "map (\<lambda>index. slot_pages (trap_frame_slot_base (pid_new index 0)) n) [0..<MAX_PROCESSES]
     = map (\<lambda>index. slot_pages (TRAP_FRAME_BASE + of_nat index * TRAP_FRAME_STRIDE) n) [0..<MAX_PROCESSES]" for n
    by (rule map_cong) (simp_all add: trap_frame_slot_base_def)
  have g: "map_guarded_raw pg b n = map_fresh pg KERNEL_DATA_FLAGS (slot_pages b (guarded_pages n))" for b n
    by (rule ext) (simp add: map_guarded_raw_def)
  show ?thesis
    unfolding boot_mappings_def df idle
    by (simp add: heap_init_def init_kernel_stacks_def scheduler_init_def init_trap_frames_def init_process_slots_def
        g process_box_slot_base_def map_slots_fresh tf early_pages_def idle_pages_def region_def
        map_fresh_append sbind_assoc)
qed

subsection \<open>Separation\<close>

lemma slot_pages_unat:
  assumes "unat base + n * 4096 < 2 ^ 64"
  shows "map unat (slot_pages base n) = map (\<lambda>i. unat base + i * 4096) [1..<Suc n]"
proof -
  have "unat (base + of_nat i * 4096) = unat base + i * 4096" if "i \<le> n" for i
  proof -
    have "unat base + i * 4096 < 2 ^ 64" using assms that by (meson le_less_trans nat_add_left_cancel_le mult_le_mono1)
    moreover have "unat (of_nat i :: u64) = i"
      using calculation by (simp add: unat_of_nat take_bit_nat_eq_self_iff)
    ultimately show ?thesis by (simp add: unat_word_ariths)
  qed
  then show ?thesis by (simp add: slot_pages_def del: upt_Suc)
qed

lemma region_unat:
  assumes "unat base + k * unat stride < 2 ^ 64" "\<And>j. j < k \<Longrightarrow> (n j + 1) * 4096 \<le> unat stride"
  shows "map unat (region base stride n k) =
    concat (map (\<lambda>j. map (\<lambda>i. unat base + j * unat stride + i * 4096) [1..<Suc (n j)]) [0..<k])"
proof -
  have "map unat (slot_pages (base + of_nat j * stride) (n j)) =
      map (\<lambda>i. unat base + j * unat stride + i * 4096) [1..<Suc (n j)]" if j: "j < k" for j
  proof -
    have le: "unat base + (j * unat stride + unat stride) < 2 ^ 64"
      using assms(1) mult_le_mono1 [of "Suc j" k "unat stride"] j by simp
    have ju: "unat (of_nat j :: u64) = j"
    proof (cases "unat stride = 0")
      case True
      then show ?thesis using assms(2) [OF j] by simp
    next
      case False
      then have "j \<le> j * unat stride" by simp
      then have "j < 2 ^ 64" using le by linarith
      then show ?thesis by (simp add: unat_of_nat take_bit_nat_eq_self_iff)
    qed
    have "unat (base + of_nat j * stride) = unat base + j * unat stride"
      using le by (simp add: unat_word_ariths ju)
    then show ?thesis using slot_pages_unat [of "base + of_nat j * stride" "n j"] assms(2) [OF j] le by simp
  qed
  then have "map (\<lambda>j. map unat (slot_pages (base + of_nat j * stride) (n j))) [0..<k] =
      map (\<lambda>j. map (\<lambda>i. unat base + j * unat stride + i * 4096) [1..<Suc (n j)]) [0..<k]"
    by (intro map_cong) simp_all
  then show ?thesis by (simp only: region_def map_concat o_def map_map)
qed

lemma slots_distinct:
  assumes "\<And>j. j < k \<Longrightarrow> (n j + 1) * 4096 \<le> (st :: nat)"
  shows "distinct (concat (map (\<lambda>j. map (\<lambda>i. b + j * st + i * 4096) [1..<Suc (n j)]) [0..<k]))"
  using assms
proof (induction k)
  case (Suc k)
  let ?slot = "\<lambda>j. map (\<lambda>i. b + j * st + i * 4096) [1..<Suc (n j)]"
  have "False" if "j < k" "i \<le> n j" "1 \<le> i'" "k * st + i' * 4096 = j * st + i * 4096" for j i i'
  proof -
    have "j * st + st \<le> k * st" using that(1) mult_le_mono1 [of "Suc j" k st] by simp
    moreover have "(n j + 1) * 4096 \<le> st" using Suc.prems [of j] that(1) by simp
    moreover have "i * 4096 \<le> n j * 4096" using that(2) by simp
    ultimately show False using that(3,4) by (simp add: algebra_simps)
  qed
  then have "set (concat (map ?slot [0..<k])) \<inter> set (?slot k) = {}"
    by (auto simp: less_Suc_eq_le simp del: upt_Suc) blast
  moreover have "distinct (?slot k)" by (simp add: distinct_map inj_on_def del: upt_Suc)
  moreover have "distinct (concat (map ?slot [0..<k]))" using Suc.IH Suc.prems by simp
  ultimately show ?case by (simp del: upt_Suc add: upt_Suc_append)
qed simp

definition fits :: "u64 \<Rightarrow> u64 \<Rightarrow> (nat \<Rightarrow> nat) \<Rightarrow> nat \<Rightarrow> bool" where
  "fits base stride n k \<longleftrightarrow> unat base + k * unat stride < 2 ^ 64 \<and> (\<forall>j < k. (n j + 1) * 4096 \<le> unat stride)"

lemma region_distinct: "fits base stride n k \<Longrightarrow> distinct (region base stride n k)"
  using slots_distinct [of k n "unat stride" "unat base"] region_unat [of base k stride n]
    distinct_map [of unat "region base stride n k"]
  by (simp add: fits_def del: upt_Suc)

text \<open>Every page is inside its slot and above the slot's guard page.\<close>

lemma region_member:
  assumes "fits base stride n k" "p \<in> set (region base stride n k)"
  obtains j i where "j < k" "1 \<le> i" "i \<le> n j" "unat p = unat base + j * unat stride + i * 4096"
proof -
  have "unat p \<in> set (map unat (region base stride n k))" using assms(2) by simp
  then have "unat p \<in> set (concat (map (\<lambda>j. map (\<lambda>i. unat base + j * unat stride + i * 4096) [1..<Suc (n j)]) [0..<k]))"
    using region_unat [of base k stride n] assms(1) by (simp only: fits_def)
  then show ?thesis using that by (auto simp: less_Suc_eq_le simp del: upt_Suc)
qed

lemma region_bounds:
  assumes "fits base stride n k" "p \<in> set (region base stride n k)"
  shows "unat base \<le> unat p" "unat p < unat base + k * unat stride"
proof -
  obtain j i where p: "j < k" "i \<le> n j" "unat p = unat base + j * unat stride + i * 4096"
    using region_member [OF assms] by blast
  have "j * unat stride + unat stride \<le> k * unat stride" using p(1) mult_le_mono1 [of "Suc j" k "unat stride"] by simp
  moreover have "i * 4096 + 4096 \<le> unat stride"
    using assms(1) p(1,2) mult_le_mono1 [of i "n j" 4096] by (fastforce simp: fits_def)
  ultimately show "unat base \<le> unat p" "unat p < unat base + k * unat stride" using p(3) by linarith+
qed

text \<open>No slot's guard page is mapped by its region.\<close>

lemma region_guard:
  assumes "fits base stride n k" "j < k" "unat g = unat base + j * unat stride"
  shows "g \<notin> set (region base stride n k)"
proof
  assume "g \<in> set (region base stride n k)"
  then obtain j' i where p: "j' < k" "1 \<le> i" "i \<le> n j'" "unat base + j * unat stride = unat base + j' * unat stride + i * 4096"
    using region_member [OF assms(1)] assms(3) by metis
  have st: "i * 4096 + 4096 \<le> unat stride"
    using assms(1) p(1,3) mult_le_mono1 [of i "n j'" 4096] by (fastforce simp: fits_def)
  show False
  proof (cases "j \<le> j'")
    case True
    then have "j * unat stride \<le> j' * unat stride" by simp
    then show ?thesis using p(2,4) by linarith
  next
    case False
    then have "j' * unat stride + unat stride \<le> j * unat stride" using mult_le_mono1 [of "Suc j'" j "unat stride"] by simp
    then show ?thesis using p(4) st by linarith
  qed
qed

end
