(* ===== verification/Layout_Safe.thy ===== *)
theory Layout_Safe
  imports Layout
begin

text \<open>
  The boot-time mappings of \<^verbatim>\<open>Layout\<close> never collide and leave every guard page unmapped; the
  register window of device BAR 0 is the one exception.
\<close>

subsection \<open>Disjoint regions\<close>

text \<open>Pairwise disjoint address ranges.\<close>

fun apart :: "(nat \<times> nat) list \<Rightarrow> bool" where
  "apart [] \<longleftrightarrow> True"
| "apart ((lo, hi) # rs) \<longleftrightarrow> (\<forall>(lo', hi') \<in> set rs. hi \<le> lo' \<or> hi' \<le> lo) \<and> apart rs"

text \<open>A list of pages with a range that holds it.\<close>

definition within :: "u64 list \<Rightarrow> nat \<times> nat \<Rightarrow> bool" where
  "within ps r \<longleftrightarrow> distinct ps \<and> (\<forall>p \<in> set ps. fst r \<le> unat p \<and> unat p < snd r \<and> unat p mod 4096 = 0)"

lemma within_disjoint:
  assumes "within ps r" "within qs r'" "snd r \<le> fst r' \<or> snd r' \<le> fst r"
  shows "set ps \<inter> set qs = {}"
proof (rule ccontr)
  assume "set ps \<inter> set qs \<noteq> {}"
  then obtain p where "p \<in> set ps" "p \<in> set qs" by blast
  then have "fst r \<le> unat p" "unat p < snd r" "fst r' \<le> unat p" "unat p < snd r'"
    using assms(1,2) by (simp_all add: within_def)
  then show False using assms(3) by linarith
qed

lemma apart_distinct: "list_all2 within pss rs \<Longrightarrow> apart rs \<Longrightarrow> distinct (concat pss)"
proof (induction pss rs rule: list_all2_induct)
  case (Cons ps pss r rs)
  have "set ps \<inter> set qs = {}" if q: "qs \<in> set pss" for qs
  proof -
    obtain r' where r': "r' \<in> set rs" "within qs r'"
      using Cons.hyps(2) q by (metis in_set_conv_nth list_all2_conv_all_nth)
    have "snd r \<le> fst r' \<or> snd r' \<le> fst r" using Cons.prems r'(1) by (cases r; cases r') auto
    then show ?thesis using within_disjoint [OF Cons.hyps(1) r'(2)] by blast
  qed
  moreover have "apart rs" using Cons.prems by (cases r) simp
  ultimately show ?case using Cons.hyps(1) Cons.IH by (auto simp: within_def)
qed simp

text \<open>An address outside every range.\<close>

lemma outside_all: "list_all2 within pss rs \<Longrightarrow> (\<forall>(lo, hi) \<in> set rs. unat q < lo \<or> hi \<le> unat q) \<Longrightarrow> q \<notin> set (concat pss)"
  by (induction pss rs rule: list_all2_induct) (fastforce simp: within_def)+

definition region_range :: "u64 \<Rightarrow> u64 \<Rightarrow> nat \<Rightarrow> nat \<times> nat" where
  "region_range base stride k = (unat base, unat base + k * unat stride)"

lemma region_within:
  assumes "fits base stride n k" "unat base mod 4096 = 0" "unat stride mod 4096 = 0"
  shows "within (region base stride n k) (region_range base stride k)"
proof -
  have "unat p mod 4096 = 0" if p: "p \<in> set (region base stride n k)" for p
  proof -
    obtain j i where "unat p = unat base + j * unat stride + i * 4096" using region_member [OF assms(1) p] by metis
    moreover have "4096 dvd unat base" "4096 dvd j * unat stride"
      using assms(2,3) by (simp_all add: mod_eq_0_iff_dvd dvd_mult)
    ultimately show ?thesis by (simp add: mod_eq_0_iff_dvd)
  qed
  then show ?thesis
    using region_bounds [OF assms(1)] region_distinct [OF assms(1)] by (auto simp: within_def region_range_def)
qed

subsection \<open>The regions of boot\<close>

text \<open>The heap and the interrupt controller's page are regions of one slot too.\<close>

lemma heap_region: "heap_pages_of_kernel = region (HEAP_START - 4096) (HEAP_SIZE + 4096) (\<lambda>_. 2048) 1"
proof -
  have "[1..<Suc 2048] = map Suc [0..<2048]" by (metis One_nat_def map_Suc_upt)
  moreover have "heap_pages_of_kernel = map (\<lambda>i. HEAP_START + of_nat i * 4096) [0..<2048]"
    by (simp add: heap_pages_of_kernel_def page_range_def HEAP_START_def HEAP_SIZE_def page_of_def del: upt_Suc)
  ultimately show ?thesis
    by (simp add: region_def slot_pages_def HEAP_START_def o_def algebra_simps upt_rec [of 0 "Suc 0"] del: upt_Suc)
qed

lemma lapic_region: "[page_of LAPIC_MMIO_VBASE] = region (LAPIC_MMIO_VBASE - 4096) 8192 (\<lambda>_. 1) 1"
  by (simp add: region_def slot_pages_def LAPIC_MMIO_VBASE_def page_of_def)

text \<open>The page lists of the regions in boot order, and their ranges.\<close>

definition boot_regions :: "nat list \<Rightarrow> nat \<Rightarrow> u64 list list" where
  "boot_regions field_sizes process_size =
    [region (HEAP_START - 4096) (HEAP_SIZE + 4096) (\<lambda>_. 2048) 1,
     region KERNEL_STACKS_BASE KERNEL_STACK_SLOT_STRIDE (\<lambda>_. unat KERNEL_STACK_PAGES) MAX_PROCESSES,
     region SCHED_STATE_BASE SCHED_FIELD_STRIDE (\<lambda>k. guarded_pages (field_sizes ! k)) 4,
     region TRAP_FRAME_BASE TRAP_FRAME_STRIDE (\<lambda>_. guarded_pages TRAP_FRAME_SIZE) MAX_PROCESSES,
     region PROCESS_BOX_BASE PROCESS_BOX_STRIDE (\<lambda>_. guarded_pages process_size) PROCESS_SLOT_COUNT,
     region DOUBLE_FAULT_STACK_BASE DOUBLE_FAULT_STACK_SLOT_STRIDE (\<lambda>_. DOUBLE_FAULT_STACK_PAGES) MAX_CORES,
     region (LAPIC_MMIO_VBASE - 4096) 8192 (\<lambda>_. 1) 1,
     region IDLE_STACK_BASE IDLE_STACK_SLOT_STRIDE (\<lambda>_. IDLE_STACK_PAGES) MAX_CORES]"

definition boot_ranges :: "(nat \<times> nat) list" where
  "boot_ranges =
    [region_range (HEAP_START - 4096) (HEAP_SIZE + 4096) 1,
     region_range KERNEL_STACKS_BASE KERNEL_STACK_SLOT_STRIDE MAX_PROCESSES,
     region_range SCHED_STATE_BASE SCHED_FIELD_STRIDE 4,
     region_range TRAP_FRAME_BASE TRAP_FRAME_STRIDE MAX_PROCESSES,
     region_range PROCESS_BOX_BASE PROCESS_BOX_STRIDE PROCESS_SLOT_COUNT,
     region_range DOUBLE_FAULT_STACK_BASE DOUBLE_FAULT_STACK_SLOT_STRIDE MAX_CORES,
     region_range (LAPIC_MMIO_VBASE - 4096) 8192 1,
     region_range IDLE_STACK_BASE IDLE_STACK_SLOT_STRIDE MAX_CORES]"

lemmas layout_consts =
  HEAP_START_def HEAP_SIZE_def KERNEL_STACKS_BASE_def KERNEL_STACK_SLOT_STRIDE_def KERNEL_STACK_PAGES_def
  SCHED_STATE_BASE_def SCHED_FIELD_STRIDE_def TRAP_FRAME_BASE_def TRAP_FRAME_STRIDE_def TRAP_FRAME_SIZE_def
  PROCESS_BOX_BASE_def PROCESS_BOX_STRIDE_def PROCESS_SLOT_COUNT_def MAX_PROCESSES_def MAX_CORES_def
  DOUBLE_FAULT_STACK_BASE_def DOUBLE_FAULT_STACK_SLOT_STRIDE_def DOUBLE_FAULT_STACK_PAGES_def
  LAPIC_MMIO_VBASE_def IDLE_STACK_BASE_def IDLE_STACK_SLOT_STRIDE_def IDLE_STACK_PAGES_def

lemma boot_pages_regions: "boot_pages field_sizes process_size = concat (boot_regions field_sizes process_size)"
  by (simp add: boot_pages_def early_pages_def idle_pages_def boot_regions_def heap_region lapic_region)

lemma guarded_pages_bound: "n \<le> 0xF000 \<Longrightarrow> guarded_pages n \<le> 15"
  by (auto simp: guarded_pages_def div_ceil_def) (use div_mult_mod_eq [of n 4096] in linarith)+

lemma boot_ranges_apart: "apart boot_ranges"
  by (simp add: boot_ranges_def region_range_def layout_consts)

lemma boot_regions_within:
  assumes "\<forall>k < 4. field_sizes ! k \<le> 0xF000" "process_size \<le> 0xF000"
  shows "list_all2 within (boot_regions field_sizes process_size) boot_ranges"
proof -
  have g: "guarded_pages 160 \<le> 15" "guarded_pages process_size \<le> 15" "\<forall>k < 4. guarded_pages (field_sizes ! k) \<le> 15"
    using assms by (simp_all add: guarded_pages_bound)
  show ?thesis
    unfolding boot_regions_def boot_ranges_def list.rel_inject
    by (intro conjI list_all2_Nil [THEN iffD2] refl list_all2_Cons [THEN iffD2] region_within)
       (use g in \<open>auto simp: fits_def layout_consts\<close>)
qed

lemma apart_nth:
  "apart rs \<Longrightarrow> i < length rs \<Longrightarrow> j < length rs \<Longrightarrow> i \<noteq> j
    \<Longrightarrow> snd (rs ! i) \<le> fst (rs ! j) \<or> snd (rs ! j) \<le> fst (rs ! i)"
proof (induction rs arbitrary: i j)
  case (Cons r rs)
  have h: "snd r \<le> fst (rs ! m) \<or> snd (rs ! m) \<le> fst r" if "m < length rs" for m
    using Cons.prems(1) nth_mem [OF that] by (cases r; cases "rs ! m") auto
  have ap: "apart rs" using Cons.prems(1) by (cases r) simp
  show ?case
  proof (cases i; cases j)
    fix i' j' assume "i = Suc i'" "j = Suc j'"
    then show ?thesis using Cons.IH [OF ap, of i' j'] Cons.prems by simp
  qed (use Cons.prems h in auto)
qed simp

text \<open>An address of one region that the region does not map is mapped by none.\<close>

lemma unmapped_everywhere:
  assumes w: "list_all2 within pss rs" and "apart rs" "i < length rs"
    and q: "fst (rs ! i) \<le> unat q" "unat q < snd (rs ! i)" "q \<notin> set (pss ! i)"
  shows "q \<notin> set (concat pss)"
proof
  assume "q \<in> set (concat pss)"
  then obtain ps where "ps \<in> set pss" "q \<in> set ps" by auto
  then obtain j where j: "j < length pss" "q \<in> set (pss ! j)" by (metis in_set_conv_nth)
  then have "j \<noteq> i" "j < length rs" using q(3) w by (auto simp: list_all2_lengthD)
  moreover have "fst (rs ! j) \<le> unat q" "unat q < snd (rs ! j)"
    using j list_all2_nthD [OF w j(1)] by (simp_all add: within_def)
  ultimately show False using apart_nth [OF assms(2,3), of j] q(1,2) by fastforce
qed

text \<open>The guard pages: the first page of every slot.\<close>

definition slot_bases :: "u64 \<Rightarrow> u64 \<Rightarrow> nat \<Rightarrow> u64 list" where
  "slot_bases base stride k = map (\<lambda>j. base + of_nat j * stride) [0..<k]"

definition guard_pages :: "u64 list" where
  "guard_pages =
    slot_bases KERNEL_STACKS_BASE KERNEL_STACK_SLOT_STRIDE MAX_PROCESSES
    @ slot_bases SCHED_STATE_BASE SCHED_FIELD_STRIDE 4
    @ slot_bases TRAP_FRAME_BASE TRAP_FRAME_STRIDE MAX_PROCESSES
    @ slot_bases PROCESS_BOX_BASE PROCESS_BOX_STRIDE PROCESS_SLOT_COUNT
    @ slot_bases DOUBLE_FAULT_STACK_BASE DOUBLE_FAULT_STACK_SLOT_STRIDE MAX_CORES
    @ slot_bases IDLE_STACK_BASE IDLE_STACK_SLOT_STRIDE MAX_CORES"

lemma slot_base_unmapped:
  assumes f: "fits base stride n k" and g: "g \<in> set (slot_bases base stride k)" and k: "k < 2 ^ 64"
  shows "g \<notin> set (region base stride n k)" "unat base \<le> unat g" "unat g < unat base + k * unat stride"
proof -
  obtain j where j: "j < k" "g = base + of_nat j * stride" using g by (auto simp: slot_bases_def)
  have st: "0 < unat stride" using f j(1) by (fastforce simp: fits_def)
  have le: "j * unat stride + unat stride \<le> k * unat stride" using j(1) mult_le_mono1 [of "Suc j" k "unat stride"] by simp
  have "unat (of_nat j :: u64) = j" using j(1) k by (simp add: unat_of_nat take_bit_nat_eq_self_iff)
  then have u: "unat g = unat base + j * unat stride"
    using f le j(2) by (simp add: unat_word_ariths fits_def)
  show "g \<notin> set (region base stride n k)" by (rule region_guard [OF f j(1) u])
  show "unat base \<le> unat g" "unat g < unat base + k * unat stride" using u le st by linarith+
qed

lemma boot_fits:
  assumes "\<forall>k < 4. field_sizes ! k \<le> 0xF000" "process_size \<le> 0xF000"
  shows "fits KERNEL_STACKS_BASE KERNEL_STACK_SLOT_STRIDE (\<lambda>_. unat KERNEL_STACK_PAGES) MAX_PROCESSES"
    "fits SCHED_STATE_BASE SCHED_FIELD_STRIDE (\<lambda>k. guarded_pages (field_sizes ! k)) 4"
    "fits TRAP_FRAME_BASE TRAP_FRAME_STRIDE (\<lambda>_. guarded_pages TRAP_FRAME_SIZE) MAX_PROCESSES"
    "fits PROCESS_BOX_BASE PROCESS_BOX_STRIDE (\<lambda>_. guarded_pages process_size) PROCESS_SLOT_COUNT"
    "fits DOUBLE_FAULT_STACK_BASE DOUBLE_FAULT_STACK_SLOT_STRIDE (\<lambda>_. DOUBLE_FAULT_STACK_PAGES) MAX_CORES"
    "fits IDLE_STACK_BASE IDLE_STACK_SLOT_STRIDE (\<lambda>_. IDLE_STACK_PAGES) MAX_CORES"
  using assms guarded_pages_bound [of 160] guarded_pages_bound [of process_size]
  by (auto simp: fits_def layout_consts dest: guarded_pages_bound)

lemma guard_pages_unmapped:
  assumes sz: "\<forall>k < 4. field_sizes ! k \<le> 0xF000" "process_size \<le> 0xF000" and g: "g \<in> set guard_pages"
  shows "g \<notin> set (boot_pages field_sizes process_size)"
proof -
  have un: "g \<notin> set (boot_pages field_sizes process_size)"
    if "g \<in> set (slot_bases base stride k)" "fits base stride n k" "k < 2 ^ 64" "i < 8"
      "boot_ranges ! i = region_range base stride k" "boot_regions field_sizes process_size ! i = region base stride n k"
    for base stride k n i
    using unmapped_everywhere [OF boot_regions_within [OF sz] boot_ranges_apart, of i g]
      slot_base_unmapped [OF that(2,1,3)] that(4-6)
    by (simp add: boot_pages_regions region_range_def) (simp add: boot_ranges_def)
  have small: "MAX_PROCESSES < 2 ^ 64" "PROCESS_SLOT_COUNT < 2 ^ 64" "MAX_CORES < 2 ^ 64" "(4 :: nat) < 2 ^ 64"
    by (simp_all add: PROCESS_SLOT_COUNT_def MAX_PROCESSES_def MAX_CORES_def)
  note f = boot_fits [OF sz]
  show ?thesis
    using g unfolding guard_pages_def set_append Un_iff
    by (elim disjE)
       (rule un [OF _ f(1) small(1), of 1] un [OF _ f(2) small(4), of 2] un [OF _ f(3) small(1), of 3]
          un [OF _ f(4) small(2), of 4] un [OF _ f(5) small(3), of 5] un [OF _ f(6) small(3), of 7];
        simp add: boot_ranges_def boot_regions_def)+
qed

subsection \<open>Boot succeeds\<close>

text \<open>
  The documented contract of the crate's \<^verbatim>\<open>Mapper::map_to\<close> and \<^verbatim>\<open>Translate\<close> on page-aligned
  addresses of the boot-time tables: mapping an untranslated page succeeds while three frames (one
  per intermediate table) are free and takes at most those; it then translates to the frame, and
  no other page's translation changes.
\<close>

definition mapper_ok :: "'pt paging \<Rightarrow> bool" where
  "mapper_ok pg \<longleftrightarrow> (\<forall>page frame flags pt fa. let root = pg_master pg in
     unat page mod 4096 = 0 \<and> pg_translate pg pt root page = None \<and> fa_wf fa \<and> 3 \<le> free_frame_count fa \<longrightarrow>
     (\<exists>pt' fa'. pg_map_to pg root page frame flags pt fa = (Inr (), pt', fa')
       \<and> fa_wf fa' \<and> free_frame_count fa \<le> free_frame_count fa' + 3
       \<and> pg_translate pg pt' root page = Some (frame, flags)
       \<and> (\<forall>q. unat q mod 4096 = 0 \<and> q \<noteq> page \<longrightarrow> pg_translate pg pt' root q = pg_translate pg pt root q)))"

text \<open>The mapping of a page, as the state records it.\<close>

definition mapping :: "'pt paging \<Rightarrow> 'pt mem \<Rightarrow> u64 \<Rightarrow> (u64 \<times> u64) option" where
  "mapping pg m page = translate_in pg (pg_master pg) page m"

lemma virt_map_ok:
  assumes "mapper_ok pg" "unat page mod 4096 = 0" "mapping pg m page = None"
    "fa_wf (falloc m)" "3 \<le> free_frame_count (falloc m)"
  obtains m' where "virt_map pg page frame flags m = (Inr (), m')" "fa_wf (falloc m')"
    "free_frame_count (falloc m) \<le> free_frame_count (falloc m') + 3" "mapping pg m' page = Some (frame, flags)"
    "\<And>q. unat q mod 4096 = 0 \<Longrightarrow> q \<noteq> page \<Longrightarrow> mapping pg m' q = mapping pg m q"
proof -
  obtain pt' fa' where r: "pg_map_to pg (pg_master pg) page frame flags (ptab m) (falloc m) = (Inr (), pt', fa')"
    "fa_wf fa'" "free_frame_count (falloc m) \<le> free_frame_count fa' + 3"
    "pg_translate pg pt' (pg_master pg) page = Some (frame, flags)"
    "\<forall>q. unat q mod 4096 = 0 \<and> q \<noteq> page \<longrightarrow> pg_translate pg pt' (pg_master pg) q = pg_translate pg (ptab m) (pg_master pg) q"
    using assms(1) [unfolded mapper_ok_def Let_def, THEN spec [of _ page], THEN spec [of _ frame], THEN spec [of _ flags],
        THEN spec [of _ "ptab m"], THEN spec [of _ "falloc m"]] assms(2-)
    by (auto simp: mapping_def translate_in_def)
  show thesis
    by (rule that [of "m\<lparr>ptab := pt', falloc := fa'\<rparr>"])
       (use r in \<open>simp_all add: virt_map_def map_in_def mapping_def translate_in_def\<close>)
qed

lemma allocate_frame_ok:
  assumes "fa_wf (falloc m)" "0 < free_frame_count (falloc m)"
  obtains frame m' where "mem_allocate_frame m = (Some frame, m')" "fa_wf (falloc m')"
    "free_frame_count (falloc m) = Suc (free_frame_count (falloc m'))" "mapping pg m' = mapping pg m"
proof -
  obtain r fa' where a: "allocate_frame (falloc m) = (r, fa')" by fastforce
  have card: "free_frame_count fa = card (free_set (fa_bitmap fa))" for fa
    by (simp add: free_frame_count_def free_count_card)
  show thesis
  proof (cases rule: allocate_frame_cases [OF assms(1) a])
    case 1
    then show thesis using assms(2) card by simp
  next
    case (2 i)
    have "finite (free_set (fa_bitmap (falloc m)))" using assms(2) card card_ge_0_finite by metis
    then have "free_frame_count (falloc m) = Suc (free_frame_count fa')"
      using 2 card by (metis card.remove)
    then show thesis using that [of "frame_addr i" "m\<lparr>falloc := fa'\<rparr>"] 2 a
      by (simp add: mem_allocate_frame_def mapping_def [abs_def] translate_in_def)
  qed
qed

text \<open>What a run of mappings establishes.\<close>

definition mapped :: "'pt paging \<Rightarrow> u64 list \<Rightarrow> 'pt mem \<Rightarrow> 'pt mem \<Rightarrow> bool" where
  "mapped pg ps m m' \<longleftrightarrow> fa_wf (falloc m') \<and> free_frame_count (falloc m) \<le> free_frame_count (falloc m') + 4 * length ps
    \<and> (\<forall>p \<in> set ps. mapping pg m' p \<noteq> None)
    \<and> (\<forall>q. unat q mod 4096 = 0 \<and> q \<notin> set ps \<longrightarrow> mapping pg m' q = mapping pg m q)"

lemma map_fresh_ok:
  assumes "mapper_ok pg" "fa_wf (falloc m)" "4 * length ps \<le> free_frame_count (falloc m)" "distinct ps"
    "\<forall>p \<in> set ps. unat p mod 4096 = 0 \<and> mapping pg m p = None"
  shows "\<exists>m'. map_fresh pg flags ps m = Inr m' \<and> mapped pg ps m m'
    \<and> (\<forall>p \<in> set ps. \<exists>frame. mapping pg m' p = Some (frame, flags))"
  using assms(2-)
proof (induction ps arbitrary: m)
  case (Cons p ps)
  obtain frame m1 where a: "mem_allocate_frame m = (Some frame, m1)" "fa_wf (falloc m1)"
    "free_frame_count (falloc m) = Suc (free_frame_count (falloc m1))" "mapping pg m1 = mapping pg m"
    using allocate_frame_ok [of m pg] Cons.prems(1,2) by auto
  have p: "unat p mod 4096 = 0" "mapping pg m1 p = None" "3 \<le> free_frame_count (falloc m1)"
    using Cons.prems(2,4) a(3,4) by auto
  obtain m2 where b: "virt_map pg p frame flags m1 = (Inr (), m2)" "fa_wf (falloc m2)"
    "free_frame_count (falloc m1) \<le> free_frame_count (falloc m2) + 3" "mapping pg m2 p = Some (frame, flags)"
    "\<And>q. unat q mod 4096 = 0 \<Longrightarrow> q \<noteq> p \<Longrightarrow> mapping pg m2 q = mapping pg m1 q"
    using virt_map_ok [OF assms(1) p(1,2) a(2) p(3)] by metis
  have "\<forall>q \<in> set ps. unat q mod 4096 = 0 \<and> mapping pg m2 q = None"
    using Cons.prems(3,4) b(5) a(4) by (metis distinct.simps(2) list.set_intros(2))
  then obtain m' where c: "map_fresh pg flags ps m2 = Inr m'" "mapped pg ps m2 m'"
    "\<forall>q \<in> set ps. \<exists>frame. mapping pg m' q = Some (frame, flags)"
    using Cons.IH [of m2] Cons.prems(2,3) b(2,3) a(3) by auto
  have "mapping pg m' p = Some (frame, flags)" using c(2) b(4) p(1) Cons.prems(3) by (simp add: mapped_def)
  then show ?case
    using a b c by (auto simp: mapped_def)
qed (auto simp: mapped_def)

lemma mapped_trans:
  "mapped pg ps m m' \<Longrightarrow> mapped pg qs m' m'' \<Longrightarrow> set ps \<inter> set qs = {} \<Longrightarrow> \<forall>p \<in> set ps. unat p mod 4096 = 0
    \<Longrightarrow> mapped pg (ps @ qs) m m''"
  by (auto simp: mapped_def disjoint_iff)

lemma init_mmio_mapping_ok:
  assumes "mapper_ok pg" "fa_wf (falloc m)" "4 \<le> free_frame_count (falloc m)" "mapping pg m (page_of LAPIC_MMIO_VBASE) = None"
  shows "\<exists>m'. init_mmio_mapping pg apic m = Inr m' \<and> mapped pg [page_of LAPIC_MMIO_VBASE] m m'"
proof -
  have al: "unat (page_of LAPIC_MMIO_VBASE) mod 4096 = 0" by (rule page_of_aligned)
  obtain m' where v: "virt_map pg (page_of LAPIC_MMIO_VBASE) apic (KERNEL_DATA_FLAGS OR PF_NO_CACHE) m = (Inr (), m')"
    "fa_wf (falloc m')" "free_frame_count (falloc m) \<le> free_frame_count (falloc m') + 3"
    "mapping pg m' (page_of LAPIC_MMIO_VBASE) = Some (apic, KERNEL_DATA_FLAGS OR PF_NO_CACHE)"
    "\<And>q. unat q mod 4096 = 0 \<Longrightarrow> q \<noteq> page_of LAPIC_MMIO_VBASE \<Longrightarrow> mapping pg m' q = mapping pg m q"
    by (rule virt_map_ok [OF assms(1) al assms(4,2), of apic "KERNEL_DATA_FLAGS OR PF_NO_CACHE"]) (use assms(3) in auto)
  then show ?thesis by (auto simp: init_mmio_mapping_def mapped_def)
qed

lemma boot_pages_aligned:
  assumes "\<forall>k < 4. field_sizes ! k \<le> 0xF000" "process_size \<le> 0xF000" "p \<in> set (boot_pages field_sizes process_size)"
  shows "unat p mod 4096 = 0"
proof -
  obtain ps where ps: "ps \<in> set (boot_regions field_sizes process_size)" "p \<in> set ps"
    using assms(3) by (auto simp: boot_pages_regions)
  then obtain r where "within ps r"
    using boot_regions_within [OF assms(1,2)] by (metis in_set_conv_nth list_all2_conv_all_nth)
  then show ?thesis using ps(2) by (simp add: within_def)
qed

lemma boot_pages_distinct:
  "\<forall>k < 4. field_sizes ! k \<le> 0xF000 \<Longrightarrow> process_size \<le> 0xF000 \<Longrightarrow> distinct (boot_pages field_sizes process_size)"
  unfolding boot_pages_regions by (rule apart_distinct [OF boot_regions_within boot_ranges_apart])

lemma slot_bases_aligned:
  "unat base mod 4096 = 0 \<Longrightarrow> unat stride mod 4096 = 0 \<Longrightarrow> g \<in> set (slot_bases base stride k) \<Longrightarrow> unat g mod 4096 = 0"
  by (auto simp: slot_bases_def unat_word_ariths mod_eq_0_iff_dvd dvd_mod_iff)

lemma guard_pages_aligned: "g \<in> set guard_pages \<Longrightarrow> unat g mod 4096 = 0"
  unfolding guard_pages_def set_append Un_iff
  by (elim disjE) (erule slot_bases_aligned [rotated 2]; simp add: layout_consts)+

text \<open>C9. The boot-time layout is sound: with the scheduler's fields and a process record of at most
  15 pages each, when none of the layout's pages is mapped yet and four frames per page are free,
  every mapping step of boot succeeds (no \<^verbatim>\<open>expect\<close> fires), every page of the heap, the kernel
  stacks, the scheduler state, the trap frames, the process records, the double-fault stacks, the
  local APIC and the idle stacks is mapped, and no guard page below a slot is.\<close>

theorem boot_layout:
  assumes pg: "mapper_ok pg" and sz: "\<forall>k < 4. field_sizes ! k \<le> 0xF000" "process_size \<le> 0xF000"
    and fa: "fa_wf (falloc m)" "4 * length (boot_pages field_sizes process_size) \<le> free_frame_count (falloc m)"
    and un: "\<forall>p \<in> set (boot_pages field_sizes process_size) \<union> set guard_pages. virt_translate pg p m = None"
  shows "\<exists>m'. boot_mappings pg field_sizes process_size apic m = Inr m'
    \<and> (\<forall>p \<in> set (boot_pages field_sizes process_size). virt_translate pg p m' \<noteq> None)
    \<and> (\<forall>g \<in> set guard_pages. virt_translate pg g m' = None)"
proof -
  let ?early = "early_pages field_sizes process_size" and ?lapic = "[page_of LAPIC_MMIO_VBASE]"
  let ?all = "boot_pages field_sizes process_size"
  have vt: "virt_translate pg p m = map_option fst (mapping pg m p)" for p m by (simp add: virt_translate_def mapping_def)
  have all: "?all = ?early @ ?lapic @ idle_pages" by (simp add: boot_pages_def)
  have al: "\<forall>p \<in> set ?all. unat p mod 4096 = 0" using boot_pages_aligned [OF sz] by blast
  have d: "distinct (?early @ ?lapic @ idle_pages)" using boot_pages_distinct [OF sz] all by simp
  have none: "\<forall>p \<in> set ?all. mapping pg m p = None" using un vt by auto
  obtain m1 where m1: "map_fresh pg KERNEL_DATA_FLAGS ?early m = Inr m1" "mapped pg ?early m m1"
    using map_fresh_ok [OF pg fa(1), of ?early KERNEL_DATA_FLAGS] fa(2) d al none all by auto
  obtain m2 where m2: "init_mmio_mapping pg apic m1 = Inr m2" "mapped pg ?lapic m1 m2"
    using init_mmio_mapping_ok [OF pg, of m1 apic] m1(2) fa(2) d al none all by (auto simp: mapped_def)
  have m12: "mapped pg (?early @ ?lapic) m m2" using mapped_trans [OF m1(2) m2(2)] d al all by auto
  have "\<forall>p \<in> set idle_pages. unat p mod 4096 = 0 \<and> mapping pg m2 p = None"
  proof
    fix p assume p: "p \<in> set idle_pages"
    then have "unat p mod 4096 = 0" "mapping pg m p = None" "p \<notin> set (?early @ ?lapic)" using d al none all by auto
    then show "unat p mod 4096 = 0 \<and> mapping pg m2 p = None" using m12 by (simp add: mapped_def)
  qed
  then obtain m3 where m3: "map_fresh pg KERNEL_DATA_FLAGS idle_pages m2 = Inr m3" "mapped pg idle_pages m2 m3"
    using map_fresh_ok [OF pg, of m2 idle_pages KERNEL_DATA_FLAGS] m12 fa(2) d all by (auto simp: mapped_def)
  have "mapped pg ?all m m3"
    using mapped_trans [OF m12 m3(2)] d al all by auto
  moreover have "g \<notin> set ?all \<and> unat g mod 4096 = 0" if "g \<in> set guard_pages" for g
    using guard_pages_unmapped [OF sz that] guard_pages_aligned [OF that] by simp
  ultimately show ?thesis
    using m1(1) m2(1) m3(1) un by (auto simp: boot_mappings_pages mapped_def vt)
qed

text \<open>A machine with 64 MiB of usable memory and no mapping.\<close>

definition low_memory :: "memmap_entry list" where
  "low_memory = [\<lparr>me_base = 0, me_length = 0x4000000, me_usable = True\<rparr>]"

lemma low_memory_boot: "\<exists>fa. fa_wf fa \<and> free_frame_count fa = 16384"
proof -
  have r: "usable_frame_range 0 0x4000000 FRAME_SIZE = Some (0, 16384)"
    by (simp add: usable_frame_range_def checked_add_def div_ceil_def FRAME_SIZE_def)
  obtain fa where p: "populate low_memory (frame_allocator_new BITMAP_WORDS) = Some fa"
    by (simp add: low_memory_def r)
  have "{i \<in> region_frames low_memory. i < MAX_TRACKED_FRAMES} = {..<16384}"
    by (auto simp: region_frames_def low_memory_def MAX_TRACKED_FRAMES_def)
  then show ?thesis using fa_inv_count [OF fa_inv_boot [OF p]] fa_inv_boot [OF p] by (auto simp: fa_inv_def)
qed

lemma page_of_id: "unat p mod 4096 = 0 \<Longrightarrow> page_of p = p"
  by (simp add: word_unat_eq_iff unat_page_of)

lemma flat_mapper_ok: "mapper_ok flat_paging"
  by (auto simp: mapper_ok_def flat_paging_def page_of_id)

lemma region_length: "length (region base stride n k) = sum_list (map n [0..<k])"
  by (simp add: region_def slot_pages_def length_concat o_def del: upt_Suc)

lemma idle_page: "IDLE_STACK_BASE + 4096 \<in> set idle_pages"
proof -
  have z: "0 < MAX_CORES" "1 \<le> IDLE_STACK_PAGES" by (simp_all add: MAX_CORES_def IDLE_STACK_PAGES_def)
  have "IDLE_STACK_BASE + 4096 \<in> set (slot_pages IDLE_STACK_BASE IDLE_STACK_PAGES)"
    using z(2) by (auto simp: slot_pages_def less_Suc_eq_le intro!: image_eqI [of _ _ 1] simp del: upt_Suc)
  then show ?thesis
    using z(1) by (auto simp: idle_pages_def region_def intro!: bexI [of _ 0] simp del: upt_Suc)
qed

lemma small_layout:
  "length (boot_pages [4096, 4096, 4096, 4096] 4096) \<le> 4096"
  "IDLE_STACK_BASE + 4096 \<in> set (boot_pages [4096, 4096, 4096, 4096] 4096)"
  "IDLE_STACK_BASE \<in> set guard_pages"
proof -
  have l: "length (region base stride (\<lambda>_. c) k) = k * c" for base stride c k
    by (simp add: region_length map_replicate_const sum_list_replicate)
  have n: "length (region b st (\<lambda>k. guarded_pages ([4096, 4096, 4096, 4096] ! k)) 4) = 4" for b st
    by (simp add: region_length upt_rec guarded_pages_def div_ceil_def)
  show "length (boot_pages [4096, 4096, 4096, 4096] 4096) \<le> 4096"
    by (simp add: boot_pages_regions boot_regions_def l n) (simp add: guarded_pages_def div_ceil_def layout_consts)
  have z: "0 < MAX_CORES" by (simp add: MAX_CORES_def)
  show "IDLE_STACK_BASE + 4096 \<in> set (boot_pages [4096, 4096, 4096, 4096] 4096)"
    using idle_page by (simp add: boot_pages_def)
  have "IDLE_STACK_BASE \<in> set (slot_bases IDLE_STACK_BASE IDLE_STACK_SLOT_STRIDE MAX_CORES)"
    using z by (auto simp: slot_bases_def intro!: image_eqI [of _ _ 0] simp del: upt_Suc)
  then show "IDLE_STACK_BASE \<in> set guard_pages" by (simp add: guard_pages_def)
qed

theorem boot_layout_witness:
  "\<exists>m m'. boot_mappings flat_paging [4096, 4096, 4096, 4096] 4096 0xfee00000 m = Inr m'
    \<and> virt_translate flat_paging (IDLE_STACK_BASE + 4096) m' \<noteq> None \<and> virt_translate flat_paging IDLE_STACK_BASE m' = None"
proof -
  obtain fa where fa: "fa_wf fa" "free_frame_count fa = 16384" using low_memory_boot by blast
  let ?m = "\<lparr>falloc = fa, pmem = (\<lambda>_. 0), ptab = []\<rparr> :: flat_table mem" and ?szs = "[4096, 4096, 4096, 4096] :: nat list"
  have "\<exists>m'. boot_mappings flat_paging ?szs 4096 0xfee00000 ?m = Inr m'
    \<and> (\<forall>p \<in> set (boot_pages ?szs 4096). virt_translate flat_paging p m' \<noteq> None)
    \<and> (\<forall>g \<in> set guard_pages. virt_translate flat_paging g m' = None)"
  proof (rule boot_layout [OF flat_mapper_ok])
    show "\<forall>k < 4. ?szs ! k \<le> 0xF000" by (simp add: nth_Cons')
    show "4 * length (boot_pages ?szs 4096) \<le> free_frame_count (falloc ?m)"
      using small_layout(1) fa(2) by simp
    show "\<forall>p \<in> set (boot_pages ?szs 4096) \<union> set guard_pages. virt_translate flat_paging p ?m = None"
      by (simp add: virt_translate_def translate_in_def flat_paging_def)
  qed (simp_all add: fa)
  then show ?thesis using small_layout(2,3) by blast
qed

subsection \<open>Device register windows\<close>

text \<open>Every guard page lies in the range of its region.\<close>

lemma guard_in_range:
  assumes g: "g \<in> set guard_pages"
  shows "\<exists>(lo, hi) \<in> set boot_ranges. lo \<le> unat g \<and> unat g < hi"
proof -
  have sz: "\<forall>k < 4. [0, 0, 0, 0] ! k \<le> (0xF000 :: nat)" "(0 :: nat) \<le> 0xF000" by (simp_all add: nth_Cons')
  have small: "MAX_PROCESSES < 2 ^ 64" "PROCESS_SLOT_COUNT < 2 ^ 64" "MAX_CORES < 2 ^ 64" "(4 :: nat) < 2 ^ 64"
    by (simp_all add: PROCESS_SLOT_COUNT_def MAX_PROCESSES_def MAX_CORES_def)
  note f = boot_fits [OF sz]
  show ?thesis
    using g unfolding guard_pages_def set_append Un_iff boot_ranges_def list.set bex_simps region_range_def prod.case
    by (elim disjE)
       (use slot_base_unmapped(2,3) [OF f(1) _ small(1)] slot_base_unmapped(2,3) [OF f(2) _ small(4)]
          slot_base_unmapped(2,3) [OF f(3) _ small(1)] slot_base_unmapped(2,3) [OF f(4) _ small(2)]
          slot_base_unmapped(2,3) [OF f(5) _ small(3)] slot_base_unmapped(2,3) [OF f(6) _ small(3)] in \<open>simp; blast\<close>)+
qed

lemma bar_page_bounds:
  assumes "1 \<le> bar" "bar \<le> 5" "size_bytes \<le> 0x100000" "p \<in> set (bar_pages bar size_bytes)"
  shows "unat MMIO_VBASE + 0x100000 \<le> unat p" "unat p < unat MMIO_VBASE + 0x600000"
proof -
  have c: "max (div_ceil size_bytes 4096) 1 \<le> 256"
    using assms(3) by (auto simp: div_ceil_def) (use div_mult_mod_eq [of size_bytes 4096] in linarith)+
  obtain i where i: "i < max (div_ceil size_bytes 4096) 1" "p = MMIO_VBASE + of_nat bar * BAR_VSTRIDE + of_nat i * 4096"
    using assms(4) by (auto simp: bar_pages_def)
  have u: "unat (of_nat bar :: u64) = bar" "unat (of_nat i :: u64) = i"
    using assms(2) i(1) c by (simp_all add: unat_of_nat take_bit_nat_eq_self_iff)
  have "unat p = unat MMIO_VBASE + bar * 0x100000 + i * 4096"
    using i(2) assms(2) i(1) c by (simp add: unat_word_ariths u MMIO_VBASE_def BAR_VSTRIDE_def)
  then show "unat MMIO_VBASE + 0x100000 \<le> unat p" "unat p < unat MMIO_VBASE + 0x600000"
    using assms(1,2) i(1) c by linarith+
qed

lemma bar_clear_of_ranges:
  "\<forall>(lo, hi) \<in> set boot_ranges. hi \<le> unat MMIO_VBASE + 0x100000 \<or> unat MMIO_VBASE + 0x600000 \<le> lo"
  by (simp add: boot_ranges_def region_range_def layout_consts MMIO_VBASE_def)

text \<open>C32. The register windows of the block driver: BARs 1 to 5, each at most 1 MiB, are clear of
  everything boot maps and of every guard page, but the window of BAR 0 starts on the guard page
  below core 0's idle stack, and from its second page on it is on that stack's own mapped pages, where
  \<^verbatim>\<open>map_bar\<close> cannot map it.\<close>

theorem bar_windows:
  assumes sz: "\<forall>k < 4. field_sizes ! k \<le> 0xF000" "process_size \<le> 0xF000"
  shows "(1 \<le> bar \<and> bar \<le> 5 \<and> size_bytes \<le> 0x100000 \<longrightarrow>
        set (bar_pages bar size_bytes) \<inter> (set (boot_pages field_sizes process_size) \<union> set guard_pages) = {})
    \<and> bar_pages 0 size_bytes ! 0 = idle_stack_slot_base 0 \<and> idle_stack_slot_base 0 \<in> set guard_pages
    \<and> (4096 < size_bytes \<longrightarrow> bar_pages 0 size_bytes ! 1 \<in> set (boot_pages field_sizes process_size))"
proof (intro conjI impI)
  assume b: "1 \<le> bar \<and> bar \<le> 5 \<and> size_bytes \<le> 0x100000"
  have out: "\<forall>(lo, hi) \<in> set boot_ranges. unat p < lo \<or> hi \<le> unat p" if "p \<in> set (bar_pages bar size_bytes)" for p
    using bar_clear_of_ranges bar_page_bounds [OF _ _ _ that] b by fastforce
  have "p \<notin> set (boot_pages field_sizes process_size)" if "p \<in> set (bar_pages bar size_bytes)" for p
    unfolding boot_pages_regions by (rule outside_all [OF boot_regions_within [OF sz] out [OF that]])
  moreover have "p \<notin> set guard_pages" if "p \<in> set (bar_pages bar size_bytes)" for p
    using guard_in_range [of p] out [OF that] by fastforce
  ultimately show "set (bar_pages bar size_bytes) \<inter> (set (boot_pages field_sizes process_size) \<union> set guard_pages) = {}"
    by blast
next
  have z: "idle_stack_slot_base 0 = IDLE_STACK_BASE" by (simp add: idle_stack_slot_base_def)
  show "idle_stack_slot_base 0 \<in> set guard_pages" using small_layout(3) z by simp
  show "bar_pages 0 size_bytes ! 0 = idle_stack_slot_base 0"
    by (simp add: z bar_pages_def IDLE_STACK_BASE_def MMIO_VBASE_def less_max_iff_disj del: upt_Suc)
  assume "4096 < size_bytes"
  then have "1 < div_ceil size_bytes 4096" by (auto simp: div_ceil_def)
  then have "bar_pages 0 size_bytes ! 1 = IDLE_STACK_BASE + 4096"
    by (simp add: bar_pages_def IDLE_STACK_BASE_def MMIO_VBASE_def del: upt_Suc)
  moreover have "IDLE_STACK_BASE + 4096 \<in> set (boot_pages field_sizes process_size)"
    using idle_page by (simp add: boot_pages_def)
  ultimately show "bar_pages 0 size_bytes ! 1 \<in> set (boot_pages field_sizes process_size)" by simp
qed

theorem bar_windows_witness:
  "set (bar_pages 4 0x4000) \<inter> (set (boot_pages [4096, 4096, 4096, 4096] 4096) \<union> set guard_pages) = {}
   \<and> bar_pages 0 0x4000 ! 1 \<in> set (boot_pages [4096, 4096, 4096, 4096] 4096)"
proof -
  have "\<forall>k < 4. [4096, 4096, 4096, 4096] ! k \<le> (0xF000 :: nat)" by (simp add: nth_Cons')
  then show ?thesis using bar_windows [of "[4096, 4096, 4096, 4096]" 4096 4 "0x4000"] by simp
qed

end
