(* ===== verification/Cores.thy ===== *)
theory Cores
  imports Layout_Safe
begin

unbundle bit_operations_syntax

text \<open>
  Identifying and starting the cores, and what a panic does to them: \<^verbatim>\<open>arch/x86_64/percpu.rs\<close>,
  \<^verbatim>\<open>smp.rs\<close>, the register writes of \<^verbatim>\<open>lapic.rs\<close> and the panic handler of \<^verbatim>\<open>lang_items.rs\<close>.
\<close>

subsection \<open>Reading the local APIC identifier\<close>

text \<open>
  The inline assembly of \<^verbatim>\<open>read_initial_apic_id\<close> on 64-bit registers.  A 32-bit move clears the upper
  half of its destination; what \<^verbatim>\<open>cpuid\<close> returns for a leaf is the processor's.
\<close>

datatype asm_reg = ARax | ARbx | ARcx | ARdx | ATmp | AOut

datatype asm_instr = Mov32 asm_reg asm_reg | Cpuid

type_synonym cpuid_fun = "u32 \<Rightarrow> u32 \<times> u32 \<times> u32 \<times> u32"

fun asm_exec1 :: "cpuid_fun \<Rightarrow> asm_instr \<Rightarrow> (asm_reg \<Rightarrow> u64) \<Rightarrow> asm_reg \<Rightarrow> u64" where
  "asm_exec1 cpuid (Mov32 d s) r = r(d := ucast (ucast (r s) :: u32))"
| "asm_exec1 cpuid Cpuid r =
    (case cpuid (ucast (r ARax)) of
       (a, b, c, d) \<Rightarrow> r(ARax := ucast a, ARbx := ucast b, ARcx := ucast c, ARdx := ucast d))"

definition apic_id_asm :: "asm_instr list" where
  "apic_id_asm = [Mov32 ATmp ARbx, Cpuid, Mov32 AOut ARbx, Mov32 ARbx ATmp]"

text \<open>The result and the registers afterwards; \<^verbatim>\<open>eax\<close> is set to 1 by the operand.\<close>

definition read_initial_apic_id :: "cpuid_fun \<Rightarrow> (asm_reg \<Rightarrow> u64) \<Rightarrow> u32 \<times> (asm_reg \<Rightarrow> u64)" where
  "read_initial_apic_id cpuid r =
    (let r' = fold (asm_exec1 cpuid) apic_id_asm (r(ARax := 1)) in (drop_bit 24 (ucast (r' AOut)), r'))"

definition apic_id_of :: "cpuid_fun \<Rightarrow> u32" where
  "apic_id_of cpuid = drop_bit 24 (fst (snd (cpuid 1)))"

lemma ucast_down_up: "ucast (ucast (x :: u64) :: u32) = x AND 0xFFFFFFFF"
proof -
  have "(0xFFFFFFFF :: u64) = mask 32" by (simp add: mask_eq_exp_minus_1)
  then show ?thesis by (simp add: bit_eq_iff bit_simps) auto
qed

lemma ucast_up_down [simp]: "(ucast (ucast (x :: u32) :: u64) :: u32) = x"
  by (simp add: bit_eq_iff bit_simps)

text \<open>C38. Reading the local APIC identifier returns the identifier, but it does not preserve the
  callee-saved register \<^verbatim>\<open>rbx\<close>: the save and restore go through 32-bit registers, so its upper half
  comes back as zero, and any value of \<^verbatim>\<open>2\<^sup>3\<^sup>2\<close> or more, such as a kernel pointer, is lost.\<close>

theorem apic_id_clobbers_rbx:
  "fst (read_initial_apic_id cpuid r) = apic_id_of cpuid
   \<and> snd (read_initial_apic_id cpuid r) ARbx = r ARbx AND 0xFFFFFFFF
   \<and> (snd (read_initial_apic_id cpuid r) ARbx = r ARbx \<longleftrightarrow> r ARbx < 2 ^ 32)"
proof -
  obtain a b c d where c1: "cpuid 1 = (a, b, c, d)" by (metis prod_cases4)
  have id: "fst (read_initial_apic_id cpuid r) = apic_id_of cpuid"
    by (simp add: read_initial_apic_id_def apic_id_asm_def apic_id_of_def c1)
  have rbx: "snd (read_initial_apic_id cpuid r) ARbx = r ARbx AND 0xFFFFFFFF"
    by (simp add: read_initial_apic_id_def apic_id_asm_def c1 ucast_down_up)
  have "unat (r ARbx AND 0xFFFFFFFF) = unat (r ARbx) mod 2 ^ 32"
  proof -
    have "(0xFFFFFFFF :: u64) = mask 32" by (simp add: mask_eq_exp_minus_1)
    then have "r ARbx AND 0xFFFFFFFF = take_bit 32 (r ARbx)" by (simp only: take_bit_eq_mask)
    then show ?thesis by (simp add: unsigned_take_bit_eq take_bit_eq_mod [where ?'a = nat] unat_mod_distrib)
  qed
  then have "r ARbx AND 0xFFFFFFFF = r ARbx \<longleftrightarrow> r ARbx < 2 ^ 32"
    by (simp add: word_unat_eq_iff word_less_nat_alt) (metis mod_less mod_less_divisor zero_less_numeral)
  then show ?thesis using id rbx by simp
qed

subsection \<open>The slot table\<close>

definition UNASSIGNED :: u32 where "UNASSIGNED = 0xFFFFFFFF"

text \<open>The table is indexed with a bounds check.\<close>

definition assign_slot :: "nat \<Rightarrow> u32 \<Rightarrow> percpu_slot list \<Rightarrow> kpanic + percpu_slot list" where
  "assign_slot index apic cores =
    (if index < length cores then Inr (cores[index := (cores ! index)\<lparr>lapic_id := apic\<rparr>]) else Inl IndexOutOfBounds)"

definition set_core_ready :: "nat \<Rightarrow> percpu_slot list \<Rightarrow> percpu_slot list" where
  "set_core_ready index cores = cores[index := (cores ! index)\<lparr>core_ready := True\<rparr>]"

definition is_booted :: "nat \<Rightarrow> percpu_slot list \<Rightarrow> bool" where
  "is_booted index cores \<longleftrightarrow> lapic_id (cores ! index) \<noteq> UNASSIGNED"

definition core_index :: "u32 \<Rightarrow> percpu_slot list \<Rightarrow> kpanic + nat" where
  "core_index apic_id cores =
    (case List.find (\<lambda>i. lapic_id (cores ! i) = apic_id) [0..<length cores] of
       None \<Rightarrow> Inl ExpectFailed
     | Some i \<Rightarrow> Inr i)"

subsection \<open>Registers of the local APIC\<close>

definition REG_EOI :: nat where "REG_EOI = 0xB0"
definition REG_SVR :: nat where "REG_SVR = 0xF0"
definition REG_ICR_LOW :: nat where "REG_ICR_LOW = 0x300"
definition REG_ICR_HIGH :: nat where "REG_ICR_HIGH = 0x310"
definition REG_LVT_TIMER :: nat where "REG_LVT_TIMER = 0x320"
definition REG_INITIAL_COUNT :: nat where "REG_INITIAL_COUNT = 0x380"
definition REG_CURRENT_COUNT :: nat where "REG_CURRENT_COUNT = 0x390"
definition REG_DIVIDE_CONFIG :: nat where "REG_DIVIDE_CONFIG = 0x3E0"
definition SVR_APIC_SOFTWARE_ENABLE :: u32 where "SVR_APIC_SOFTWARE_ENABLE = push_bit 8 1"
definition ICR_ASSERT :: u32 where "ICR_ASSERT = push_bit 14 1"
definition LVT_TIMER_MASKED :: u32 where "LVT_TIMER_MASKED = push_bit 16 1"
definition LVT_TIMER_PERIODIC :: u32 where "LVT_TIMER_PERIODIC = push_bit 17 1"
definition DIVIDE_BY_16 :: u32 where "DIVIDE_BY_16 = 3"
definition CALIBRATION_SENTINEL :: u32 where "CALIBRATION_SENTINEL = 0xFFFFFFFF"

text \<open>The register writes of one core, in order.\<close>

type_synonym lapic_writes = "(nat \<times> u32) list"

definition write_reg :: "nat \<Rightarrow> u32 \<Rightarrow> lapic_writes \<Rightarrow> lapic_writes" where
  "write_reg offset v w = w @ [(offset, v)]"

definition init_this_core :: "lapic_writes \<Rightarrow> lapic_writes" where
  "init_this_core w = write_reg REG_SVR (SVR_APIC_SOFTWARE_ENABLE OR ucast SPURIOUS_VECTOR) w"

text \<open>
  Spinning until the tick counter differs from \<^term>\<open>start\<close>; \<^term>\<open>tick\<close> is what the i-th read of the
  counter returns and the result is the index of the first read that differs.
\<close>

fun await_tick :: "nat \<Rightarrow> (nat \<Rightarrow> u64) \<Rightarrow> u64 \<Rightarrow> nat \<Rightarrow> nat option" where
  "await_tick 0 tick start i = None"
| "await_tick (Suc n) tick start i = (if tick i \<noteq> start then Some i else await_tick n tick start (Suc i))"

text \<open>
  \<^verbatim>\<open>calibrate_against_pit\<close>: reads of the counter are numbered from \<^term>\<open>0\<close>; \<^term>\<open>count_at\<close> is the current count the
  device reports after a given number of counter reads.  The result is the stored reload value, the
  writes and the number of reads.
\<close>

definition calibrate_against_pit ::
  "nat \<Rightarrow> (nat \<Rightarrow> u64) \<Rightarrow> (nat \<Rightarrow> u32) \<Rightarrow> lapic_writes \<Rightarrow> (u32 \<times> lapic_writes \<times> nat) option" where
  "calibrate_against_pit n tick count_at w =
    (let w1 = write_reg REG_LVT_TIMER LVT_TIMER_MASKED (write_reg REG_DIVIDE_CONFIG DIVIDE_BY_16 w) in
     case await_tick n tick (tick 0) 1 of
       None \<Rightarrow> None
     | Some i \<Rightarrow>
         (let w2 = write_reg REG_INITIAL_COUNT CALIBRATION_SENTINEL w1 in
          case await_tick n tick (tick (Suc i)) (Suc (Suc i)) of
            None \<Rightarrow> None
          | Some j \<Rightarrow>
              Some (CALIBRATION_SENTINEL - count_at (Suc j), write_reg REG_INITIAL_COUNT 0 w2, Suc j)))"

definition arm_timer_this_core :: "u32 \<Rightarrow> lapic_writes \<Rightarrow> lapic_writes" where
  "arm_timer_this_core reload w =
    write_reg REG_INITIAL_COUNT reload
      (write_reg REG_LVT_TIMER (LVT_TIMER_PERIODIC OR ucast LAPIC_TIMER_VECTOR)
        (write_reg REG_DIVIDE_CONFIG DIVIDE_BY_16 w))"

definition send_ipi :: "u32 \<Rightarrow> u8 \<Rightarrow> lapic_writes \<Rightarrow> lapic_writes" where
  "send_ipi target vector w =
    write_reg REG_ICR_LOW (ucast vector OR ICR_ASSERT) (write_reg REG_ICR_HIGH (push_bit 24 target) w)"

definition broadcast_panic_halt :: "nat \<Rightarrow> percpu_slot list \<Rightarrow> lapic_writes \<Rightarrow> lapic_writes" where
  "broadcast_panic_halt this_core cores w =
    fold (\<lambda>core w. if core = this_core then w
                   else if \<not> is_booted core cores then w
                   else send_ipi (lapic_id (cores ! core)) PANIC_HALT_VECTOR w) [0..<MAX_CORES] w"

subsection \<open>Starting the cores\<close>

text \<open>
  The assembly trampoline: the stack it switches to for the core index in \<^verbatim>\<open>extra_argument\<close>, or
  nothing when it parks the core.
\<close>

definition ap_entry_trampoline :: "u64 \<Rightarrow> u64 option" where
  "ap_entry_trampoline index =
    (if index \<ge> of_nat MAX_CORES then None
     else Some (IDLE_STACK_BASE + (1 + of_nat IDLE_STACK_PAGES) * 4096 + index * IDLE_STACK_SLOT_STRIDE))"

text \<open>The loop over the processors the boot loader reports, with the processors it bootstraps.\<close>

fun start_aps :: "u32 \<Rightarrow> u32 list \<Rightarrow> nat \<Rightarrow> percpu_slot list \<Rightarrow> kpanic + (nat \<times> percpu_slot list \<times> (u32 \<times> u64) list)" where
  "start_aps bsp [] started cores = Inr (started, cores, [])"
| "start_aps bsp (apic # ids) started cores =
    (if apic = bsp then start_aps bsp ids started cores
     else if started \<ge> MAX_CORES then Inr (started, cores, [])
     else sbind (assign_slot started apic cores) (\<lambda>cores.
       sbind (start_aps bsp ids (started + 1) cores) (\<lambda>(n, cores, boots).
         Inr (n, cores, (apic, of_nat started) # boots))))"

text \<open>The bounded wait for a started core; \<^term>\<open>flag\<close> is what the n-th read of its flag returns.\<close>

definition TIMEOUT_SPINS :: nat where "TIMEOUT_SPINS = 100000000"

function await_core :: "(nat \<Rightarrow> bool) \<Rightarrow> nat \<Rightarrow> bool" where
  "await_core flag spins =
    (if flag spins then True else if spins + 1 > TIMEOUT_SPINS then False else await_core flag (spins + 1))"
  by pat_completeness auto

termination
  by (relation "measure (\<lambda>(flag, spins). Suc TIMEOUT_SPINS - spins)") auto

declare await_core.simps [simp del]

definition bring_up_aps ::
  "'pt paging \<Rightarrow> u32 \<Rightarrow> u32 list \<Rightarrow> (nat \<Rightarrow> nat \<Rightarrow> bool) \<Rightarrow> percpu_slot list \<Rightarrow> 'pt mem
    \<Rightarrow> kpanic + (nat \<times> percpu_slot list \<times> (u32 \<times> u64) list \<times> bool list \<times> 'pt mem)" where
  "bring_up_aps pg bsp cpus flag cores m =
    sbind (assign_slot 0 bsp cores) (\<lambda>cores.
    sbind (map_slots (\<lambda>core m. sbind (idle_stack_top pg core m) (\<lambda>(_, m). Inr m)) [0..<MAX_CORES] m) (\<lambda>m.
    sbind (start_aps bsp cpus 1 (set_core_ready 0 cores)) (\<lambda>(started, cores, boots).
      Inr (started, cores, boots, map (\<lambda>core. await_core (flag core) 0) [1..<started], m))))"

definition bring_up_bsp_only ::
  "'pt paging \<Rightarrow> u32 \<Rightarrow> percpu_slot list \<Rightarrow> 'pt mem \<Rightarrow> kpanic + (percpu_slot list \<times> 'pt mem)" where
  "bring_up_bsp_only pg own_id cores m =
    sbind (assign_slot 0 own_id cores) (\<lambda>cores.
    sbind (idle_stack_top pg 0 m) (\<lambda>(_, m). Inr (set_core_ready 0 cores, m)))"

lemma start_aps_result:
  assumes "length cores = MAX_CORES" "started \<le> MAX_CORES"
    and "taken = take (MAX_CORES - started) (filter (\<lambda>c. c \<noteq> bsp) cpus)"
  shows "\<exists>cores'. start_aps bsp cpus started cores = Inr (started + length taken, cores',
      zip taken (map of_nat [started..<started + length taken]))
    \<and> length cores' = MAX_CORES
    \<and> (\<forall>i < MAX_CORES. lapic_id (cores' ! i) =
        (if started \<le> i \<and> i < started + length taken then taken ! (i - started) else lapic_id (cores ! i)))"
  using assms
proof (induction cpus arbitrary: started cores taken)
  case (Cons apic cpus)
  show ?case
  proof (cases "apic = bsp \<or> started \<ge> MAX_CORES")
    case True
    then show ?thesis using Cons.IH [OF Cons.prems(1,2)] Cons.prems by auto
  next
    case False
    let ?cores = "cores[started := (cores ! started)\<lparr>lapic_id := apic\<rparr>]"
    define rest where "rest = take (MAX_CORES - Suc started) (filter (\<lambda>c. c \<noteq> bsp) cpus)"
    have t: "taken = apic # rest" using False Cons.prems(3) by (simp add: rest_def take_Cons' Suc_diff_Suc)
    obtain cores' where r: "start_aps bsp cpus (Suc started) ?cores = Inr (Suc started + length rest, cores',
        zip rest (map of_nat [Suc started..<Suc started + length rest]))" "length cores' = MAX_CORES"
      "\<forall>i < MAX_CORES. lapic_id (cores' ! i) =
        (if Suc started \<le> i \<and> i < Suc started + length rest then rest ! (i - Suc started) else lapic_id (?cores ! i))"
      using Cons.IH [of ?cores "Suc started" rest] Cons.prems(1) False by (auto simp: rest_def)
    have u: "[started..<started + length taken] = started # [Suc started..<Suc started + length rest]"
      by (simp add: t upt_conv_Cons del: upt_Suc)
    have "start_aps bsp (apic # cpus) started cores = Inr (started + length taken, cores',
        zip taken (map of_nat [started..<started + length taken]))"
      using False r(1) Cons.prems(1) unfolding u by (simp add: assign_slot_def t del: upt_Suc)
    moreover have "\<forall>i < MAX_CORES. lapic_id (cores' ! i) =
        (if started \<le> i \<and> i < started + length taken then taken ! (i - started) else lapic_id (cores ! i))"
      using r(3) False Cons.prems(1) by (auto simp: t nth_list_update nth_Cons' not_less_eq_eq)
    ultimately show ?thesis using r(2) by blast
  qed
qed auto

lemma core_index_unique:
  assumes "i < length cores" "lapic_id (cores ! i) = apic" "\<And>j. j < i \<Longrightarrow> lapic_id (cores ! j) \<noteq> apic"
  shows "core_index apic cores = Inr i"
proof -
  have "List.find (\<lambda>i. lapic_id (cores ! i) = apic) [0..<length cores] = Some i"
    using assms by (auto simp: find_Some_iff intro!: exI [of _ i])
  then show ?thesis by (simp add: core_index_def)
qed

lemma trampoline_stack: "k < MAX_CORES \<Longrightarrow> ap_entry_trampoline (of_nat k) = Some (idle_stack_top_addr k)"
proof -
  assume k: "k < MAX_CORES"
  then have "unat (of_nat k :: u64) = k" by (simp add: MAX_CORES_def unat_of_nat take_bit_nat_eq_self_iff)
  then have "(of_nat k :: u64) < of_nat MAX_CORES" using k by (simp add: word_less_nat_alt MAX_CORES_def)
  then show ?thesis
    by (simp add: ap_entry_trampoline_def idle_stack_top_addr_def idle_stack_slot_base_def)
qed

lemma distinct_core_numbers: "n < 2 ^ 64 \<Longrightarrow> distinct (map (of_nat :: nat \<Rightarrow> u64) [k..<n])"
proof -
  assume n: "n < 2 ^ 64"
  have "inj_on (of_nat :: nat \<Rightarrow> u64) {k..<n}"
  proof (rule inj_onI)
    fix x y :: nat
    assume "x \<in> {k..<n}" "y \<in> {k..<n}" and eq: "(of_nat x :: u64) = of_nat y"
    then have "x < 2 ^ 64" "y < 2 ^ 64" using n by auto
    then have "unat (of_nat x :: u64) = x" "unat (of_nat y :: u64) = y"
      by (simp_all add: unat_of_nat take_bit_nat_eq_self_iff)
    then show "x = y" using eq by metis
  qed
  then show ?thesis by (simp add: distinct_map)
qed

text \<open>With the boot processor first and the others behind it in order, each is found at its place.\<close>

lemma core_index_taken:
  assumes j: "j < length taken" and tk: "distinct taken" "bsp \<notin> set taken"
    and ids: "Suc j < length cores" "lapic_id (cores ! 0) = bsp" "\<And>i. i \<le> j \<Longrightarrow> lapic_id (cores ! Suc i) = taken ! i"
  shows "core_index (taken ! j) cores = Inr (Suc j)"
proof (rule core_index_unique)
  fix i assume i: "i < Suc j"
  show "lapic_id (cores ! i) \<noteq> taken ! j"
  proof (cases i)
    case (Suc k)
    then show ?thesis using i j ids(3) [of k] nth_eq_iff_index_eq [OF tk(1), of k j] by auto
  qed (use ids(2) j tk(2) in auto)
qed (use ids in auto)

text \<open>C28. Starting the cores: when the boot loader reports distinct xAPIC identifiers, every processor
  it bootstraps, and the boot processor as core 0, is found again by \<^verbatim>\<open>core_index\<close> under the index
  that was passed to it, the trampoline puts it on exactly that core's own idle stack, indices are
  pairwise different and at most \<^verbatim>\<open>MAX_CORES\<close> cores run, taken in the order they were reported.\<close>

theorem cores_identified:
  assumes up: "bring_up_aps pg bsp cpus flag (replicate MAX_CORES percpu_new) m = Inr (started, cores, boots, answers, m')"
    and d: "distinct (filter (\<lambda>c. c \<noteq> bsp) cpus)"
  shows "started = min MAX_CORES (1 + length (filter (\<lambda>c. c \<noteq> bsp) cpus))
    \<and> map fst boots = take (MAX_CORES - 1) (filter (\<lambda>c. c \<noteq> bsp) cpus)
    \<and> distinct (map snd boots) \<and> core_index bsp cores = Inr 0
    \<and> (\<forall>(apic, index) \<in> set boots. \<exists>k. index = of_nat k \<and> 0 < k \<and> k < started
         \<and> core_index apic cores = Inr k \<and> ap_entry_trampoline index = Some (idle_stack_top_addr k))"
proof -
  let ?init = "set_core_ready 0 ((replicate MAX_CORES percpu_new)[0 := percpu_new\<lparr>lapic_id := bsp\<rparr>])"
  define taken where "taken = take (MAX_CORES - 1) (filter (\<lambda>c. c \<noteq> bsp) cpus)"
  have M: "MAX_CORES = 8" by (simp add: MAX_CORES_def)
  have i0: "length ?init = MAX_CORES" "lapic_id (?init ! 0) = bsp"
    "\<And>i. 0 < i \<Longrightarrow> i < MAX_CORES \<Longrightarrow> lapic_id (?init ! i) = 0xFFFFFFFF"
    by (simp_all add: set_core_ready_def M percpu_new_def nth_list_update)
  obtain c' where r: "start_aps bsp cpus 1 ?init = Inr (1 + length taken, c', zip taken (map of_nat [1..<1 + length taken]))"
    "length c' = MAX_CORES"
    "\<forall>i < MAX_CORES. lapic_id (c' ! i) = (if 1 \<le> i \<and> i < 1 + length taken then taken ! (i - 1) else lapic_id (?init ! i))"
    using start_aps_result [OF i0(1), of 1 taken bsp cpus] M by (auto simp: taken_def)
  have e: "started = 1 + length taken" "cores = c'" "boots = zip taken (map of_nat [1..<1 + length taken])"
    using up r(1) by (auto simp: bring_up_aps_def assign_slot_def sbind_Inr_iff M)
  have len: "length taken \<le> 7" by (simp add: taken_def M)
  have tk: "distinct taken" "bsp \<notin> set taken" using d by (auto simp: taken_def dest: in_set_takeD)
  have bspi: "core_index bsp cores = Inr 0"
    by (rule core_index_unique) (use r(2,3) i0(2) M e(2) in auto)
  have idx: "core_index (taken ! j) cores = Inr (Suc j)" if j: "j < length taken" for j
    by (rule core_index_taken [OF j tk]) (use r(2,3) e(2) j len M i0(2) in auto)
  have "\<exists>k. index = of_nat k \<and> 0 < k \<and> k < started \<and> core_index apic cores = Inr k
      \<and> ap_entry_trampoline index = Some (idle_stack_top_addr k)" if m: "(apic, index) \<in> set boots" for apic index
  proof -
    obtain j where j: "j < length taken" "apic = taken ! j" "index = of_nat (Suc j)"
      using m e(3) by (auto simp: set_zip simp del: upt_Suc)
    show ?thesis using idx [OF j(1)] j trampoline_stack [of "Suc j"] e(1) len M by (intro exI [of _ "Suc j"]) auto
  qed
  moreover have "distinct (map snd boots)" using distinct_core_numbers [of "1 + length taken"] len by (simp add: e(3) del: upt_Suc)
  moreover have "map fst boots = taken" by (simp add: e(3) del: upt_Suc)
  moreover have "started = min MAX_CORES (1 + length (filter (\<lambda>c. c \<noteq> bsp) cpus))" by (simp add: e(1) taken_def M)
  ultimately show ?thesis using bspi by (auto simp: taken_def)
qed

lemma idle_stacks_mapped:
  "map_slots (\<lambda>core m. sbind (idle_stack_top pg core m) (\<lambda>(_, m). Inr m)) [0..<MAX_CORES] = map_fresh pg KERNEL_DATA_FLAGS idle_pages"
proof -
  have "(\<lambda>core m. sbind (idle_stack_top pg core m) (\<lambda>(_, m). Inr m)) = (\<lambda>core.
      map_fresh pg KERNEL_DATA_FLAGS (slot_pages (IDLE_STACK_BASE + of_nat core * IDLE_STACK_SLOT_STRIDE) IDLE_STACK_PAGES))"
    by (simp add: idle_stack_top_def sbind_assoc sbind_id idle_stack_slot_base_def)
  then show ?thesis by (simp add: map_slots_fresh idle_pages_def region_def)
qed

text \<open>Two processors besides the boot processor, on a machine with free memory.\<close>

theorem cores_identified_witness:
  "\<exists>m cores boots answers m'. bring_up_aps flat_paging 0 [0, 2, 4] (\<lambda>_ _. True) (replicate MAX_CORES percpu_new) m
      = Inr (3, cores, boots, answers, m')
    \<and> map fst boots = [2, 4] \<and> core_index 0 cores = Inr 0"
proof -
  obtain fa where fa: "fa_wf fa" "free_frame_count fa = 16384" using low_memory_boot by blast
  let ?m = "\<lparr>falloc = fa, pmem = (\<lambda>_. 0), ptab = []\<rparr> :: flat_table mem"
  have len: "length idle_pages = 32"
    by (simp add: idle_pages_def region_length map_replicate_const sum_list_replicate MAX_CORES_def IDLE_STACK_PAGES_def)
  have sz: "\<forall>k < 4. [0, 0, 0, 0] ! k \<le> (0xF000 :: nat)" "(0 :: nat) \<le> 0xF000" by (simp_all add: nth_Cons')
  obtain m' where m: "map_fresh flat_paging KERNEL_DATA_FLAGS idle_pages ?m = Inr m'"
    using map_fresh_ok [OF flat_mapper_ok, of ?m idle_pages KERNEL_DATA_FLAGS] fa len
      boot_pages_distinct [OF sz] boot_pages_aligned [OF sz]
    by (auto simp: boot_pages_def mapping_def translate_in_def flat_paging_def)
  obtain cores boots answers where
    up: "bring_up_aps flat_paging 0 [0, 2, 4] (\<lambda>_ _. True) (replicate MAX_CORES percpu_new) ?m
      = Inr (3, cores, boots, answers, m')"
    unfolding bring_up_aps_def idle_stacks_mapped m by (simp add: assign_slot_def MAX_CORES_def set_core_ready_def m)
  have "map fst boots = [2, 4]" "core_index 0 cores = Inr 0"
    using cores_identified [OF up] by (simp_all add: MAX_CORES_def)
  then show ?thesis using up by (intro exI conjI)
qed

subsection \<open>Panics\<close>

text \<open>
  \<^verbatim>\<open>PANIC_REPORTER_CORE\<close> (\<^verbatim>\<open>usize::MAX\<close> is no core), \<^verbatim>\<open>PANICKING\<close>, and the inter-processor interrupts
  sent by each core.
\<close>

record panic_state =
  reporter :: "nat option"
  panicking :: "bool list"
  halt_writes :: "nat \<Rightarrow> lapic_writes"

definition panic_state_new :: panic_state where
  "panic_state_new = \<lparr>reporter = None, panicking = replicate MAX_CORES False, halt_writes = (\<lambda>_. [])\<rparr>"

text \<open>Whether the call returns; a core that loses the election halts inside it.\<close>

definition claim_panic_reporter :: "nat \<Rightarrow> percpu_slot list \<Rightarrow> panic_state \<Rightarrow> bool \<times> panic_state" where
  "claim_panic_reporter this_core cores st =
    (case reporter st of
       None \<Rightarrow> (True, st\<lparr>reporter := Some this_core,
                  halt_writes := (halt_writes st)(this_core := broadcast_panic_halt this_core cores (halt_writes st this_core))\<rparr>)
     | Some winner \<Rightarrow> (winner = this_core, st))"

datatype panic_outcome = Reports | Halts

text \<open>
  The panic handler after it knows its core, and the whole handler: its first statement is
  \<^verbatim>\<open>core_index()\<close>, whose \<^verbatim>\<open>expect\<close> panics again when the core has no slot, so the handler is
  entered recursively.
\<close>

definition panic_on_core :: "nat \<Rightarrow> percpu_slot list \<Rightarrow> panic_state \<Rightarrow> panic_outcome \<times> panic_state" where
  "panic_on_core core cores st =
    (case claim_panic_reporter core cores st of
       (False, st) \<Rightarrow> (Halts, st)
     | (True, st) \<Rightarrow> (if panicking st ! core then Halts else Reports, st\<lparr>panicking := (panicking st)[core := True]\<rparr>))"


text \<open>Panics of several cores in the order in which they win or lose the election.\<close>

fun panics :: "percpu_slot list \<Rightarrow> nat list \<Rightarrow> panic_state \<Rightarrow> panic_outcome list \<times> panic_state" where
  "panics cores [] st = ([], st)"
| "panics cores (c # later) st =
    (case panic_on_core c cores st of (r, st) \<Rightarrow> (case panics cores later st of (rs, st) \<Rightarrow> (r # rs, st)))"

lemma panics_after:
  "reporter st = Some w \<Longrightarrow> panicking st ! w \<Longrightarrow> w < length (panicking st)
    \<Longrightarrow> panics cores later st = (replicate (length later) Halts, st)"
proof (induction later arbitrary: st)
  case (Cons c later)
  have "(panicking st)[w := True] = panicking st" using Cons.prems by (simp add: list_update_same_conv)
  then have "panic_on_core c cores st = (Halts, st)"
    using Cons.prems by (cases "w = c") (auto simp: panic_on_core_def claim_panic_reporter_def)
  then show ?case using Cons by simp
qed simp

text \<open>C27. However many cores panic, and however often, exactly the first panic is reported: that core
  prints, every later panic on any core halts, and the one broadcast of the halt interrupt goes from
  the reporting core to exactly the other cores that have been started, in index order.\<close>

theorem one_panic_report:
  assumes "c < MAX_CORES"
  shows "fst (panics cores (c # later) panic_state_new) = Reports # replicate (length later) Halts
    \<and> halt_writes (snd (panics cores (c # later) panic_state_new)) =
       (\<lambda>_. [])(c := concat (map (\<lambda>k. [(REG_ICR_HIGH, push_bit 24 (lapic_id (cores ! k))), (REG_ICR_LOW, ucast PANIC_HALT_VECTOR OR ICR_ASSERT)])
         (filter (\<lambda>k. k \<noteq> c \<and> is_booted k cores) [0..<MAX_CORES])))"
proof -
  have br: "fold (\<lambda>k w. if k = c then w else if \<not> is_booted k cores then w else send_ipi (lapic_id (cores ! k)) PANIC_HALT_VECTOR w) ks w
      = w @ concat (map (\<lambda>k. [(REG_ICR_HIGH, push_bit 24 (lapic_id (cores ! k))), (REG_ICR_LOW, ucast PANIC_HALT_VECTOR OR ICR_ASSERT)])
         (filter (\<lambda>k. k \<noteq> c \<and> is_booted k cores) ks))" for ks w
    by (induction ks arbitrary: w) (auto simp: send_ipi_def write_reg_def)
  let ?st = "panic_state_new\<lparr>reporter := Some c, panicking := (replicate MAX_CORES False)[c := True],
    halt_writes := (\<lambda>_. [])(c := broadcast_panic_halt c cores [])\<rparr>"
  have p: "panic_on_core c cores panic_state_new = (Reports, ?st)"
    using assms by (simp add: panic_on_core_def claim_panic_reporter_def panic_state_new_def)
  have "panics cores later ?st = (replicate (length later) Halts, ?st)"
    by (rule panics_after [of _ c]) (use assms in simp_all)
  then show ?thesis by (simp add: p broadcast_panic_halt_def br)
qed

theorem one_panic_report_witness:
  "fst (panics (replicate MAX_CORES percpu_new) [2, 1, 2] panic_state_new) = [Reports, Halts, Halts]"
  using one_panic_report [of 2 "replicate MAX_CORES percpu_new" "[1, 2]"] by (simp add: MAX_CORES_def numeral_2_eq_2)



end
