(* ===== verification/Locks.thy ===== *)
theory Locks
  imports Tarn_Prelude
begin

text \<open>
  \<^verbatim>\<open>kernel/src/sync.rs\<close>, the spinlock that keeps interrupts off while it is held, and
  \<^verbatim>\<open>kernel/src/earlycon.rs\<close>, the diagnostic console behind one such lock.  Cores and locks are numbers;
  the \<^verbatim>\<open>spin::Mutex\<close> inside is a flag, with the holder remembered for the specification only.
\<close>

subsection \<open>The lock\<close>

record lock_state =
  int_enabled :: "nat \<Rightarrow> bool"
  holder :: "nat \<Rightarrow> nat option"

text \<open>\<^verbatim>\<open>SpinLockGuard\<close>: its lock and \<^verbatim>\<open>interrupts_were_enabled\<close>.\<close>

record guard =
  g_lock :: nat
  interrupts_were_enabled :: bool

definition disable_interrupts :: "nat \<Rightarrow> lock_state \<Rightarrow> lock_state" where
  "disable_interrupts core m = m\<lparr>int_enabled := (int_enabled m)(core := False)\<rparr>"

definition enable_interrupts :: "nat \<Rightarrow> lock_state \<Rightarrow> lock_state" where
  "enable_interrupts core m = m\<lparr>int_enabled := (int_enabled m)(core := True)\<rparr>"

text \<open>\<^verbatim>\<open>spin::Mutex\<close>: trying, and releasing.\<close>

definition mutex_try :: "nat \<Rightarrow> nat \<Rightarrow> lock_state \<Rightarrow> bool \<times> lock_state" where
  "mutex_try core l m = (if holder m l = None then (True, m\<lparr>holder := (holder m)(l := Some core)\<rparr>) else (False, m))"

definition mutex_release :: "nat \<Rightarrow> lock_state \<Rightarrow> lock_state" where
  "mutex_release l m = m\<lparr>holder := (holder m)(l := None)\<rparr>"

definition try_lock :: "nat \<Rightarrow> nat \<Rightarrow> lock_state \<Rightarrow> guard option \<times> lock_state" where
  "try_lock core l m =
    (let were = int_enabled m core;
         m1 = (if were then disable_interrupts core m else m)
     in case mutex_try core l m1 of
          (True, m2) \<Rightarrow> (Some \<lparr>g_lock = l, interrupts_were_enabled = were\<rparr>, m2)
        | (False, m2) \<Rightarrow> (None, if were then enable_interrupts core m2 else m2))"

text \<open>
  \<^verbatim>\<open>lock\<close> spins in \<^verbatim>\<open>spin::Mutex::lock\<close> with interrupts off; \<^term>\<open>env\<close> is what the other cores do
  between two attempts, and \<^term>\<open>n\<close> bounds the attempts.
\<close>

fun mutex_spin :: "nat \<Rightarrow> (nat \<Rightarrow> lock_state \<Rightarrow> lock_state) \<Rightarrow> nat \<Rightarrow> nat \<Rightarrow> lock_state \<Rightarrow> lock_state option" where
  "mutex_spin 0 env core l m = None"
| "mutex_spin (Suc n) env core l m =
    (case mutex_try core l m of (True, m) \<Rightarrow> Some m | (False, m) \<Rightarrow> mutex_spin n env core l (env n m))"

definition spin_lock :: "nat \<Rightarrow> (nat \<Rightarrow> lock_state \<Rightarrow> lock_state) \<Rightarrow> nat \<Rightarrow> nat \<Rightarrow> lock_state \<Rightarrow> (guard \<times> lock_state) option" where
  "spin_lock n env core l m =
    (let were = int_enabled m core;
         m1 = (if were then disable_interrupts core m else m)
     in map_option (\<lambda>m. (\<lparr>g_lock = l, interrupts_were_enabled = were\<rparr>, m)) (mutex_spin n env core l m1))"

text \<open>\<^verbatim>\<open>Drop\<close> releases the mutex first and restores interrupts after.\<close>

definition drop_guard :: "nat \<Rightarrow> guard \<Rightarrow> lock_state \<Rightarrow> lock_state" where
  "drop_guard core g m =
    (let m1 = mutex_release (g_lock g) m
     in if interrupts_were_enabled g then enable_interrupts core m1 else m1)"

definition force_unlock :: "nat \<Rightarrow> lock_state \<Rightarrow> lock_state" where
  "force_unlock l m = mutex_release l m"

definition break_lock :: "nat \<Rightarrow> lock_state \<Rightarrow> lock_state" where
  "break_lock l m = mutex_release l m"

subsection \<open>Runs\<close>













text \<open>
  Dropping guards in another order is not safe: the outer guard's \<^verbatim>\<open>Drop\<close> turns interrupts on while
  the inner lock is still held.
\<close>

lemma drop_outer_first:
  assumes "int_enabled m core" "holder m a = None" "holder m b = None" "a \<noteq> b"
    and "try_lock core a m = (Some ga, m1)" "try_lock core b m1 = (Some gb, m2)"
  shows "int_enabled (drop_guard core ga m2) core \<and> holder (drop_guard core ga m2) b = Some core"
  using assms
  by (auto simp: try_lock_def Let_def mutex_try_def disable_interrupts_def drop_guard_def mutex_release_def enable_interrupts_def)

subsection \<open>The diagnostic console\<close>

definition COM1_TX_LOCK :: nat where "COM1_TX_LOCK = 0"
definition MAX_SPINS :: nat where "MAX_SPINS = 10000000"

text \<open>The bytes written to the transmit register.\<close>

definition write_str :: "u8 list \<Rightarrow> u8 list \<Rightarrow> u8 list" where
  "write_str bytes wire = wire @ bytes"

definition crlf :: "u8 list" where "crlf = [13, 10]"

definition early_print ::
  "nat \<Rightarrow> (nat \<Rightarrow> lock_state \<Rightarrow> lock_state) \<Rightarrow> nat \<Rightarrow> u8 list \<Rightarrow> lock_state \<times> u8 list \<Rightarrow> (lock_state \<times> u8 list) option" where
  "early_print n env core args = (\<lambda>(m, wire).
    map_option (\<lambda>(g, m). (drop_guard core g m, write_str args wire)) (spin_lock n env core COM1_TX_LOCK m))"

definition early_println ::
  "nat \<Rightarrow> (nat \<Rightarrow> lock_state \<Rightarrow> lock_state) \<Rightarrow> nat \<Rightarrow> u8 list \<Rightarrow> lock_state \<times> u8 list \<Rightarrow> (lock_state \<times> u8 list) option" where
  "early_println n env core args = (\<lambda>(m, wire).
    map_option (\<lambda>(g, m). (drop_guard core g m, write_str crlf (write_str args wire))) (spin_lock n env core COM1_TX_LOCK m))"

text \<open>The bounded wait of \<^verbatim>\<open>panic_println\<close>: one attempt, then at most \<^term>\<open>k\<close> more.\<close>

fun bounded_try :: "nat \<Rightarrow> (nat \<Rightarrow> lock_state \<Rightarrow> lock_state) \<Rightarrow> nat \<Rightarrow> nat \<Rightarrow> lock_state \<Rightarrow> guard option \<times> lock_state" where
  "bounded_try 0 env core l m = try_lock core l m"
| "bounded_try (Suc k) env core l m =
    (case try_lock core l m of (Some g, m) \<Rightarrow> (Some g, m) | (None, m) \<Rightarrow> bounded_try k env core l (env k m))"

definition panic_println ::
  "(nat \<Rightarrow> lock_state \<Rightarrow> lock_state) \<Rightarrow> nat \<Rightarrow> u8 list \<Rightarrow> lock_state \<times> u8 list \<Rightarrow> lock_state \<times> u8 list" where
  "panic_println env core args = (\<lambda>(m, wire).
    let (guard, m) = (case bounded_try MAX_SPINS env core COM1_TX_LOCK m of
                        (Some g, m) \<Rightarrow> (Some g, m)
                      | (None, m) \<Rightarrow> try_lock core COM1_TX_LOCK (break_lock COM1_TX_LOCK m));
        wire = write_str crlf (write_str args wire)
    in (case guard of None \<Rightarrow> m | Some g \<Rightarrow> drop_guard core g m, wire))"

lemma mutex_spin_stuck:
  assumes "\<And>n m. holder (env n m) l = holder m l" "holder m l = Some c"
  shows "mutex_spin n env core l m = None"
  using assms(2) by (induction n arbitrary: m) (simp_all add: mutex_try_def assms(1))

lemma held_refused: "holder m l = Some c \<Longrightarrow> try_lock core l m = (None, m)"
  by (cases m; cases "int_enabled m core")
     (auto simp: try_lock_def Let_def mutex_try_def disable_interrupts_def enable_interrupts_def fun_upd_idem)

lemma bounded_try_stuck:
  assumes "\<And>n m. holder (env n m) l = holder m l" "holder m l = Some c"
  shows "\<exists>m'. bounded_try k env core l m = (None, m') \<and> holder m' l = Some c"
  using assms(2) by (induction k arbitrary: m) (auto simp: held_refused assms(1))

text \<open>C30. A panic message always reaches the console: when the console lock has been orphaned, held by a
  core that will never release it, the ordinary print spins for ever, but the panic print writes the
  complete line and leaves the lock free.\<close>

theorem panic_reaches_console:
  assumes orphan: "holder m COM1_TX_LOCK = Some c" and env: "\<And>n m. holder (env n m) COM1_TX_LOCK = holder m COM1_TX_LOCK"
  shows "(\<forall>n. early_println n env core args (m, wire) = None)
    \<and> snd (panic_println env core args (m, wire)) = wire @ args @ [13, 10]
    \<and> holder (fst (panic_println env core args (m, wire))) COM1_TX_LOCK = None"
proof (intro conjI allI)
  fix n
  show "early_println n env core args (m, wire) = None"
    using mutex_spin_stuck [of env COM1_TX_LOCK, OF env] orphan
    by (simp add: early_println_def spin_lock_def Let_def disable_interrupts_def)
next
  obtain m' where b: "bounded_try MAX_SPINS env core COM1_TX_LOCK m = (None, m')"
    using bounded_try_stuck [where env = env, OF env orphan] by blast
  show "snd (panic_println env core args (m, wire)) = wire @ args @ [13, 10]"
    by (simp add: panic_println_def b write_str_def crlf_def split: prod.split)
  show "holder (fst (panic_println env core args (m, wire))) COM1_TX_LOCK = None"
    by (auto simp: panic_println_def b try_lock_def mutex_try_def break_lock_def mutex_release_def drop_guard_def
        disable_interrupts_def enable_interrupts_def Let_def)
qed

theorem panic_reaches_console_witness:
  "snd (panic_println (\<lambda>_ m. m) 0 [72, 105] (\<lparr>int_enabled = (\<lambda>_. False), holder = [COM1_TX_LOCK \<mapsto> 0]\<rparr>, [])) = [72, 105, 13, 10]"
  using panic_reaches_console [of "\<lparr>int_enabled = (\<lambda>_. False), holder = [COM1_TX_LOCK \<mapsto> 0]\<rparr>" 0 "\<lambda>_ m. m" 0 "[72, 105]" "[]"]
  by simp

end
