(* ===== verification/Smp.thy ===== *)
theory Smp
  imports Sched_Ops
begin

text \<open>
  The scheduler driven by ticks: what one tick does to the ready queue, why every ready process runs,
  and the interleaving of several cores at the granularity of the scheduler lock, with the kernel
  stack each core is on.  Sources: \<^verbatim>\<open>on_timer_tick\<close> of \<^verbatim>\<open>task/scheduler.rs\<close> and the entry stubs of
  \<^verbatim>\<open>arch/x86_64/context_switch.rs\<close>.
\<close>

subsection \<open>One tick\<close>

lemma preempt_keeps:
  assumes "preempt_current c f s = Inr s'"
  shows "current s' = current s" "regs s' = regs s"
  using assms by (auto simp: preempt_current_def Let_def split: option.splits if_splits table_slot.splits)

text \<open>The state after a tick on core \<^term>\<open>c\<close> that moves from \<^term>\<open>p\<close> to \<^term>\<open>n\<close>.\<close>

lemma tick_rotates:
  assumes inv: "sched_inv s" and c: "c < MAX_CORES" and p: "current s ! c = Some p" and rl: "ready_list s = n # rest"
    and ok: "frame_check s ((trap_frames s)[pid_index p := f] ! pid_index n) = None"
  shows "\<exists>s'. on_timer_tick c f s = Inr (ResumeSlot (pid_index n), s') \<and> sched_inv s'
    \<and> current s' = (current s)[c := Some n] \<and> ready_list s' = rest @ [p]
    \<and> rsp0 (regs s' ! c) = kernel_stack_top n \<and> (\<forall>d. d \<noteq> c \<longrightarrow> regs s' ! d = regs s ! d)
    \<and> trap_frames s' = (trap_frames s)[pid_index p := f] \<and> user_cs s' = user_cs s \<and> user_ss s' = user_ss s"
proof -
  obtain s1 where s1: "preempt_current c f s = Inr s1" "sched_inv_but c s1" "user_cs s1 = user_cs s" "user_ss s1 = user_ss s"
    "trap_frames s1 = (trap_frames s)[pid_index p := f]" "ready_list s1 = ready_list s @ [p]"
    using preempt_current_inv [OF inv c, of f] p by auto
  note k = preempt_keeps [OF s1(1)]
  note sh = sched_inv_but_shape [OF s1(2)]
  obtain v q where pop: "ring_pop (ready s1) = (v, q)" by fastforce
  have v: "v = Some n" "ring_list q = rest @ [p]"
    using pop s1(6) rl pop_ready_None [OF sh] pop_ready_list [OF sh] by (cases v; auto)+
  have fc: "frame_check s1 (trap_frames s1 ! pid_index n) = None"
    using ok s1(5) frame_check_cong [OF s1(3,4)] by simp
  obtain b proc where sw: "processes s1 ! pid_index n = Occupied b proc" "occupied s1 n = Some proc"
    "switch_to c n (s1\<lparr>ready := q\<rparr>) = Inr (pid_index n, dispatched c n b proc (s1\<lparr>ready := q\<rparr>))"
    using switch_to_popped [OF s1(2) c, of n q] pop v(1) fc by auto
  let ?s' = "dispatched c n b proc (s1\<lparr>ready := q\<rparr>)"
  have "on_timer_tick c f s = Inr (ResumeSlot (pid_index n), ?s')"
    using s1(1) pop v(1) sw(3) by (simp add: on_timer_tick_def)
  moreover have "sched_inv ?s'" using dispatched_inv [OF s1(2) c _ sw(1,2)] pop v(1) by simp
  moreover have "c < length (regs s1)" using sh c by (simp add: shape_def)
  ultimately show ?thesis
    using k s1(3-5) v(2) by (intro exI [of _ ?s']) (simp add: dispatched_def Let_def)
qed

text \<open>
  C23. One tick is one round-robin step: on a core that runs \<^term>\<open>p\<close> while \<^term>\<open>n\<close> is first in the ready
  queue, the timer saves the interrupted registers as \<^term>\<open>p\<close>'s frame, puts \<^term>\<open>p\<close> at the end of the
  queue, and resumes \<^term>\<open>n\<close> on its own kernel stack; no other core's process or stack changes.
\<close>

theorem tick_round_robin:
  assumes "sched_inv s" "c < MAX_CORES" "current s ! c = Some p" "ready_list s = n # rest"
    "frame_check s ((trap_frames s)[pid_index p := f] ! pid_index n) = None"
  shows "\<exists>s'. on_timer_tick c f s = Inr (ResumeSlot (pid_index n), s') \<and> sched_inv s'
    \<and> current s' = (current s)[c := Some n] \<and> ready_list s' = rest @ [p]
    \<and> trap_frames s' = (trap_frames s)[pid_index p := f]
    \<and> rsp0 (regs s' ! c) = kernel_stack_top n \<and> (\<forall>d. d \<noteq> c \<longrightarrow> regs s' ! d = regs s ! d)"
  using tick_rotates [OF assms] by blast

text \<open>
  Three processes on two cores: the first two running on cores 0 and 1, the third ready.
\<close>

definition sample_process :: "nat \<Rightarrow> process_state \<Rightarrow> process" where
  "sample_process i st = \<lparr>pid = pid_new i 1, pml4 = 0x1000, cap_table = captable_new, pstate = st, parent = None,
     wait_waiter = None, pending_wake = None, heap_end = USER_HEAP_START\<rparr>"

definition user_frame :: trap_frame where "user_frame = zero_frame\<lparr>cs := 0x23, ss := 0x1B\<rparr>"

definition two_core_base :: "flat_table kernel" where
  "two_core_base = (kernel_init 2 0x23 0x1B 0x1000 (flat_mem 8))\<lparr>generations := replicate MAX_PROCESSES 1,
     trap_frames := replicate MAX_PROCESSES user_frame,
     regs := (replicate MAX_CORES \<lparr>cr3 = 0x1000, rsp0 = 0, syscall_stack = 0\<rparr>)
       [0 := \<lparr>cr3 = 0x1000, rsp0 = kernel_stack_top (pid_new 0 1), syscall_stack = kernel_stack_top (pid_new 0 1)\<rparr>]\<rparr>"

definition two_core_procs :: "flat_table kernel" where
  "two_core_procs =
    put_slot 2 (Occupied 2 (sample_process 2 Ready))
      (put_slot 1 (Occupied 1 (sample_process 1 Running))
        (put_slot 0 (Occupied 0 (sample_process 0 Running))
          (set_current 1 (Some (pid_new 1 1)) (set_current 0 (Some (pid_new 0 1)) two_core_base))))"

definition two_cores :: "flat_table kernel" where
  "two_cores = push_ready (pid_new 2 1) two_core_procs"

lemma two_core_shape: "shape two_core_procs"
proof -
  have "shape two_core_base"
    by (auto simp: shape_def table_ok_def two_core_base_def kernel_init_def ready_new opt_raw_def percpu_new_def)
  then show ?thesis unfolding two_core_procs_def by (intro shape_put_slot shape_set_current)
qed

lemma two_core_fields:
  "ready_list two_cores = [pid_new 2 1]"
  "current two_cores = (replicate MAX_CORES None)[0 := Some (pid_new 0 1), 1 := Some (pid_new 1 1)]"
  "occupied two_cores = [pid_new 0 1 \<mapsto> sample_process 0 Running, pid_new 1 1 \<mapsto> sample_process 1 Running,
     pid_new 2 1 \<mapsto> sample_process 2 Ready]"
proof -
  have M: "0 < MAX_PROCESSES" "1 < MAX_PROCESSES" "2 < MAX_PROCESSES" by (simp_all add: MAX_PROCESSES_def)
  have "ready_list two_core_procs = []" by (simp add: two_core_procs_def two_core_base_def kernel_init_def)
  then show "ready_list two_cores = [pid_new 2 1]"
    using push_ready_list [OF two_core_shape, of "pid_new 2 1"] by (simp add: two_cores_def MAX_PROCESSES_def)
  show "current two_cores = (replicate MAX_CORES None)[0 := Some (pid_new 0 1), 1 := Some (pid_new 1 1)]"
    by (simp add: two_cores_def two_core_procs_def two_core_base_def kernel_init_def)
  have t: "table_ok (set_current c x t) = table_ok t" "table_ok (put_slot i sl t) = table_ok t" for c x i sl and t :: "flat_table kernel"
    by (simp_all add: table_ok_def)
  have base: "table_ok two_core_base" "generations two_core_base = replicate MAX_PROCESSES 1" "occupied two_core_base = (\<lambda>_. None)"
    by (auto simp: two_core_base_def kernel_init_def table_ok_def occupied_def Let_def)
  have "occupied two_cores = occupied two_core_procs" by (rule occupied_cong) (simp_all add: two_cores_def)
  also have "\<dots> = [pid_new 0 1 \<mapsto> sample_process 0 Running, pid_new 1 1 \<mapsto> sample_process 1 Running,
     pid_new 2 1 \<mapsto> sample_process 2 Ready]"
    using M base by (simp add: two_core_procs_def occupied_put_slot t)
  finally show "occupied two_cores = [pid_new 0 1 \<mapsto> sample_process 0 Running, pid_new 1 1 \<mapsto> sample_process 1 Running,
     pid_new 2 1 \<mapsto> sample_process 2 Ready]" .
qed

lemma two_cores_inv: "sched_inv two_cores"
proof -
  have ne: "pid_new 0 1 \<noteq> pid_new 1 1" "pid_new 0 1 \<noteq> pid_new 2 1" "pid_new 1 1 \<noteq> pid_new 2 1"
    by (simp_all add: pid_new_def)
  have "shape two_cores" unfolding two_cores_def by (rule shape_push_ready [OF two_core_shape])
  moreover have "view_inv (occupied two_cores) (ready_list two_cores) (current two_cores)"
  proof -
    have len: "length (current two_cores) = MAX_CORES" by (simp add: two_core_fields)
    have cur: "current two_cores ! c = (if c = 0 then Some (pid_new 0 1) else if c = 1 then Some (pid_new 1 1) else None)"
      if "c < MAX_CORES" for c
      using that by (auto simp: two_core_fields(2) nth_list_update)
    show ?thesis
      unfolding view_inv_def len two_core_fields(1,3)
      using ne by (auto simp: sample_process_def cur split: if_splits)
  qed
  ultimately show ?thesis by (simp add: sched_inv_def)
qed

lemma two_cores_current: "current two_cores ! 0 = Some (pid_new 0 1)" "current two_cores ! 1 = Some (pid_new 1 1)"
  by (simp_all add: two_core_fields MAX_CORES_def)

lemma two_cores_frames: "frame_check two_cores user_frame = None" "trap_frames two_cores = replicate MAX_PROCESSES user_frame"
  "rsp0 (regs two_cores ! 0) = kernel_stack_top (pid_new 0 1)"
  by (simp_all add: two_cores_def two_core_procs_def two_core_base_def kernel_init_def frame_check_def user_frame_def
      zero_frame_def USER_LIMIT_def MAX_CORES_def)

theorem tick_round_robin_witness:
  "\<exists>s'. on_timer_tick 0 user_frame two_cores = Inr (ResumeSlot 2, s') \<and> ready_list s' = [pid_new 0 1]
     \<and> current s' ! 0 = Some (pid_new 2 1)"
proof -
  have i: "pid_index (pid_new 2 1) = 2" "pid_index (pid_new 0 1) = 0" "(0 :: nat) < MAX_CORES"
    by (simp_all add: MAX_PROCESSES_def MAX_CORES_def)
  have "(replicate MAX_PROCESSES user_frame)[0 := user_frame] ! 2 = user_frame" by (simp add: MAX_PROCESSES_def)
  then show ?thesis
    using tick_round_robin [OF two_cores_inv i(3) two_cores_current(1) two_core_fields(1), of user_frame] two_cores_frames i
      two_core_fields(2) by auto
qed

subsection \<open>Every ready process runs\<close>


text \<open>Frames that can be resumed.\<close>

definition frames_ok :: "'pt kernel \<Rightarrow> bool" where
  "frames_ok s \<longleftrightarrow> list_all (\<lambda>f. frame_check s f = None) (trap_frames s)"

lemma frames_ok_update:
  assumes "frames_ok s" "frame_check s f = None" "trap_frames s' = (trap_frames s)[i := f]"
    "user_cs s' = user_cs s" "user_ss s' = user_ss s"
  shows "frames_ok s'"
  using assms(1-3) set_update_subset_insert [of "trap_frames s" i f] frame_check_cong [OF assms(4,5)]
  by (auto simp: frames_ok_def list_all_iff)

lemma frame_check_nth: "frames_ok s \<Longrightarrow> i < length (trap_frames s) \<Longrightarrow> frame_check s (trap_frames s ! i) = None"
  by (simp add: frames_ok_def list_all_length)

lemma sched_inv_ready_index: "sched_inv s \<Longrightarrow> n \<in> set (ready_list s) \<Longrightarrow> pid_index n < MAX_PROCESSES"
  using view_ready [of "occupied s" "ready_list s" "current s" n] occupied_SomeD(1) [of s n]
  by (auto simp: sched_inv_def)

lemma tick_next:
  assumes inv: "sched_inv s" and c: "c < MAX_CORES" and p: "current s ! c = Some p" and ok: "frames_ok s"
    and rl: "ready_list s = n # rest" and f: "frame_check s f = None"
  shows "\<exists>s'. on_timer_tick c f s = Inr (ResumeSlot (pid_index n), s') \<and> sched_inv s' \<and> current s' ! c = Some n
    \<and> ready_list s' = rest @ [p] \<and> frames_ok s' \<and> frame_check s' = frame_check s
    \<and> current s' = (current s)[c := Some n] \<and> rsp0 (regs s' ! c) = kernel_stack_top n"
proof -
  have len: "c < length (current s)" "length (trap_frames s) = MAX_PROCESSES" using inv c by (auto simp: sched_inv_def shape_def)
  have "pid_index n < length (trap_frames s)" using sched_inv_ready_index [OF inv, of n] rl len by simp
  then have "frame_check s ((trap_frames s)[pid_index p := f] ! pid_index n) = None"
    using frame_check_nth [OF ok] f by (cases "pid_index p = pid_index n") simp_all
  then obtain s' where s': "on_timer_tick c f s = Inr (ResumeSlot (pid_index n), s')" "sched_inv s'"
    "current s' = (current s)[c := Some n]" "ready_list s' = rest @ [p]"
    "trap_frames s' = (trap_frames s)[pid_index p := f]" "user_cs s' = user_cs s" "user_ss s' = user_ss s"
    "rsp0 (regs s' ! c) = kernel_stack_top n"
    using tick_rotates [OF inv c p rl] by blast
  moreover have "frames_ok s'" by (rule frames_ok_update [OF ok f s'(5-7)])
  moreover have "frame_check s' = frame_check s" using frame_check_cong [OF s'(6,7)] by blast
  ultimately show ?thesis using len(1) by auto
qed


lemma two_cores_frames_ok: "frames_ok two_cores"
  using two_cores_frames(1) by (simp add: frames_ok_def two_cores_frames(2) list_all_iff)


subsection \<open>Kernel stacks\<close>

text \<open>
  Where a core is: in user mode, in the kernel on the stack with a given top before the scheduler lock
  is taken, or still on that stack after the locked part of \<^verbatim>\<open>on_timer_tick\<close>, which is where it
  prints, runs the ready kernel tasks, acknowledges the interrupt and only then loads the next frame.
\<close>

datatype phase = InUser | InKernel u64 trap_frame | Leaving u64 resume

record 'pt smp =
  kern :: "'pt kernel"
  phases :: "nat \<Rightarrow> phase"

inductive smp_step :: "'pt smp \<Rightarrow> 'pt smp \<Rightarrow> bool" where
  enter: "c < MAX_CORES \<Longrightarrow> phases m c = InUser \<Longrightarrow> current (kern m) ! c \<noteq> None
    \<Longrightarrow> smp_step m (m\<lparr>phases := (phases m)(c := InKernel (rsp0 (regs (kern m) ! c)) f)\<rparr>)"
| locked: "c < MAX_CORES \<Longrightarrow> phases m c = InKernel stk f \<Longrightarrow> on_timer_tick c f (kern m) = Inr (r, k)
    \<Longrightarrow> smp_step m (m\<lparr>kern := k, phases := (phases m)(c := Leaving stk r)\<rparr>)"
| leave: "c < MAX_CORES \<Longrightarrow> phases m c = Leaving stk r \<Longrightarrow> smp_step m (m\<lparr>phases := (phases m)(c := InUser)\<rparr>)"

fun stack_of :: "phase \<Rightarrow> u64 option" where
  "stack_of InUser = None"
| "stack_of (InKernel stk f) = Some stk"
| "stack_of (Leaving stk r) = Some stk"

lemma tick_path:
  assumes "c < MAX_CORES" "phases m c = InUser" "current (kern m) ! c \<noteq> None" "on_timer_tick c f (kern m) = Inr (r, k)"
  shows "smp_step\<^sup>*\<^sup>* m (m\<lparr>kern := k, phases := (phases m)(c := Leaving (rsp0 (regs (kern m) ! c)) r)\<rparr>)"
proof -
  let ?m1 = "m\<lparr>phases := (phases m)(c := InKernel (rsp0 (regs (kern m) ! c)) f)\<rparr>"
  have "smp_step m ?m1" using assms(1-3) by (rule smp_step.enter)
  moreover have "smp_step ?m1 (?m1\<lparr>kern := k, phases := (phases ?m1)(c := Leaving (rsp0 (regs (kern m) ! c)) r)\<rparr>)"
    by (rule smp_step.locked [where f = f]) (use assms in simp_all)
  ultimately show ?thesis by (simp add: converse_rtranclp_into_rtranclp r_into_rtranclp)
qed

text \<open>
  C13. Two cores can execute on one kernel stack.  A core that preempts \<^term>\<open>p\<close> puts it back into the ready
  queue and releases the scheduler lock while it is still on \<^term>\<open>p\<close>'s kernel stack; a second core can
  then dispatch \<^term>\<open>p\<close>, let it run, and enter the kernel from it at the top of the same stack before the
  first core has left.
\<close>

theorem kernel_stack_shared:
  assumes inv: "sched_inv s" and cd: "c < MAX_CORES" "d < MAX_CORES" "c \<noteq> d"
    and cur: "current s ! c = Some p" "current s ! d = Some q" and rl: "ready_list s = [r]"
    and ok: "frames_ok s" "frame_check s f = None" and stk: "rsp0 (regs s ! c) = kernel_stack_top p"
  shows "\<exists>m. smp_step\<^sup>*\<^sup>* \<lparr>kern = s, phases = (\<lambda>_. InUser)\<rparr> m
    \<and> stack_of (phases m c) = Some (kernel_stack_top p) \<and> stack_of (phases m d) = Some (kernel_stack_top p)"
proof -
  let ?m0 = "\<lparr>kern = s, phases = (\<lambda>_. InUser)\<rparr>"
  have len: "length (current s) = MAX_CORES" using inv by (auto simp: sched_inv_def shape_def)
  obtain s1 where s1: "on_timer_tick c f s = Inr (ResumeSlot (pid_index r), s1)" "sched_inv s1"
    "ready_list s1 = [p]" "frames_ok s1" "frame_check s1 = frame_check s" "current s1 = (current s)[c := Some r]"
    using tick_next [OF inv cd(1) cur(1) ok(1) rl ok(2)] by auto
  let ?m1 = "?m0\<lparr>kern := s1, phases := (phases ?m0)(c := Leaving (kernel_stack_top p) (ResumeSlot (pid_index r)))\<rparr>"
  have p1: "smp_step\<^sup>*\<^sup>* ?m0 ?m1" using tick_path [of c ?m0 f] cd(1) cur(1) s1(1) stk by simp
  have d1: "current s1 ! d = Some q" using s1(6) cd(3) cur(2) by simp
  obtain s2 where s2: "on_timer_tick d f s1 = Inr (ResumeSlot (pid_index p), s2)"
    "current s2 = (current s1)[d := Some p]" "rsp0 (regs s2 ! d) = kernel_stack_top p"
    using tick_next [OF s1(2) cd(2) d1 s1(4,3), of f] ok(2) s1(5) by auto
  let ?m2 = "?m1\<lparr>kern := s2, phases := (phases ?m1)(d := Leaving (rsp0 (regs s1 ! d)) (ResumeSlot (pid_index p)))\<rparr>"
  have p2: "smp_step\<^sup>*\<^sup>* ?m1 ?m2" using tick_path [of d ?m1 f] cd(2,3) d1 s2(1) by simp
  let ?m3 = "?m2\<lparr>phases := (phases ?m2)(d := InUser)\<rparr>"
  have p3: "smp_step ?m2 ?m3" by (rule smp_step.leave [OF cd(2)]) simp
  let ?m4 = "?m3\<lparr>phases := (phases ?m3)(d := InKernel (rsp0 (regs (kern ?m3) ! d)) f)\<rparr>"
  have p4: "smp_step ?m3 ?m4"
    by (rule smp_step.enter [OF cd(2)]) (use s2(2) s1(6) len cd(2) in simp_all)
  have "smp_step\<^sup>*\<^sup>* ?m0 ?m4" using p1 p2 p3 p4 by (meson rtranclp.rtrancl_into_rtrancl rtranclp_trans)
  moreover have "stack_of (phases ?m4 c) = Some (kernel_stack_top p)" using cd(3) by simp
  moreover have "stack_of (phases ?m4 d) = Some (kernel_stack_top p)" using s2(3) by simp
  ultimately show ?thesis by blast
qed

theorem kernel_stack_shared_witness:
  "\<exists>m. smp_step\<^sup>*\<^sup>* \<lparr>kern = two_cores, phases = (\<lambda>_. InUser)\<rparr> m
     \<and> stack_of (phases m 0) = Some (kernel_stack_top (pid_new 0 1)) \<and> stack_of (phases m 1) = Some (kernel_stack_top (pid_new 0 1))"
proof -
  have "(0 :: nat) < MAX_CORES" "(1 :: nat) < MAX_CORES" by (simp_all add: MAX_CORES_def)
  then show ?thesis
    using kernel_stack_shared [OF two_cores_inv _ _ _ two_cores_current two_core_fields(1) two_cores_frames_ok two_cores_frames(1,3)]
    by simp
qed

end
