(* ===== verification/Executor.thy ===== *)
theory Executor
  imports Entry "HOL-Library.AList"
begin

text \<open>
  \<^verbatim>\<open>kernel/src/task/executor.rs\<close>: the cooperative executor of kernel tasks.  A task is the state of
  its future; polling it is a parameter \<^term>\<open>poll\<close>, since the executor knows a future only through
  \<^verbatim>\<open>Future::poll\<close>.  The ready queue and the overflow flag are fields of the kernel state (theory
  \<^verbatim>\<open>Kstate\<close>), \<^verbatim>\<open>TaskWaker::wake_task\<close> is \<^term>\<open>wake_task\<close> (theory \<^verbatim>\<open>Ipc\<close>).  The map of cached
  wakers holds for every task the waker of its own number and is left out.  A drain polls until the
  queue is empty, which need not happen: it takes fuel, and \<^term>\<open>None\<close> is running out of it.
  The results list the tasks polled, in order.
\<close>

subsection \<open>The operations\<close>

text \<open>
  The machine as the tasks see it: the kernel, the device of the console and its error counter, and
  the masks of the two interrupt controllers.
\<close>

record ('pt, 'd) world =
  kern :: "'pt kernel"
  uart :: 'd
  lsr_errors :: u64
  pic_masks :: "u8 \<times> u8"

definition on_kernel :: "('pt kernel \<Rightarrow> 'pt kernel) \<Rightarrow> ('pt, 'd) world \<Rightarrow> ('pt, 'd) world" where
  "on_kernel f w = w\<lparr>kern := f (kern w)\<rparr>"

record 'f executor =
  next_task_id :: nat
  ex_tasks :: "(nat \<times> 'f) list"

definition executor_new :: "'f executor" where
  "executor_new = \<lparr>next_task_id = 0, ex_tasks = []\<rparr>"

text \<open>\<^verbatim>\<open>Task::new\<close> takes the next number; \<^verbatim>\<open>spawn\<close> ignores whether the queue accepted it.\<close>

definition task_new :: "'f executor \<Rightarrow> nat \<times> 'f executor" where
  "task_new x = (next_task_id x, x\<lparr>next_task_id := next_task_id x + 1\<rparr>)"

definition executor_spawn ::
  "nat \<Rightarrow> 'f \<Rightarrow> 'f executor \<Rightarrow> ('pt, 'd) world \<Rightarrow> 'f executor \<times> ('pt, 'd) world" where
  "executor_spawn t f x w =
    (x\<lparr>ex_tasks := AList.update t f (ex_tasks x)\<rparr>,
     on_kernel (\<lambda>s. s\<lparr>task_ready := snd (ring_push t (task_ready s))\<rparr>) w)"

type_synonym ('f, 'pt, 'd) poll = "nat \<Rightarrow> 'f \<Rightarrow> ('pt, 'd) world \<Rightarrow> (bool \<times> 'f \<times> ('pt, 'd) world) run"

type_synonym ('f, 'pt, 'd) ran = "(nat list \<times> 'f executor \<times> ('pt, 'd) world) run"

definition poll_task :: "('f, 'pt, 'd) poll \<Rightarrow> nat \<Rightarrow> 'f executor \<Rightarrow> ('pt, 'd) world \<Rightarrow> ('f, 'pt, 'd) ran" where
  "poll_task poll t x w =
    (case map_of (ex_tasks x) t of
       None \<Rightarrow> Some (Inr ([], x, w))
     | Some f \<Rightarrow>
         run_bind (poll t f w) (\<lambda>(is_ready, f, w).
           Some (Inr ([t],
             x\<lparr>ex_tasks := if is_ready then AList.delete t (ex_tasks x) else AList.update t f (ex_tasks x)\<rparr>, w))))"

fun poll_each :: "('f, 'pt, 'd) poll \<Rightarrow> nat list \<Rightarrow> 'f executor \<Rightarrow> ('pt, 'd) world \<Rightarrow> ('f, 'pt, 'd) ran" where
  "poll_each poll [] x w = Some (Inr ([], x, w))"
| "poll_each poll (t # ts) x w =
    run_bind (poll_task poll t x w) (\<lambda>(polled, x, w).
      run_bind (poll_each poll ts x w) (\<lambda>(rest, x, w). Some (Inr (polled @ rest, x, w))))"

fun drain :: "nat \<Rightarrow> ('f, 'pt, 'd) poll \<Rightarrow> 'f executor \<Rightarrow> ('pt, 'd) world \<Rightarrow> ('f, 'pt, 'd) ran" where
  "drain 0 poll x w = None"
| "drain (Suc n) poll x w =
    (case ring_pop (task_ready (kern w)) of
       (None, q) \<Rightarrow> Some (Inr ([], x, on_kernel (\<lambda>s. s\<lparr>task_ready := q\<rparr>) w))
     | (Some t, q) \<Rightarrow>
         run_bind (poll_task poll t x (on_kernel (\<lambda>s. s\<lparr>task_ready := q\<rparr>) w)) (\<lambda>(polled, x, w).
           run_bind (drain n poll x w) (\<lambda>(rest, x, w). Some (Inr (polled @ rest, x, w)))))"

definition run_ready_tasks ::
  "nat \<Rightarrow> ('f, 'pt, 'd) poll \<Rightarrow> 'f executor \<Rightarrow> ('pt, 'd) world \<Rightarrow> ('f, 'pt, 'd) ran" where
  "run_ready_tasks n poll x w =
    (if overflowed (kern w)
     then poll_each poll (sort (map fst (ex_tasks x))) x (on_kernel (\<lambda>s. s\<lparr>overflowed := False\<rparr>) w)
     else drain n poll x w)"

subsection \<open>Tasks waiting to be polled\<close>

definition task_queue :: "('pt, 'd) world \<Rightarrow> nat list" where
  "task_queue w = ring_list (task_ready (kern w))"

definition queue_ok :: "('pt, 'd) world \<Rightarrow> bool" where
  "queue_ok w \<longleftrightarrow> ring_ok READY_QUEUE_CAPACITY (task_ready (kern w))"

text \<open>A task the executor will poll on its next run.\<close>

definition due :: "nat \<Rightarrow> ('pt, 'd) world \<Rightarrow> bool" where
  "due t w \<longleftrightarrow> overflowed (kern w) \<or> t \<in> set (task_queue w)"

lemma on_kernel_simps [simp]:
  "kern (on_kernel f w) = f (kern w)" "uart (on_kernel f w) = uart w" "lsr_errors (on_kernel f w) = lsr_errors w"
  "pic_masks (on_kernel f w) = pic_masks w"
  by (simp_all add: on_kernel_def)

text \<open>Waking a task makes it due and leaves due whoever was; nothing is ever removed from the queue.\<close>

lemma wake_task_queue:
  assumes "queue_ok w"
  shows "queue_ok (on_kernel (wake_task t) w)" "due t (on_kernel (wake_task t) w)"
    "due u w \<Longrightarrow> due u (on_kernel (wake_task t) w)"
    "set (task_queue w) \<subseteq> set (task_queue (on_kernel (wake_task t) w))"
proof -
  obtain b q where p: "ring_push t (task_ready (kern w)) = (b, q)" by fastforce
  note law = ring.push_law [OF assms [unfolded queue_ok_def] p]
  show "queue_ok (on_kernel (wake_task t) w)" "due t (on_kernel (wake_task t) w)"
    "due u w \<Longrightarrow> due u (on_kernel (wake_task t) w)"
    "set (task_queue w) \<subseteq> set (task_queue (on_kernel (wake_task t) w))"
    using law by (cases b; auto simp: queue_ok_def due_def task_queue_def wake_task_def p)+
qed

text \<open>Any number of wake-ups, in any order.\<close>

definition wake_all :: "nat list \<Rightarrow> ('pt, 'd) world \<Rightarrow> ('pt, 'd) world" where
  "wake_all ts w = fold (\<lambda>t. on_kernel (wake_task t)) ts w"

lemma wake_all_queue:
  "queue_ok w \<Longrightarrow> queue_ok (wake_all ts w) \<and> set (task_queue w) \<subseteq> set (task_queue (wake_all ts w))"
proof (induction ts arbitrary: w)
  case (Cons u ts)
  have "wake_all (u # ts) w = wake_all ts (on_kernel (wake_task u) w)" by (simp add: wake_all_def)
  then show ?case using Cons.IH [OF wake_task_queue(1) [OF Cons.prems]] wake_task_queue(4) [OF Cons.prems, of u] by auto
qed (simp add: wake_all_def)

lemma wake_all_due:
  "queue_ok w \<Longrightarrow> t \<in> set ts \<or> due t w \<Longrightarrow> due t (wake_all ts w)"
proof (induction ts arbitrary: w)
  case (Cons u ts)
  have "wake_all (u # ts) w = wake_all ts (on_kernel (wake_task u) w)" by (simp add: wake_all_def)
  moreover have "t \<in> set ts \<or> due t (on_kernel (wake_task u) w)"
    using Cons.prems wake_task_queue(2) [OF Cons.prems(1), of u] wake_task_queue(3) [OF Cons.prems(1), of t u] by auto
  ultimately show ?case using Cons.IH [OF wake_task_queue(1) [OF Cons.prems(1)]] by simp
qed (simp add: wake_all_def)

subsection \<open>What the executor relies on, and what it gives\<close>

definition live :: "'f executor \<Rightarrow> nat set" where
  "live x = dom (map_of (ex_tasks x))"

lemma poll_task_live:
  assumes "poll_task poll t x w = Some (Inr (polled, x', w'))"
  shows "live x \<subseteq> set polled \<union> live x'" "t \<in> live x \<Longrightarrow> t \<in> set polled"
  using assms
  by (auto simp: poll_task_def live_def run_bind_Inr_iff dom_def AList.update_conv' AList.delete_conv'
      split: option.splits if_splits)

text \<open>
  The contract of a future: whatever it does, it enqueues tasks through their wakers, so whoever is
  in the ready queue stays there.
\<close>

locale kernel_futures =
  fixes poll :: "('f, 'pt, 'd) poll"
  assumes poll_enqueues: "queue_ok w \<Longrightarrow> poll t f w = Some (Inr (b, f', w')) \<Longrightarrow>
    queue_ok w' \<and> set (task_queue w) \<subseteq> set (task_queue w')"
begin

lemma poll_task_keeps:
  "queue_ok w \<Longrightarrow> poll_task poll t x w = Some (Inr (polled, x', w')) \<Longrightarrow>
    queue_ok w' \<and> set (task_queue w) \<subseteq> set (task_queue w')"
  using poll_enqueues [of w] by (fastforce simp: poll_task_def run_bind_Inr_iff split: option.splits)

lemma poll_each_polls:
  "queue_ok w \<Longrightarrow> poll_each poll ts x w = Some (Inr (polled, x', w')) \<Longrightarrow>
    queue_ok w' \<and> set ts \<inter> live x \<subseteq> set polled"
proof (induction ts arbitrary: x w polled x' w')
  case (Cons t ts)
  obtain p x1 w1 rest where one: "poll_task poll t x w = Some (Inr (p, x1, w1))"
    and more: "poll_each poll ts x1 w1 = Some (Inr (rest, x', w'))" and polled: "polled = p @ rest"
    using Cons.prems(2) by (auto simp: run_bind_Inr_iff)
  have "queue_ok w1" using poll_task_keeps [OF Cons.prems(1) one] by simp
  then show ?case using Cons.IH [OF _ more] poll_task_live [OF one] polled by auto
qed simp

lemma drain_polls:
  "queue_ok w \<Longrightarrow> drain n poll x w = Some (Inr (polled, x', w')) \<Longrightarrow>
    queue_ok w' \<and> task_queue w' = [] \<and> set (task_queue w) \<inter> live x \<subseteq> set polled"
proof (induction n arbitrary: x w polled)
  case (Suc n)
  obtain v q where pop: "ring_pop (task_ready (kern w)) = (v, q)" by fastforce
  let ?w = "on_kernel (\<lambda>s. s\<lparr>task_ready := q\<rparr>) w"
  note law = ring.pop_law [OF Suc.prems(1) [unfolded queue_ok_def] pop]
  have ok: "queue_ok ?w" and tl: "task_queue ?w = tl (task_queue w)"
    using law by (simp_all add: queue_ok_def task_queue_def)
  show ?case
  proof (cases v)
    case None
    then show ?thesis using law Suc.prems(2) ok tl pop by (auto simp: task_queue_def split: list.splits)
  next
    case (Some t)
    then have hd: "task_queue w = t # task_queue ?w"
      using law tl by (auto simp: task_queue_def split: list.splits)
    obtain p x1 w1 rest where one: "poll_task poll t x ?w = Some (Inr (p, x1, w1))"
      and more: "drain n poll x1 w1 = Some (Inr (rest, x', w'))" and polled: "polled = p @ rest"
      using Suc.prems(2) pop Some by (auto simp: run_bind_Inr_iff)
    note keep = poll_task_keeps [OF ok one]
    show ?thesis using Suc.IH [OF _ more] keep poll_task_live [OF one] hd polled by auto
  qed
qed simp

lemma run_polls_due:
  assumes "queue_ok w" "run_ready_tasks n poll x w = Some (Inr (polled, x', w'))" "t \<in> live x" "due t w"
  shows "t \<in> set polled"
proof (cases "overflowed (kern w)")
  case True
  then have each: "poll_each poll (sort (map fst (ex_tasks x))) x (on_kernel (\<lambda>s. s\<lparr>overflowed := False\<rparr>) w)
      = Some (Inr (polled, x', w'))" using assms(2) by (simp add: run_ready_tasks_def)
  have "t \<in> set (map fst (ex_tasks x))" using assms(3) by (auto simp: live_def dom_map_of_conv_image_fst)
  then show ?thesis
    using poll_each_polls [OF _ each] assms(1,3) by (auto simp: queue_ok_def)
next
  case False
  then show ?thesis using assms drain_polls [OF assms(1), of n x polled x' w'] by (auto simp: run_ready_tasks_def due_def)
qed

end

text \<open>
  A run over futures that return and wake nobody ends, a drain after one poll per queued number.
  \<^term>\<open>Q\<close> is what the futures need of the device, and keep.
\<close>

definition quiet :: "('d \<Rightarrow> bool) \<Rightarrow> ('f, 'pt, 'd) poll \<Rightarrow> bool" where
  "quiet Q poll \<longleftrightarrow> (\<forall>t f w. Q (uart w) \<longrightarrow> (\<exists>b f' w'. poll t f w = Some (Inr (b, f', w'))
    \<and> Q (uart w') \<and> task_ready (kern w') = task_ready (kern w)))"

lemma quiet_poll_task:
  assumes "quiet Q poll" "Q (uart w)"
  shows "\<exists>p x' w'. poll_task poll t x w = Some (Inr (p, x', w')) \<and> Q (uart w') \<and> task_ready (kern w') = task_ready (kern w)"
proof (cases "map_of (ex_tasks x) t")
  case (Some f)
  obtain b f' w' where "poll t f w = Some (Inr (b, f', w'))" "Q (uart w')" "task_ready (kern w') = task_ready (kern w)"
    using assms unfolding quiet_def by blast
  then show ?thesis using Some by (simp add: poll_task_def)
qed (use assms in \<open>simp add: poll_task_def\<close>)

lemma poll_each_ends: "quiet Q poll \<Longrightarrow> Q (uart w) \<Longrightarrow> \<exists>r. poll_each poll ts x w = Some (Inr r)"
proof (induction ts arbitrary: x w)
  case (Cons t ts)
  obtain p x1 w1 where one: "poll_task poll t x w = Some (Inr (p, x1, w1))" and q: "Q (uart w1)"
    using quiet_poll_task [OF Cons.prems, of t x] by auto
  show ?case using Cons.IH [OF Cons.prems(1) q, of x1] one by auto
qed simp

lemma drain_ends:
  assumes quiet: "quiet Q poll"
  shows "Q (uart w) \<Longrightarrow> queue_ok w \<Longrightarrow> length (task_queue w) < n \<Longrightarrow> \<exists>r. drain n poll x w = Some (Inr r)"
proof (induction n arbitrary: x w)
  case (Suc n)
  obtain v q where pop: "ring_pop (task_ready (kern w)) = (v, q)" by fastforce
  let ?w = "on_kernel (\<lambda>s. s\<lparr>task_ready := q\<rparr>) w"
  note law = ring.pop_law [OF Suc.prems(2) [unfolded queue_ok_def] pop]
  show ?case
  proof (cases v)
    case (Some t)
    obtain p x1 w1 where one: "poll_task poll t x ?w = Some (Inr (p, x1, w1))"
      and same: "task_ready (kern w1) = q" and q: "Q (uart w1)"
      using quiet_poll_task [OF quiet, of ?w t x] Suc.prems(1) by auto
    have "\<exists>r. drain n poll x1 w1 = Some (Inr r)"
    proof (rule Suc.IH [OF q])
      show "queue_ok w1" using law same by (simp add: queue_ok_def)
      show "length (task_queue w1) < n"
        using law Suc.prems(3) same Some by (auto simp: task_queue_def simp del: length_ring_list split: list.splits)
    qed
    then show ?thesis using pop Some one by auto
  qed (use pop in auto)
qed simp

lemma quiet_run_ends:
  assumes "quiet Q poll" "Q (uart w)" "queue_ok w"
  shows "\<exists>r. run_ready_tasks (Suc READY_QUEUE_CAPACITY) poll x w = Some (Inr r)"
proof -
  have "length (task_queue w) \<le> READY_QUEUE_CAPACITY"
    using ring.bounded assms(3) unfolding task_queue_def queue_ok_def by blast
  then show ?thesis
    using drain_ends [OF assms, of "Suc READY_QUEUE_CAPACITY" x] poll_each_ends [OF assms(1), of "on_kernel _ w"] assms(2)
    by (simp add: run_ready_tasks_def del: drain.simps)
qed

text \<open>
  A future that wakes its own task each time it is polled keeps the drain going forever: with \<^term>\<open>t\<close>
  queued, every poll of it puts it back.
\<close>

lemma drain_diverges:
  assumes step: "\<And>x w. stuck x w \<Longrightarrow> \<exists>u q p x' w'. ring_pop (task_ready (kern w)) = (Some u, q)
      \<and> poll_task poll u x (on_kernel (\<lambda>s. s\<lparr>task_ready := q\<rparr>) w) = Some (Inr (p, x', w')) \<and> stuck x' w'"
  shows "stuck x w \<Longrightarrow> drain n poll x w = None"
proof (induction n arbitrary: x w)
  case (Suc n)
  then show ?case using step [OF Suc.prems] by (auto simp: run_bind_def)
qed simp

end
