(* ===== verification/Uart.thy ===== *)
theory Uart
  imports Executor
begin

text \<open>
  \<^verbatim>\<open>kernel/src/driver/uart.rs\<close>: the 16550 driver of COM1 and the two kernel tasks that use it, the
  echo task and the console server.  The chip is a parameter: what reading its line status and data
  registers and writing one of its ports does to its state.  The named hypothesis
  \<^verbatim>\<open>documented_16550\<close> says what the driver relies on: received bytes come out in order, the line
  status describes the oldest one, and the transmitter takes a byte after finitely many reads of
  the line status.  The loops of the driver take fuel; the theory shows how much is enough.
\<close>

subsection \<open>Registers\<close>

definition COM1_BASE :: u16 where "COM1_BASE = 0x3F8"
definition IER_RX_AVAILABLE :: u8 where "IER_RX_AVAILABLE = 0x01"
definition FCR_ENABLE_FIFO_CLEAR :: u8 where "FCR_ENABLE_FIFO_CLEAR = 0xC7"
definition LCR_8N1 :: u8 where "LCR_8N1 = 0x03"
definition LCR_DLAB :: u8 where "LCR_DLAB = 0x80"
definition MCR_INIT :: u8 where "MCR_INIT = 0x0B"
definition LSR_DATA_READY :: u8 where "LSR_DATA_READY = 0x01"
definition LSR_ERROR_BITS :: u8 where "LSR_ERROR_BITS = 0x02 OR 0x04 OR 0x08"
definition LSR_THR_EMPTY :: u8 where "LSR_THR_EMPTY = 0x20"
definition BAUD_DIVISOR :: u16 where "BAUD_DIVISOR = 3"

record 'd uart16550 =
  read_lsr :: "'d \<Rightarrow> u8 \<times> 'd"
  read_data :: "'d \<Rightarrow> u8 \<times> 'd"
  write_port :: "u16 \<Rightarrow> u8 \<Rightarrow> 'd \<Rightarrow> 'd"

subsection \<open>The driver\<close>

text \<open>\<^verbatim>\<open>Uart16550::init\<close>: the ports written, in order, and the device after them.\<close>

definition uart_init_writes :: "(u16 \<times> u8) list" where
  "uart_init_writes =
    [(COM1_BASE + 1, 0x00), (COM1_BASE + 3, LCR_DLAB),
     (COM1_BASE, ucast (BAUD_DIVISOR AND 0xFF)), (COM1_BASE + 1, ucast (drop_bit 8 BAUD_DIVISOR)),
     (COM1_BASE + 3, LCR_8N1), (COM1_BASE + 2, FCR_ENABLE_FIFO_CLEAR), (COM1_BASE + 4, MCR_INIT),
     (COM1_BASE + 1, IER_RX_AVAILABLE)]"

text \<open>
  The interrupt controllers of \<^verbatim>\<open>arch/x86_64/interrupts.rs\<close>: \<^verbatim>\<open>init\<close> leaves only the timer's line
  unmasked and programs the timer for 100 ticks a second, \<^verbatim>\<open>unmask_irq4\<close> clears bit 4.
\<close>

definition PIT_FREQUENCY_HZ :: u32 where "PIT_FREQUENCY_HZ = 100"
definition PIT_BASE_FREQUENCY_HZ :: u32 where "PIT_BASE_FREQUENCY_HZ = 1193182"

definition pit_divisor :: u16 where
  "pit_divisor = ucast (PIT_BASE_FREQUENCY_HZ div PIT_FREQUENCY_HZ)"

definition pit_init_writes :: "(u16 \<times> u8) list" where
  "pit_init_writes = [(0x43, 0x34), (0x40, ucast (pit_divisor AND 0xFF)), (0x40, ucast (drop_bit 8 pit_divisor))]"

definition pics_init :: "('pt, 'd) world \<Rightarrow> ('pt, 'd) world" where
  "pics_init w = w\<lparr>pic_masks := (0xFE, 0xFF)\<rparr>"

definition unmask_irq4 :: "('pt, 'd) world \<Rightarrow> ('pt, 'd) world" where
  "unmask_irq4 w = (case pic_masks w of (mask1, mask2) \<Rightarrow> w\<lparr>pic_masks := (mask1 AND NOT (push_bit IRQ4 1), mask2)\<rparr>)"

text \<open>\<^verbatim>\<open>uart::init\<close>: the device first, then the handler, and only then the line.\<close>

definition uart_init :: "'d uart16550 \<Rightarrow> ('pt, 'd) world \<Rightarrow> kpanic + ('pt, 'd) world" where
  "uart_init dev w =
    (let d = fold (\<lambda>(port, v). write_port dev port v) uart_init_writes (uart w)
     in sbind (register_irq IRQ4 UartHandleIrq (kern w)) (\<lambda>s. Inr (unmask_irq4 (w\<lparr>uart := d, kern := s\<rparr>))))"

text \<open>The divisor fits its two writes, and after both steps exactly the lines of timer and UART are open.\<close>

lemma pit_divisor_writes: "map snd pit_init_writes = [0x34, 0x9B, 0x2E]"
  by (simp add: pit_init_writes_def pit_divisor_def PIT_BASE_FREQUENCY_HZ_def PIT_FREQUENCY_HZ_def)

lemma uart_init_opens_irq4:
  assumes "length (irq_table (kern w)) = MAX_IRQ"
  obtains w' where "uart_init dev (pics_init w) = Inr w'" "pic_masks w' = (0xEE, 0xFF)"
    "irq_table (kern w') ! IRQ4 = Some UartHandleIrq"
  using assms
  by (simp add: uart_init_def pics_init_def unmask_irq4_def register_irq_def Let_def MAX_IRQ_def IRQ4_def)

fun await_thr :: "nat \<Rightarrow> 'd uart16550 \<Rightarrow> 'd \<Rightarrow> 'd option" where
  "await_thr 0 dev d = None"
| "await_thr (Suc n) dev d =
    (case read_lsr dev d of (status, d) \<Rightarrow> if status AND LSR_THR_EMPTY = 0 then await_thr n dev d else Some d)"

definition write_byte :: "nat \<Rightarrow> 'd uart16550 \<Rightarrow> u8 \<Rightarrow> 'd \<Rightarrow> 'd option" where
  "write_byte n dev b d = map_option (write_port dev COM1_BASE b) (await_thr n dev d)"

fun write_bytes :: "nat \<Rightarrow> 'd uart16550 \<Rightarrow> bytes \<Rightarrow> 'd \<Rightarrow> 'd option" where
  "write_bytes n dev [] d = Some d"
| "write_bytes n dev (b # bs) d = Option.bind (write_byte n dev b d) (write_bytes n dev bs)"

definition write_line :: "nat \<Rightarrow> 'd uart16550 \<Rightarrow> bytes \<Rightarrow> 'd \<Rightarrow> 'd option" where
  "write_line n dev txt d = Option.bind (write_bytes n dev txt d) (write_bytes n dev [13, 10])"

text \<open>\<^verbatim>\<open>try_read_byte\<close>: bytes that arrived with an error are read, counted and dropped.\<close>

fun try_read_byte :: "nat \<Rightarrow> 'd uart16550 \<Rightarrow> ('pt, 'd) world \<Rightarrow> (u8 option \<times> ('pt, 'd) world) option" where
  "try_read_byte 0 dev w = None"
| "try_read_byte (Suc n) dev w =
    (case read_lsr dev (uart w) of (status, d) \<Rightarrow>
       if status AND LSR_DATA_READY = 0 then Some (None, w\<lparr>uart := d\<rparr>)
       else case read_data dev d of (b, d) \<Rightarrow>
         if status AND LSR_ERROR_BITS \<noteq> 0
         then try_read_byte n dev (w\<lparr>uart := d, lsr_errors := lsr_errors w + 1\<rparr>)
         else Some (Some b, w\<lparr>uart := d\<rparr>))"

subsection \<open>The kernel tasks\<close>

text \<open>
  \<^verbatim>\<open>RxAvailable::poll\<close> releases the device's lock between its first look, the registration of its
  waker and its second look, so interrupts and the device itself act there: \<^term>\<open>gap1\<close> and
  \<^term>\<open>gap2\<close> are what happens meanwhile.
\<close>

definition register_rx :: "nat \<Rightarrow> ('pt, 'd) world \<Rightarrow> ('pt, 'd) world" where
  "register_rx t w = on_kernel (\<lambda>s. s\<lparr>rx_waker := Some t\<rparr>) w"

definition rx_available_poll ::
  "nat \<Rightarrow> 'd uart16550 \<Rightarrow> nat \<Rightarrow> (('pt, 'd) world \<Rightarrow> ('pt, 'd) world) \<Rightarrow> (('pt, 'd) world \<Rightarrow> ('pt, 'd) world)
    \<Rightarrow> ('pt, 'd) world \<Rightarrow> (u8 option \<times> ('pt, 'd) world) option" where
  "rx_available_poll n dev t gap1 gap2 w =
    Option.bind (try_read_byte n dev w) (\<lambda>(b, w).
      case b of
        Some x \<Rightarrow> Some (Some x, w)
      | None \<Rightarrow> try_read_byte n dev (gap2 (register_rx t (gap1 w))))"

text \<open>
  The loop of \<^verbatim>\<open>echo_task\<close> up to the point where it has to wait: \<^term>\<open>n\<close> is the fuel of the loop,
  \<^term>\<open>m\<close> that of the driver's own loops.
\<close>

fun echo_poll :: "nat \<Rightarrow> nat \<Rightarrow> 'd uart16550 \<Rightarrow> nat \<Rightarrow> ('pt, 'd) world \<Rightarrow> ('pt, 'd) world option" where
  "echo_poll 0 m dev t w = None"
| "echo_poll (Suc n) m dev t w =
    Option.bind (rx_available_poll m dev t id id w) (\<lambda>(b, w).
      case b of
        None \<Rightarrow> Some w
      | Some x \<Rightarrow> Option.bind (write_byte m dev x (uart w)) (\<lambda>d. echo_poll n m dev t (w\<lparr>uart := d\<rparr>)))"

text \<open>The loop of \<^verbatim>\<open>console_server\<close>: print every message that is there, then wait for the next.\<close>

fun console_poll :: "nat \<Rightarrow> nat \<Rightarrow> 'd uart16550 \<Rightarrow> nat \<Rightarrow> nat \<Rightarrow> ('pt, 'd) world \<Rightarrow> ('pt, 'd) world run" where
  "console_poll 0 m dev e t w = None"
| "console_poll (Suc n) m dev e t w =
    (case recv_future_poll e t (kern w) of
       Inl p \<Rightarrow> Some (Inl p)
     | Inr (None, s) \<Rightarrow> Some (Inr (w\<lparr>kern := s\<rparr>))
     | Inr (Some msg, s) \<Rightarrow>
         (case write_line m dev (as_str_lossy msg) (uart w) of
            None \<Rightarrow> None
          | Some d \<Rightarrow> console_poll n m dev e t (w\<lparr>kern := s, uart := d\<rparr>)))"

text \<open>Neither task ever completes: a poll returns when it waits.\<close>

datatype kernel_task = EchoTask | ConsoleServer nat

definition kernel_poll :: "nat \<Rightarrow> nat \<Rightarrow> 'd uart16550 \<Rightarrow> (kernel_task, 'pt, 'd) poll" where
  "kernel_poll n m dev t task w =
    (case task of
       EchoTask \<Rightarrow> map_option (\<lambda>w. Inr (False, EchoTask, w)) (echo_poll n m dev t w)
     | ConsoleServer e \<Rightarrow> run_bind (console_poll n m dev e t w) (\<lambda>w. Some (Inr (False, ConsoleServer e, w))))"

subsection \<open>The chip\<close>

text \<open>
  \<^term>\<open>fifo d\<close> are the bytes received and not yet read, each with whether it arrived with an error;
  \<^term>\<open>tx d\<close> the bytes transmitted; \<^term>\<open>wait d\<close> how many reads of the line status still find the
  transmitter busy.
\<close>

definition documented_16550 ::
  "'d uart16550 \<Rightarrow> ('d \<Rightarrow> (u8 \<times> bool) list) \<Rightarrow> ('d \<Rightarrow> bytes) \<Rightarrow> ('d \<Rightarrow> nat) \<Rightarrow> bool" where
  "documented_16550 dev fifo tx wait \<longleftrightarrow>
    (\<forall>d. let (status, d1) = read_lsr dev d; (b, d2) = read_data dev d in
      fifo d1 = fifo d \<and> tx d1 = tx d \<and> tx d2 = tx d
      \<and> (status AND LSR_DATA_READY = 0 \<longleftrightarrow> fifo d = [])
      \<and> (fifo d \<noteq> [] \<longrightarrow> (status AND LSR_ERROR_BITS \<noteq> 0 \<longleftrightarrow> snd (hd (fifo d))) \<and> b = fst (hd (fifo d)) \<and> fifo d2 = tl (fifo d))
      \<and> (if status AND LSR_THR_EMPTY = 0 then wait d1 < wait d else True)
      \<and> (\<forall>x. tx (write_port dev COM1_BASE x d) = tx d @ [x] \<and> fifo (write_port dev COM1_BASE x d) = fifo d))"

lemma chip_lsr:
  assumes "documented_16550 dev fifo tx wait" "read_lsr dev d = (status, d1)"
  shows "fifo d1 = fifo d" "tx d1 = tx d" "status AND LSR_DATA_READY = 0 \<longleftrightarrow> fifo d = []"
    "fifo d \<noteq> [] \<Longrightarrow> status AND LSR_ERROR_BITS \<noteq> 0 \<longleftrightarrow> snd (hd (fifo d))"
    "status AND LSR_THR_EMPTY = 0 \<Longrightarrow> wait d1 < wait d"
  using assms by (auto simp: documented_16550_def Let_def split_beta dest!: spec [of _ d])

lemma chip_data:
  assumes "documented_16550 dev fifo tx wait" "read_data dev d = (b, d2)"
  shows "tx d2 = tx d" "fifo d \<noteq> [] \<Longrightarrow> b = fst (hd (fifo d))" "fifo d \<noteq> [] \<Longrightarrow> fifo d2 = tl (fifo d)"
  using assms by (auto simp: documented_16550_def Let_def split_beta dest!: spec [of _ d])

lemma chip_write:
  assumes "documented_16550 dev fifo tx wait"
  shows "tx (write_port dev COM1_BASE x d) = tx d @ [x]" "fifo (write_port dev COM1_BASE x d) = fifo d"
  using assms by (auto simp: documented_16550_def Let_def split_beta dest!: spec [of _ d])

lemma await_thr_returns:
  assumes chip: "documented_16550 dev fifo tx wait"
  shows "wait d < n \<Longrightarrow> \<exists>d'. await_thr n dev d = Some d' \<and> tx d' = tx d \<and> fifo d' = fifo d"
proof (induction n arbitrary: d)
  case (Suc n)
  obtain status d1 where r: "read_lsr dev d = (status, d1)" by fastforce
  note c = chip_lsr [OF chip r]
  show ?case
  proof (cases "status AND LSR_THR_EMPTY = 0")
    case True
    then show ?thesis using Suc.IH [of d1] c(1,2) c(5) [OF True] Suc.prems r by auto
  qed (use r c in simp)
qed simp

lemma write_bytes_returns:
  assumes chip: "documented_16550 dev fifo tx wait" and fuel: "\<And>d. wait d < n"
  shows "\<exists>d'. write_bytes n dev bs d = Some d' \<and> tx d' = tx d @ bs \<and> fifo d' = fifo d"
proof (induction bs arbitrary: d)
  case (Cons b bs)
  obtain d1 where d1: "await_thr n dev d = Some d1" "tx d1 = tx d" "fifo d1 = fifo d"
    using await_thr_returns [OF chip fuel] by blast
  then show ?case
    using Cons.IH [of "write_port dev COM1_BASE b d1"] chip_write [OF chip, of b d1] by (auto simp: write_byte_def)
qed simp

lemma write_line_returns:
  assumes "documented_16550 dev fifo tx wait" and "\<And>d. wait d < n"
  shows "\<exists>d'. write_line n dev txt d = Some d' \<and> tx d' = tx d @ txt @ [13, 10] \<and> fifo d' = fifo d"
proof -
  obtain d1 where d1: "write_bytes n dev txt d = Some d1" "tx d1 = tx d @ txt" "fifo d1 = fifo d"
    using write_bytes_returns [OF assms] by blast
  show ?thesis using write_bytes_returns [OF assms, of "[13, 10]" d1] d1 by (auto simp: write_line_def)
qed

text \<open>A read returns the oldest byte that arrived without error, dropping and counting those before it.\<close>

lemma try_read_byte_returns:
  assumes chip: "documented_16550 dev fifo tx wait"
  shows "length (fifo (uart w)) < n \<Longrightarrow> \<exists>w'. try_read_byte n dev w
      = Some (case dropWhile snd (fifo (uart w)) of [] \<Rightarrow> None | x # _ \<Rightarrow> Some (fst x), w')
    \<and> fifo (uart w') = tl (dropWhile snd (fifo (uart w))) \<and> tx (uart w') = tx (uart w) \<and> kern w' = kern w
    \<and> lsr_errors w' = lsr_errors w + of_nat (length (takeWhile snd (fifo (uart w))))"
proof (induction n arbitrary: w)
  case (Suc n)
  obtain status d1 where r: "read_lsr dev (uart w) = (status, d1)" by fastforce
  obtain b d2 where r2: "read_data dev d1 = (b, d2)" by fastforce
  note c = chip_lsr [OF chip r]
  note c2 = chip_data [OF chip r2]
  show ?case
  proof (cases "fifo (uart w)")
    case Nil
    then show ?thesis using r c by simp
  next
    case (Cons x xs)
    let ?w = "w\<lparr>uart := d2, lsr_errors := lsr_errors w + 1\<rparr>"
    have ne: "fifo (uart w) \<noteq> []" "fifo d1 \<noteq> []" using Cons c(1) by simp_all
    note f = c2(2,3) [OF ne(2)] c(4) [OF ne(1)]
    show ?thesis
    proof (cases "snd x")
      case True
      have "length (fifo (uart ?w)) < n" using Suc.prems Cons f c(1) by simp
      from Suc.IH [OF this] show ?thesis using r r2 c c2(1) f ne True Cons by (auto simp: algebra_simps)
    qed (use r r2 c c2(1) f ne Cons in simp)
  qed
qed simp

subsection \<open>The tasks keep the executor's contract\<close>

lemma notify_queue [simp]:
  "task_ready (notify_idle_cores s) = task_ready s" "overflowed (notify_idle_cores s) = overflowed s"
  unfolding notify_idle_cores_def by (rule fold_field; simp add: send_reschedule_def)+

lemma wake_blocked_queue [simp]:
  "task_ready (wake_blocked_process p r s) = task_ready s" "overflowed (wake_blocked_process p r s) = overflowed s"
  "task_ready (set_endpoint e x s) = task_ready s" "overflowed (set_endpoint e x s) = overflowed s"
  by (auto simp: wake_blocked_process_def wake_blocked_process_locked_def apply_wake_result_def set_endpoint_def
      put_process_def push_ready_def set_frame_def split: option.splits table_slot.splits)

lemma world_kern_eq: "w\<lparr>kern := f (kern w)\<rparr> = on_kernel f w"
  by (simp add: on_kernel_def)

lemma queue_cong:
  "task_ready (kern w') = task_ready (kern w) \<Longrightarrow> queue_ok w' = queue_ok w \<and> task_queue w' = task_queue w"
  by (simp add: queue_ok_def task_queue_def)

lemma try_read_kern: "try_read_byte n dev w = Some (b, w') \<Longrightarrow> kern w' = kern w"
  by (induction n arbitrary: w) (auto split: prod.splits if_splits)

lemma echo_poll_queue: "echo_poll n m dev t w = Some w' \<Longrightarrow> task_ready (kern w') = task_ready (kern w)"
proof (induction n arbitrary: w)
  case (Suc n)
  obtain b w1 where rx: "rx_available_poll m dev t id id w = Some (b, w1)"
    and k: "(case b of None \<Rightarrow> Some w1
      | Some x \<Rightarrow> Option.bind (write_byte m dev x (uart w1)) (\<lambda>d. echo_poll n m dev t (w1\<lparr>uart := d\<rparr>))) = Some w'"
    using Suc.prems by (auto simp: bind_eq_Some_conv)
  have "task_ready (kern w1) = task_ready (kern w)"
    using rx by (auto simp: rx_available_poll_def bind_eq_Some_conv register_rx_def dest!: try_read_kern split: option.splits)
  then show ?case using Suc.IH k by (fastforce simp: bind_eq_Some_conv split: option.splits)
qed simp

text \<open>Whoever a receive wakes is appended to the queue.\<close>

lemma wake_sender_queue:
  assumes "queue_ok w"
  shows "queue_ok (on_kernel (wake_sender v) w) \<and> set (task_queue w) \<subseteq> set (task_queue (on_kernel (wake_sender v) w))"
proof (cases v)
  case (Task t)
  have "wake_sender v = wake_task t" using Task by (auto intro: ext)
  then show ?thesis using wake_task_queue(1,4) [OF assms, of t] by metis
next
  case (Process p)
  then show ?thesis using assms queue_cong [of "on_kernel (wake_sender v) w" w] by simp
qed (use assms queue_cong [of "on_kernel (wake_sender v) w" w] in simp)

lemma recv_future_queue:
  assumes ok: "queue_ok w" and r: "recv_future_poll e t (kern w) = Inr (r, s')"
  shows "queue_ok (w\<lparr>kern := s'\<rparr>) \<and> set (task_queue w) \<subseteq> set (task_queue (w\<lparr>kern := s'\<rparr>))"
proof -
  obtain out slot where t: "slot_try_recv (Task t) (endpoints (kern w) e) = Some (out, slot)"
    using r by (auto simp: recv_future_poll_def split: option.splits)
  let ?w = "on_kernel (set_endpoint e slot) w"
  have base: "queue_ok ?w" "task_queue ?w = task_queue w" using ok queue_cong [of ?w w] by simp_all
  have "w\<lparr>kern := s'\<rparr> = (case out of RecvDelivered _ v \<Rightarrow> on_kernel (wake_sender v) ?w
      | RecvEnqueued \<Rightarrow> ?w | RecvQueueFull \<Rightarrow> on_kernel (wake_task t) ?w)"
    using r t by (auto simp: recv_future_poll_def Let_def sbind_Inr_iff on_kernel_def split: recv_outcome.splits)
  then show ?thesis
    using base wake_sender_queue [OF base(1)] wake_task_queue(1,4) [OF base(1)] by (cases out) auto
qed

lemma console_poll_queue:
  "queue_ok w \<Longrightarrow> console_poll n m dev e t w = Some (Inr w') \<Longrightarrow>
    queue_ok w' \<and> set (task_queue w) \<subseteq> set (task_queue w')"
proof (induction n arbitrary: w)
  case (Suc n)
  obtain r s where r: "recv_future_poll e t (kern w) = Inr (r, s)"
    using Suc.prems(2) by (auto split: sum.splits prod.splits)
  note q = recv_future_queue [OF Suc.prems(1) r]
  show ?case
  proof (cases r)
    case (Some msg)
    then obtain d where d: "console_poll n m dev e t (w\<lparr>kern := s, uart := d\<rparr>) = Some (Inr w')"
      using Suc.prems(2) r by (auto split: option.splits)
    have "queue_ok (w\<lparr>kern := s, uart := d\<rparr>)" using q by (simp add: queue_ok_def)
    from Suc.IH [OF this d] show ?thesis using q by (auto simp: task_queue_def)
  qed (use Suc.prems q r in auto)
qed simp

interpretation tasks: kernel_futures "kernel_poll n m dev" for n m dev
proof (unfold_locales, goal_cases)
  case (1 w t f b f' w')
  then show ?case
    using echo_poll_queue [of n m dev t w w'] queue_cong [of w' w] console_poll_queue [of w n m dev _ t w']
    by (auto simp: kernel_poll_def run_bind_Inr_iff split: kernel_task.splits)
qed

subsection \<open>Echoing\<close>

text \<open>Polling the echo task sends every clean byte back, in order, and leaves its waker registered.\<close>

definition clean :: "(u8 \<times> bool) list \<Rightarrow> bytes" where
  "clean xs = map fst (filter (\<lambda>x. \<not> snd x) xs)"

lemma clean_dropWhile:
  "clean xs = (case dropWhile snd xs of [] \<Rightarrow> [] | x # rest \<Rightarrow> fst x # clean rest)"
  by (induction xs) (auto simp: clean_def)

lemma length_tl_dropWhile: "dropWhile P xs \<noteq> [] \<Longrightarrow> length (tl (dropWhile P xs)) < length xs"
  by (induction xs) auto

lemma rx_poll_returns:
  assumes chip: "documented_16550 dev fifo tx wait" and m: "length (fifo (uart w)) < m"
  shows "\<exists>w'. rx_available_poll m dev t id id w
      = Some (case dropWhile snd (fifo (uart w)) of [] \<Rightarrow> None | x # _ \<Rightarrow> Some (fst x), w')
    \<and> fifo (uart w') = tl (dropWhile snd (fifo (uart w))) \<and> tx (uart w') = tx (uart w)
    \<and> (dropWhile snd (fifo (uart w)) = [] \<longrightarrow> rx_waker (kern w') = Some t)"
proof (cases "dropWhile snd (fifo (uart w))")
  case Nil
  obtain w1 where w1: "try_read_byte m dev w = Some (None, w1)" "fifo (uart w1) = []" "tx (uart w1) = tx (uart w)"
    using try_read_byte_returns [OF chip m] Nil by (auto simp del: dropWhile_eq_Nil_conv)
  then show ?thesis
    using try_read_byte_returns [OF chip, of "register_rx t w1" m] m Nil
    by (auto simp: rx_available_poll_def register_rx_def simp del: dropWhile_eq_Nil_conv)
next
  case (Cons x xs)
  then show ?thesis using try_read_byte_returns [OF chip m] by (auto simp: rx_available_poll_def)
qed

lemma echo_poll_echoes:
  assumes chip: "documented_16550 dev fifo tx wait" and wait: "\<And>d. wait d < m"
  shows "length (fifo (uart w)) < n \<Longrightarrow> n \<le> m \<Longrightarrow> \<exists>w'. echo_poll n m dev t w = Some w'
    \<and> tx (uart w') = tx (uart w) @ clean (fifo (uart w)) \<and> fifo (uart w') = [] \<and> rx_waker (kern w') = Some t"
proof (induction n arbitrary: w)
  case (Suc n)
  let ?q = "dropWhile snd (fifo (uart w))"
  obtain w1 where w1: "rx_available_poll m dev t id id w = Some (case ?q of [] \<Rightarrow> None | x # _ \<Rightarrow> Some (fst x), w1)"
      "fifo (uart w1) = tl ?q" "tx (uart w1) = tx (uart w)" "?q = [] \<longrightarrow> rx_waker (kern w1) = Some t"
    using rx_poll_returns [OF chip, of w m t] Suc.prems by auto
  show ?case
  proof (cases ?q)
    case Nil
    then show ?thesis using w1 by (simp add: clean_dropWhile [of "fifo (uart w)"] del: dropWhile_eq_Nil_conv)
  next
    case (Cons x xs)
    obtain d where d: "await_thr m dev (uart w1) = Some d" "tx d = tx (uart w1)" "fifo d = fifo (uart w1)"
      using await_thr_returns [OF chip wait] by blast
    let ?w = "w1\<lparr>uart := write_port dev COM1_BASE (fst x) d\<rparr>"
    have io: "fifo (uart ?w) = xs" "tx (uart ?w) = tx (uart w) @ [fst x]"
      using chip_write [OF chip] d w1 Cons by simp_all
    have "length (fifo (uart ?w)) < n"
      using io(1) length_tl_dropWhile [of snd "fifo (uart w)"] Cons Suc.prems(1) by simp
    from Suc.IH [OF this] show ?thesis
      using w1(1) Cons d(1) io Suc.prems(2) by (auto simp: write_byte_def clean_dropWhile [of "fifo (uart w)"])
  qed
qed simp

subsection \<open>Waiting for a byte\<close>

text \<open>What happens around the receiver: the chip moves to another state, or its interrupt is dispatched.\<close>

datatype 'd rx_event = DeviceStep 'd | Irq4

fun rx_step :: "'d rx_event \<Rightarrow> ('pt, 'd) world \<Rightarrow> ('pt, 'd) world" where
  "rx_step (DeviceStep d) w = w\<lparr>uart := d\<rparr>"
| "rx_step Irq4 w = on_kernel (dispatch_irq IRQ4) w"

definition rx_run :: "'d rx_event list \<Rightarrow> ('pt, 'd) world \<Rightarrow> ('pt, 'd) world" where
  "rx_run evs w = fold rx_step evs w"

definition uart_registered :: "('pt, 'd) world \<Rightarrow> bool" where
  "uart_registered w \<longleftrightarrow> queue_ok w \<and> irq_table (kern w) ! IRQ4 = Some UartHandleIrq"

text \<open>The task is queued, or the next interrupt of the UART will queue it.\<close>

definition awaiting :: "nat \<Rightarrow> ('pt, 'd) world \<Rightarrow> bool" where
  "awaiting t w \<longleftrightarrow> rx_waker (kern w) = Some t \<or> due t w"

lemma wake_task_irq [simp]: "irq_table (wake_task t s) = irq_table s" "rx_waker (wake_task t s) = rx_waker s"
  by (auto simp: wake_task_def split: prod.splits bool.splits)

lemma rx_step_Irq4:
  assumes reg: "uart_registered w"
  shows "uart_registered (rx_step Irq4 w)" "due u w \<Longrightarrow> due u (rx_step Irq4 w)" "rx_waker (kern w) = Some u \<Longrightarrow> due u (rx_step Irq4 w)"
proof -
  let ?w = "on_kernel (\<lambda>s. s\<lparr>rx_waker := None\<rparr>) w"
  have q: "queue_ok ?w" "\<And>u. due u ?w = due u w" using reg by (auto simp: uart_registered_def queue_ok_def due_def task_queue_def)
  have "rx_step Irq4 w = (case rx_waker (kern w) of None \<Rightarrow> w | Some t \<Rightarrow> on_kernel (wake_task t) ?w)"
    using reg by (auto simp: uart_registered_def dispatch_irq_def uart_handle_irq_def on_kernel_def split: option.splits)
  then show "uart_registered (rx_step Irq4 w)" "due u w \<Longrightarrow> due u (rx_step Irq4 w)"
    "rx_waker (kern w) = Some u \<Longrightarrow> due u (rx_step Irq4 w)"
    using reg wake_task_queue(1,2) [OF q(1)] wake_task_queue(3) [OF q(1), of u] q
    by (auto simp: uart_registered_def split: option.splits)
qed

lemma rx_step_keeps:
  assumes "uart_registered w"
  shows "uart_registered (rx_step ev w)" "due t w \<Longrightarrow> due t (rx_step ev w)" "awaiting t w \<Longrightarrow> awaiting t (rx_step ev w)"
  using rx_step_Irq4 [OF assms] assms
  by (cases ev; auto simp: uart_registered_def queue_ok_def due_def task_queue_def awaiting_def)+

lemma rx_run_keeps:
  "uart_registered w \<Longrightarrow> uart_registered (rx_run evs w) \<and> (due t w \<longrightarrow> due t (rx_run evs w))
    \<and> (awaiting t w \<longrightarrow> awaiting t (rx_run evs w))"
proof (induction evs arbitrary: w)
  case (Cons ev evs)
  show ?case using Cons.IH [OF rx_step_keeps(1) [OF Cons.prems, of ev]] rx_step_keeps(2,3) [OF Cons.prems, of t ev]
    by (auto simp: rx_run_def)
qed (simp add: rx_run_def)

lemma rx_run_Irq4:
  assumes "uart_registered w" "awaiting t w" "Irq4 \<in> set evs"
  shows "due t (rx_run evs w)"
proof -
  obtain xs ys where evs: "evs = xs @ Irq4 # ys" using assms(3) by (meson split_list)
  have x: "uart_registered (rx_run xs w)" "awaiting t (rx_run xs w)" using rx_run_keeps [OF assms(1), of xs t] assms(2) by auto
  have "due t (rx_step Irq4 (rx_run xs w))" using rx_step_Irq4(2,3) [OF x(1)] x(2) by (auto simp: awaiting_def)
  then have "due t (rx_run ys (rx_step Irq4 (rx_run xs w)))" using rx_run_keeps [OF rx_step_Irq4(1) [OF x(1)]] by blast
  then show ?thesis by (simp add: evs rx_run_def)
qed

lemma rx_run_fifo:
  "length (fifo (uart w)) < m \<Longrightarrow> (\<And>d. DeviceStep d \<in> set evs \<Longrightarrow> length (fifo d) < m) \<Longrightarrow> length (fifo (uart (rx_run evs w))) < m"
proof (induction evs arbitrary: w)
  case (Cons ev evs)
  have "length (fifo (uart (rx_step ev w))) < m" using Cons.prems by (cases ev) auto
  then show ?case using Cons.IH [of "rx_step ev w"] Cons.prems(2) by (simp add: rx_run_def)
qed (simp add: rx_run_def)

subsection \<open>Printing\<close>

lemma parked_poll:
  assumes "endpoints (kern w) e = ReceiverWaiting v"
  shows "console_poll (Suc n) m dev e t w = Some (Inr (on_kernel (wake_task t) w))"
proof -
  have "set_endpoint e (ReceiverWaiting v) (kern w) = kern w"
    using assms by (simp add: set_endpoint_def fun_upd_idem)
  then show ?thesis using assms by (simp add: recv_future_poll_def slot_try_recv_def on_kernel_def)
qed

text \<open>The lines a list of messages prints.\<close>

fun printed :: "message_payload \<Rightarrow> bytes" where
  "printed (Inline msg) = as_str_lossy msg @ [13, 10]"
| "printed (OutOfLine page n) = []"

fun printed_lines :: "(message_payload \<times> pid waiter) list \<Rightarrow> bytes" where
  "printed_lines [] = []"
| "printed_lines ((p, _) # ms) = printed p @ printed_lines ms"

definition from_processes :: "(message_payload \<times> pid waiter) list \<Rightarrow> bool" where
  "from_processes ms \<longleftrightarrow> list_all (\<lambda>(_, v). case v of Task _ \<Rightarrow> False | _ \<Rightarrow> True) ms"

lemma wake_process_queue:
  assumes "case v of Task _ \<Rightarrow> False | _ \<Rightarrow> True"
  shows "task_ready (wake_sender v s) = task_ready s" "overflowed (wake_sender v s) = overflowed s"
  using assms by (cases v; simp)+

lemma console_poll_prints:
  assumes chip: "documented_16550 dev fifo tx wait" and wait: "\<And>d. wait d < m"
  shows "endpoints_ok (kern w) \<Longrightarrow> receiver_of (endpoints (kern w) e) = None \<Longrightarrow> length (pending (endpoints (kern w) e)) < n
    \<Longrightarrow> \<exists>w'. console_poll n m dev e t w = Some (Inr w')
      \<and> tx (uart w') = tx (uart w) @ printed_lines (pending (endpoints (kern w) e))
      \<and> endpoints (kern w') = (endpoints (kern w))(e := ReceiverWaiting (Task t))
      \<and> (from_processes (pending (endpoints (kern w) e)) \<longrightarrow>
          task_ready (kern w') = task_ready (kern w) \<and> overflowed (kern w') = overflowed (kern w))"
proof (induction n arbitrary: w)
  case (Suc n)
  have so: "slot_ok MAX_PROCESSES (endpoints (kern w) e)" using Suc.prems(1) by (simp add: endpoints_ok_def)
  obtain out slot where t: "slot_try_recv (Task t) (endpoints (kern w) e) = Some (out, slot)"
    and ok: "endpoints_ok (set_endpoint e slot (kern w))"
    using receive_slot [OF Suc.prems(1), of "Task t" e] by metis
  note recv = slot_try_recv_spec [OF so, of "Task t"]
  show ?case
  proof (cases "pending (endpoints (kern w) e)")
    case Nil
    then have "out = RecvEnqueued" "slot = ReceiverWaiting (Task t)" using recv t Suc.prems(2) by auto
    then show ?thesis using t Nil by (simp add: recv_future_poll_def Let_def) (auto simp: fun_upd_def)
  next
    case (Cons x ms)
    obtain p v where x: "x = (p, v)" by fastforce
    have "payload_ok p" using Suc.prems(1) Cons x by (auto simp: endpoints_ok_def dest!: spec [of _ e])
    then obtain msg where p: "p = Inline msg" by (cases p) (auto simp: payload_ok_def)
    have out: "out = RecvDelivered p v" "pending slot = ms" "receiver_of slot = None" using recv t Cons x by auto
    let ?s = "wake_sender v (set_endpoint e slot (kern w))"
    have r: "recv_future_poll e t (kern w) = Inr (Some msg, ?s)" using t out p by (simp add: recv_future_poll_def Let_def)
    obtain d where d: "write_line m dev (as_str_lossy msg) (uart w) = Some d" "tx d = tx (uart w) @ as_str_lossy msg @ [13, 10]"
      using write_line_returns [OF chip wait] by blast
    let ?w = "w\<lparr>kern := ?s, uart := d\<rparr>"
    have okw: "endpoints_ok (kern ?w)" using wake_sender_ok [OF ok] by simp
    have e: "endpoints (kern ?w) e = slot" by simp
    have u: "uart ?w = d" "kern ?w = ?s" by simp_all
    have upd: "(endpoints (kern ?w))(e := z) = (endpoints (kern w))(e := z)" for z by simp
    have len: "receiver_of (endpoints (kern ?w) e) = None" "length (pending (endpoints (kern ?w) e)) < n"
      using e out Suc.prems(3) Cons by simp_all
    obtain w' where w': "console_poll n m dev e t ?w = Some (Inr w')"
        "tx (uart w') = tx d @ printed_lines ms"
        "endpoints (kern w') = (endpoints (kern w))(e := ReceiverWaiting (Task t))"
        "from_processes ms \<longrightarrow> task_ready (kern w') = task_ready ?s \<and> overflowed (kern w') = overflowed ?s"
      using Suc.IH [OF okw len] unfolding e out(2) upd unfolding u by blast
    then show ?thesis
      using r d Cons x p wake_process_queue [of v "set_endpoint e slot (kern w)"] by (auto simp: from_processes_def)
  qed
qed simp

subsection \<open>Properties\<close>

text \<open>A chip that behaves as documented, and whose transmitter is always ready.\<close>

definition fifo_chip :: "((u8 \<times> bool) list \<times> bytes) uart16550" where
  "fifo_chip =
    \<lparr>read_lsr = (\<lambda>(q, out). (case q of [] \<Rightarrow> 0x20 | (_, bad) # _ \<Rightarrow> if bad then 0x29 else 0x21, (q, out))),
     read_data = (\<lambda>(q, out). (case q of [] \<Rightarrow> 0 | (b, _) # _ \<Rightarrow> b, (tl q, out))),
     write_port = (\<lambda>port v (q, out). if port = COM1_BASE then (q, out @ [v]) else (q, out))\<rparr>"

lemma fifo_chip_documented: "documented_16550 fifo_chip fst snd (\<lambda>_. 0)"
  by (auto simp: documented_16550_def fifo_chip_def LSR_DATA_READY_def LSR_ERROR_BITS_def LSR_THR_EMPTY_def
      neq_Nil_conv split: list.splits prod.splits if_splits)

definition fresh_world :: "'d \<Rightarrow> (flat_table, 'd) world" where
  "fresh_world d =
    \<lparr>kern = (kernel_init 1 0x23 0x1B 0 (flat_mem 64))\<lparr>irq_table := (replicate MAX_IRQ None)[IRQ4 := Some UartHandleIrq]\<rparr>,
     uart = d, lsr_errors = 0, pic_masks = (0xEE, 0xFF)\<rparr>"

lemma fresh_world_ok [simp]:
  "queue_ok (fresh_world d)" "uart_registered (fresh_world d)" "uart (fresh_world d) = d"
  "endpoints (kern (fresh_world d)) e = SlotEmpty" "endpoints_ok (kern (fresh_world d))"
  "task_queue (fresh_world d) = []" "task_ready (kern (fresh_world d)) = ring_new READY_QUEUE_CAPACITY"
  by (simp_all add: fresh_world_def queue_ok_def uart_registered_def kernel_init_def ring.ok_empty endpoints_ok_def
      MAX_IRQ_def IRQ4_def task_queue_def)

lemma uart_wake_all [simp]: "uart (wake_all ts w) = uart w"
  by (induction ts arbitrary: w) (simp_all add: wake_all_def)

text \<open>The echo task alone: a future that returns and wakes nobody.\<close>

definition echo_only :: "nat \<Rightarrow> 'd uart16550 \<Rightarrow> (unit, 'pt, 'd) poll" where
  "echo_only m dev t f w = map_option (\<lambda>w. Inr (False, (), w)) (echo_poll m m dev t w)"

interpretation echo: kernel_futures "echo_only m dev" for m dev
proof (unfold_locales, goal_cases)
  case (1 w t f b f' w')
  then show ?case using echo_poll_queue [of m m dev t w w'] queue_cong [of w' w] by (auto simp: echo_only_def)
qed

lemma echo_only_quiet:
  assumes "documented_16550 dev fifo tx wait" "\<And>d. wait d < m"
  shows "quiet (\<lambda>d. length (fifo d) < m) (echo_only m dev)"
proof -
  have "\<exists>w'. echo_poll m m dev t w = Some w' \<and> length (fifo (uart w')) < m \<and> task_ready (kern w') = task_ready (kern w)"
    if "length (fifo (uart w)) < m" for t and w :: "('b, 'a) world"
    using echo_poll_echoes [OF assms that order.refl, of t] that echo_poll_queue [of m m dev t w] by fastforce
  then show ?thesis unfolding quiet_def echo_only_def by fastforce
qed

text \<open>
  C18. No wake-up of a kernel task is lost: after any sequence of wake-ups, also more of them than
  the ready queue of 64 holds, every run of the executor that returns has polled each woken task
  that is alive; and a run over futures that return and wake nobody does return.
\<close>

theorem woken_tasks_polled:
  assumes futures: "kernel_futures poll" and q: "queue_ok w" and t: "t \<in> set ts" "t \<in> live x"
  shows "(\<forall>n polled x' w'. run_ready_tasks n poll x (wake_all ts w) = Some (Inr (polled, x', w')) \<longrightarrow> t \<in> set polled)
    \<and> (\<forall>Q. quiet Q poll \<and> Q (uart w) \<longrightarrow>
        (\<exists>r. run_ready_tasks (Suc READY_QUEUE_CAPACITY) poll x (wake_all ts w) = Some (Inr r)))"
  using kernel_futures.run_polls_due [OF futures _ _ t(2) wake_all_due [OF q]] wake_all_queue [OF q, of ts] t(1)
    quiet_run_ends [of _ poll "wake_all ts w" x] by auto

theorem woken_tasks_polled_witness:
  "\<exists>polled r. run_ready_tasks (Suc READY_QUEUE_CAPACITY) (echo_only 17 fifo_chip) \<lparr>next_task_id = 4, ex_tasks = [(3, ())]\<rparr>
      (wake_all (replicate 70 3) (fresh_world ([(65, False)], []))) = Some (Inr (polled, r)) \<and> 3 \<in> set polled"
proof -
  have "kernel_futures (echo_only 17 fifo_chip :: (unit, flat_table, (u8 \<times> bool) list \<times> bytes) poll)"
    by (rule echo.kernel_futures_axioms)
  from woken_tasks_polled [OF this, of "fresh_world ([(65, False)], [])" 3 "replicate 70 3" "\<lparr>next_task_id = 4, ex_tasks = [(3, ())]\<rparr>"]
  show ?thesis
    using echo_only_quiet [OF fifo_chip_documented, of 17, where ?'b = flat_table] by (fastforce simp: live_def)
qed

text \<open>
  C19. A byte that arrives while the echo task is between looking for one and going to sleep is not
  missed, whatever the chip and its interrupt do in the two gaps: the poll returns; if it returns
  \<^verbatim>\<open>Pending\<close>, no byte is left in the chip, and from then on the next interrupt of the UART makes
  the task due.
\<close>

theorem rx_no_lost_wakeup:
  assumes chip: "documented_16550 dev fifo tx wait" and reg: "uart_registered w" and len: "length (fifo (uart w)) < m"
    and gaps: "\<And>d. DeviceStep d \<in> set (gap1 @ gap2) \<Longrightarrow> length (fifo d) < m"
  shows "\<exists>b w'. rx_available_poll m dev t (rx_run gap1) (rx_run gap2) w = Some (b, w')
    \<and> (b = None \<longrightarrow> fifo (uart w') = [] \<and> (\<forall>evs. Irq4 \<in> set evs \<longrightarrow> due t (rx_run evs w')))"
proof -
  obtain b w1 where w1: "try_read_byte m dev w = Some (b, w1)" "kern w1 = kern w" "length (fifo (uart w1)) < m"
    using try_read_byte_returns [OF chip len] len length_dropWhile_le [of snd "fifo (uart w)"] by auto
  let ?w = "rx_run gap2 (register_rx t (rx_run gap1 w1))"
  have "uart_registered w1" using reg w1(2) by (simp add: uart_registered_def queue_ok_def)
  then have "uart_registered (rx_run gap1 w1)" using rx_run_keeps by blast
  then have "uart_registered (register_rx t (rx_run gap1 w1))" "awaiting t (register_rx t (rx_run gap1 w1))"
    by (auto simp: register_rx_def uart_registered_def queue_ok_def awaiting_def)
  then have w: "uart_registered ?w" "awaiting t ?w" using rx_run_keeps by blast+
  have "length (fifo (uart (rx_run gap1 w1))) < m" using rx_run_fifo [of fifo w1 m gap1] w1(3) gaps by simp
  then have "length (fifo (uart ?w)) < m"
    using rx_run_fifo [of fifo "register_rx t (rx_run gap1 w1)" m gap2] gaps by (simp add: register_rx_def)
  from try_read_byte_returns [OF chip this] obtain c w2 where
    w2: "try_read_byte m dev ?w = Some (c, w2)" "kern w2 = kern ?w" "c = None \<longrightarrow> fifo (uart w2) = []"
    by (auto simp del: dropWhile_eq_Nil_conv split: list.splits)
  have "uart_registered w2" "awaiting t w2"
    using w w2(2) by (auto simp: uart_registered_def queue_ok_def awaiting_def due_def task_queue_def)
  then show ?thesis using w1(1) w2 rx_run_Irq4 by (cases b) (auto simp: rx_available_poll_def)
qed

theorem rx_no_lost_wakeup_witness:
  "\<exists>b w'. rx_available_poll 17 fifo_chip 3 (rx_run [DeviceStep ([(65, True)], []), Irq4]) (rx_run [Irq4]) (fresh_world ([], []))
      = Some (b, w')
    \<and> (b = None \<longrightarrow> fst (uart w') = [] \<and> (\<forall>evs. Irq4 \<in> set evs \<longrightarrow> due 3 (rx_run evs w')))"
  by (rule rx_no_lost_wakeup [OF fifo_chip_documented]) auto


text \<open>A world in which a process has sent the console the text \<^verbatim>\<open>hi\<close>.\<close>

definition hi_slot :: endpoint_slot where
  "hi_slot = snd (slot_try_send MAX_PROCESSES (Inline (from_str_lossy [104, 105])) (Process (Pid 5)) SlotEmpty)"

definition hi_world :: "(flat_table, (u8 \<times> bool) list \<times> bytes) world" where
  "hi_world = on_kernel (set_endpoint 0 hi_slot) (fresh_world ([], []))"

lemma hi_slot_simps [simp]:
  "pending hi_slot = [(Inline (from_str_lossy [104, 105]), Process (Pid 5))]" "receiver_of hi_slot = None"
  "slot_ok MAX_PROCESSES hi_slot"
  using slot_try_send_spec [of MAX_PROCESSES SlotEmpty "Inline (from_str_lossy [104, 105])" "Process (Pid 5)" SendEnqueued hi_slot]
  by (auto simp: hi_slot_def slot_try_send_def Let_def MAX_PROCESSES_def)

lemma hi_world_simps [simp]:
  "endpoints_ok (kern hi_world)" "endpoints (kern hi_world) 0 = hi_slot" "uart hi_world = ([], [])" "queue_ok hi_world"
  "task_ready (kern hi_world) = ring_new READY_QUEUE_CAPACITY"
  using queue_cong [of hi_world "fresh_world ([], [])"]
  by (auto simp: hi_world_def endpoints_ok_def payload_ok_def message_wf_from_str)



text \<open>
  A console server that is parked at its endpoint and whose number is in the ready queue: the drain
  polls it, finds the endpoint taken, by the server itself, wakes it again, and never ends.
\<close>

definition stuck :: "nat \<Rightarrow> nat \<Rightarrow> kernel_task executor \<Rightarrow> ('pt, 'd) world \<Rightarrow> bool" where
  "stuck t e x w \<longleftrightarrow> queue_ok w \<and> t \<in> set (task_queue w) \<and> ex_tasks x = [(t, ConsoleServer e)]
    \<and> endpoints (kern w) e = ReceiverWaiting (Task t)"

lemma stuck_step:
  assumes "stuck t e x w"
  shows "\<exists>u q p x' w'. ring_pop (task_ready (kern w)) = (Some u, q)
    \<and> poll_task (kernel_poll (Suc n) m dev) u x (on_kernel (\<lambda>s. s\<lparr>task_ready := q\<rparr>) w) = Some (Inr (p, x', w')) \<and> stuck t e x' w'"
proof -
  obtain v q where pop: "ring_pop (task_ready (kern w)) = (v, q)" by fastforce
  let ?w = "on_kernel (\<lambda>s. s\<lparr>task_ready := q\<rparr>) w"
  have st: "queue_ok w" "t \<in> set (task_queue w)" "ex_tasks x = [(t, ConsoleServer e)]" "endpoints (kern w) e = ReceiverWaiting (Task t)"
    using assms by (auto simp: stuck_def)
  note law = ring.pop_law [OF st(1) [unfolded queue_ok_def] pop]
  have ne: "task_queue w \<noteq> []" using st(2) by auto
  have q: "queue_ok ?w" "v = Some (hd (task_queue w))" "task_queue ?w = tl (task_queue w)"
    using law ne by (auto simp: queue_ok_def task_queue_def split: list.splits)
  have room: "length (ring_list q) < READY_QUEUE_CAPACITY"
  proof -
    have "length (task_queue w) \<le> READY_QUEUE_CAPACITY"
      using ring.bounded st(1) unfolding task_queue_def queue_ok_def by blast
    moreover have "length (ring_list q) < length (task_queue w)"
      using q(3) ne unfolding task_queue_def by (cases "ring_list (task_ready (kern w))") auto
    ultimately show ?thesis by simp
  qed
  show ?thesis
  proof (cases "hd (task_queue w) = t")
    case True
    have p: "kernel_poll (Suc n) m dev t (ConsoleServer e) ?w = Some (Inr (False, ConsoleServer e, on_kernel (wake_task t) ?w))"
      using parked_poll [of ?w e "Task t" n m dev t] st(4) by (simp add: kernel_poll_def del: console_poll.simps)
    have "t \<in> set (task_queue (on_kernel (wake_task t) ?w))"
      using ring.push_accepts [of READY_QUEUE_CAPACITY q t] ring.push_items [of READY_QUEUE_CAPACITY q t] q(1) room
      by (auto simp: task_queue_def wake_task_def queue_ok_def split: prod.splits bool.splits)
    then have "stuck t e (x\<lparr>ex_tasks := AList.update t (ConsoleServer e) (ex_tasks x)\<rparr>) (on_kernel (wake_task t) ?w)"
      using st wake_task_queue(1) [OF q(1), of t] by (simp add: stuck_def)
    then show ?thesis using pop q(2) True p st(3) by (auto simp: poll_task_def)
  next
    case False
    have "t \<in> set (tl (task_queue w))" using st(2) ne False by (cases "task_queue w") auto
    then have "stuck t e x ?w" using st q by (simp add: stuck_def)
    then show ?thesis using pop q(2) False st(3) by (auto simp: poll_task_def)
  qed
qed

text \<open>
  C20. The recovery from an overflow of the ready queue can hang the core.  It polls every task but
  leaves the queue as it is; when the console server's number is among those left there, the next
  run polls the server a second time while it is parked, the server takes the endpoint for full and
  wakes itself, and the drain never ends.  (The executor's lock is held and interrupts are off.)
\<close>

theorem overflow_recovery_hangs:
  assumes chip: "documented_16550 dev fifo tx wait" and wait: "\<And>d. wait d < m"
    and w: "queue_ok w" "t \<in> set (task_queue w)" "overflowed (kern w)" "endpoints_ok (kern w)"
      "receiver_of (endpoints (kern w) e) = None" "from_processes (pending (endpoints (kern w) e))"
    and x: "ex_tasks x = [(t, ConsoleServer e)]" and n: "length (pending (endpoints (kern w) e)) < Suc n"
  shows "\<exists>x' w'. run_ready_tasks k (kernel_poll (Suc n) m dev) x w = Some (Inr ([t], x', w'))
    \<and> (\<forall>fuel. run_ready_tasks fuel (kernel_poll (Suc n) m dev) x' w' = None)"
proof -
  let ?w = "on_kernel (\<lambda>s. s\<lparr>overflowed := False\<rparr>) w"
  have "endpoints_ok (kern ?w)" using w(4) by (simp add: endpoints_ok_def)
  then obtain w' where w': "console_poll (Suc n) m dev e t ?w = Some (Inr w')"
      "endpoints (kern w') e = ReceiverWaiting (Task t)" "task_ready (kern w') = task_ready (kern w)" "\<not> overflowed (kern w')"
    using console_poll_prints [OF chip wait, of ?w e "Suc n" t] w n by auto
  let ?x = "x\<lparr>ex_tasks := AList.update t (ConsoleServer e) (ex_tasks x)\<rparr>"
  have st: "stuck t e ?x w'" using w w' x queue_cong [of w' w] by (simp add: stuck_def)
  have "run_ready_tasks fuel (kernel_poll (Suc n) m dev) ?x w' = None" for fuel
    using drain_diverges [of "stuck t e", OF stuck_step st] w'(4) by (simp add: run_ready_tasks_def)
  moreover have "run_ready_tasks k (kernel_poll (Suc n) m dev) x w = Some (Inr ([t], ?x, w'))"
    using w(3) w'(1) x by (simp add: run_ready_tasks_def poll_task_def kernel_poll_def del: console_poll.simps)
  ultimately show ?thesis by blast
qed

theorem overflow_recovery_hangs_witness:
  "\<exists>x' w'. run_ready_tasks 0 (kernel_poll 2 1 fifo_chip) \<lparr>next_task_id = 3, ex_tasks = [(2, ConsoleServer 0)]\<rparr>
      (on_kernel (\<lambda>s. s\<lparr>overflowed := True\<rparr>) (on_kernel (wake_task 2) hi_world)) = Some (Inr ([2], x', w'))
    \<and> (\<forall>fuel. run_ready_tasks fuel (kernel_poll 2 1 fifo_chip) x' w' = None)"
proof -
  let ?v = "on_kernel (wake_task 2) hi_world"
  let ?w = "on_kernel (\<lambda>s. s\<lparr>overflowed := True\<rparr>) ?v"
  have q: "queue_ok ?w" using wake_task_queue(1) [OF hi_world_simps(4), of 2] by (simp add: queue_ok_def)
  have "2 \<in> set (task_queue ?w)"
    using ring.push_singleton [of READY_QUEUE_CAPACITY "2 :: nat"]
    by (auto simp: task_queue_def wake_task_def READY_QUEUE_CAPACITY_def split: prod.splits bool.splits)
  moreover have "endpoints_ok (kern ?w)" "endpoints (kern ?w) 0 = hi_slot" using hi_world_simps(1,2) by (simp_all add: endpoints_ok_def)
  ultimately show ?thesis
    using overflow_recovery_hangs [OF fifo_chip_documented _ q, of 1 2 0 "\<lparr>next_task_id = 3, ex_tasks = [(2, ConsoleServer 0)]\<rparr>" 1 0]
    by (simp add: from_processes_def numeral_2_eq_2)
qed

end
