(* ===== verification/Pci.thy ===== *)
theory Pci
  imports Layout_Safe Block
begin

text \<open>
  \<^verbatim>\<open>kernel/src/arch/x86_64/pci.rs\<close>, and the discovery and set-up half of
  \<^verbatim>\<open>kernel/src/driver/virtio_blk.rs\<close> (\<^verbatim>\<open>VirtioBlk::new\<close> and \<^verbatim>\<open>init\<close>).  The PCI host bridge is a
  parameter: what configuration address \<^verbatim>\<open>a\<close> reads as, and what writing it does.  The device's
  registers are another: what a load answers, given every access made before it.  Arithmetic on
  machine integers panics when it overflows, as in the dev profile.
\<close>

subsection \<open>Configuration space\<close>

record 'c pci_host =
  cfg_read :: "'c \<Rightarrow> u32 \<Rightarrow> u32"
  cfg_write :: "u32 \<Rightarrow> u32 \<Rightarrow> 'c \<Rightarrow> 'c"

record pci_address =
  pa_bus :: u8
  pa_device :: u8
  pa_function :: u8

definition config_address :: "pci_address \<Rightarrow> u8 \<Rightarrow> u32" where
  "config_address a offset =
    0x80000000 OR push_bit 16 (ucast (pa_bus a)) OR push_bit 11 (ucast (pa_device a))
      OR push_bit 8 (ucast (pa_function a)) OR (ucast offset AND 0xFC)"

definition pci_read_u32 :: "'c pci_host \<Rightarrow> 'c \<Rightarrow> pci_address \<Rightarrow> u8 \<Rightarrow> u32" where
  "pci_read_u32 h c a offset = cfg_read h c (config_address a offset)"

definition pci_write_u16 :: "'c pci_host \<Rightarrow> pci_address \<Rightarrow> u8 \<Rightarrow> u16 \<Rightarrow> 'c \<Rightarrow> 'c" where
  "pci_write_u16 h a offset v c =
    (let dword_offset = offset AND NOT 3;
         shift = unat (offset AND 3) * 8;
         existing = pci_read_u32 h c a dword_offset;
         field = push_bit shift 0xFFFF;
         merged = (existing AND NOT field) OR push_bit shift (ucast v)
     in cfg_write h (config_address a dword_offset) merged c)"

definition pci_read_u16 :: "'c pci_host \<Rightarrow> 'c \<Rightarrow> pci_address \<Rightarrow> u8 \<Rightarrow> u16" where
  "pci_read_u16 h c a offset = ucast (drop_bit (unat (offset AND 3) * 8) (pci_read_u32 h c a (offset AND NOT 3)))"

definition pci_read_u8 :: "'c pci_host \<Rightarrow> 'c \<Rightarrow> pci_address \<Rightarrow> u8 \<Rightarrow> u8" where
  "pci_read_u8 h c a offset = ucast (drop_bit (unat (offset AND 3) * 8) (pci_read_u32 h c a (offset AND NOT 3)))"

definition vendor_id :: "'c pci_host \<Rightarrow> 'c \<Rightarrow> pci_address \<Rightarrow> u16" where
  "vendor_id h c a = pci_read_u16 h c a 0x00"

definition device_id :: "'c pci_host \<Rightarrow> 'c \<Rightarrow> pci_address \<Rightarrow> u16" where
  "device_id h c a = pci_read_u16 h c a 0x02"

definition header_type :: "'c pci_host \<Rightarrow> 'c \<Rightarrow> pci_address \<Rightarrow> u8" where
  "header_type h c a = pci_read_u8 h c a 0x0E"

definition command :: "'c pci_host \<Rightarrow> 'c \<Rightarrow> pci_address \<Rightarrow> u16" where
  "command h c a = pci_read_u16 h c a 0x04"

definition set_command :: "'c pci_host \<Rightarrow> pci_address \<Rightarrow> u16 \<Rightarrow> 'c \<Rightarrow> 'c" where
  "set_command h a v c = pci_write_u16 h a 0x04 v c"

definition pci_status :: "'c pci_host \<Rightarrow> 'c \<Rightarrow> pci_address \<Rightarrow> u16" where
  "pci_status h c a = pci_read_u16 h c a 0x06"

definition bar_raw :: "'c pci_host \<Rightarrow> 'c \<Rightarrow> pci_address \<Rightarrow> u8 \<Rightarrow> u32" where
  "bar_raw h c a index = pci_read_u32 h c a (0x10 + index * 4)"

subsection \<open>Devices\<close>

record pci_device =
  pd_address :: pci_address
  pd_vendor_id :: u16
  pd_device_id :: u16

definition mmio_bar_address :: "'c pci_host \<Rightarrow> 'c \<Rightarrow> pci_address \<Rightarrow> u8 \<Rightarrow> kpanic + u64" where
  "mmio_bar_address h c a index =
    (let raw = bar_raw h c a index in
     if raw AND 1 \<noteq> 0 then Inl ExpectFailed
     else
       (let is_64bit = drop_bit 1 raw AND 3 = 2;
            base_low = ucast (raw AND 0xFFFFFFF0)
        in if is_64bit then Inr (base_low OR push_bit 32 (ucast (bar_raw h c a (index + 1)))) else Inr base_low))"

definition enable_mmio_and_bus_master :: "'c pci_host \<Rightarrow> pci_address \<Rightarrow> 'c \<Rightarrow> 'c" where
  "enable_mmio_and_bus_master h a c = set_command h a (command h c a OR 2 OR 4) c"

text \<open>\<^verbatim>\<open>u8\<close> addition under overflow checks.\<close>

definition add_u8 :: "u8 \<Rightarrow> u8 \<Rightarrow> kpanic + u8" where
  "add_u8 x y = (if unat x + unat y < 256 then Inr (x + y) else Inl ArithmeticOverflow)"

text \<open>\<^verbatim>\<open>capabilities\<close> is the offset the iterator starts from, \<^verbatim>\<open>capability_next\<close> its step.\<close>

definition capabilities :: "'c pci_host \<Rightarrow> 'c \<Rightarrow> pci_address \<Rightarrow> u8" where
  "capabilities h c a = (if pci_status h c a AND 0x10 \<noteq> 0 then pci_read_u8 h c a 0x34 else 0)"

definition capability_next :: "'c pci_host \<Rightarrow> 'c \<Rightarrow> pci_address \<Rightarrow> u8 \<Rightarrow> kpanic + ((u8 \<times> u8) \<times> u8) option" where
  "capability_next h c a next =
    (if next = 0 then Inr None
     else sbind (add_u8 next 1) (\<lambda>link. Inr (Some ((pci_read_u8 h c a next, next), pci_read_u8 h c a link))))"

text \<open>The three nested loops of \<^verbatim>\<open>find_device\<close>, each returning what the one inside it found.\<close>

fun scan_functions :: "'c pci_host \<Rightarrow> 'c \<Rightarrow> u16 \<Rightarrow> u16 \<Rightarrow> nat \<Rightarrow> nat \<Rightarrow> nat list \<Rightarrow> pci_device option" where
  "scan_functions h c v d bus device [] = None"
| "scan_functions h c v d bus device (f # fs) =
    (let a = \<lparr>pa_bus = of_nat bus, pa_device = of_nat device, pa_function = of_nat f\<rparr>;
         vid = vendor_id h c a; did = device_id h c a
     in if vid = 0xFFFF then scan_functions h c v d bus device fs
        else if vid = v \<and> did = d then Some \<lparr>pd_address = a, pd_vendor_id = vid, pd_device_id = did\<rparr>
        else scan_functions h c v d bus device fs)"

fun scan_devices :: "'c pci_host \<Rightarrow> 'c \<Rightarrow> u16 \<Rightarrow> u16 \<Rightarrow> nat \<Rightarrow> nat list \<Rightarrow> pci_device option" where
  "scan_devices h c v d bus [] = None"
| "scan_devices h c v d bus (device # devices) =
    (let function_0 = \<lparr>pa_bus = of_nat bus, pa_device = of_nat device, pa_function = 0\<rparr> in
     if vendor_id h c function_0 = 0xFFFF then scan_devices h c v d bus devices
     else
       (let function_count = if header_type h c function_0 AND 0x80 \<noteq> 0 then 8 else 1 in
        case scan_functions h c v d bus device [0..<function_count] of
          Some x \<Rightarrow> Some x
        | None \<Rightarrow> scan_devices h c v d bus devices))"

fun scan_buses :: "'c pci_host \<Rightarrow> 'c \<Rightarrow> u16 \<Rightarrow> u16 \<Rightarrow> nat list \<Rightarrow> pci_device option" where
  "scan_buses h c v d [] = None"
| "scan_buses h c v d (bus # buses) =
    (case scan_devices h c v d bus [0..<32] of Some x \<Rightarrow> Some x | None \<Rightarrow> scan_buses h c v d buses)"

definition find_device :: "'c pci_host \<Rightarrow> 'c \<Rightarrow> u16 \<Rightarrow> u16 \<Rightarrow> pci_device option" where
  "find_device h c v d = scan_buses h c v d [0..<256]"

subsection \<open>virtio capabilities\<close>

definition VIRTIO_VENDOR_ID :: u16 where "VIRTIO_VENDOR_ID = 0x1AF4"
definition VIRTIO_BLK_DEVICE_ID :: u16 where "VIRTIO_BLK_DEVICE_ID = 0x1042"
definition PCI_CAP_ID_VENDOR_SPECIFIC :: u8 where "PCI_CAP_ID_VENDOR_SPECIFIC = 0x09"

record virtio_cap =
  cap_bar :: u8
  cap_off :: u32
  cap_length :: u32

text \<open>What the loop over the capabilities gathers.\<close>

record cap_scan =
  common_cap :: "virtio_cap option"
  notify_cap :: "virtio_cap option"
  notify_mult :: u32
  device_cap :: "virtio_cap option"
  bar_min_size :: "u32 list"

definition cap_scan_new :: cap_scan where
  "cap_scan_new = \<lparr>common_cap = None, notify_cap = None, notify_mult = 0, device_cap = None, bar_min_size = replicate 6 0\<rparr>"

text \<open>The body of the loop, for the vendor-specific capability at \<^term>\<open>at\<close>.\<close>

definition note_cap :: "'c pci_host \<Rightarrow> 'c \<Rightarrow> pci_address \<Rightarrow> u8 \<Rightarrow> cap_scan \<Rightarrow> kpanic + cap_scan" where
  "note_cap h c a at acc =
    sbind (add_u8 at 3) (\<lambda>o3. sbind (add_u8 at 4) (\<lambda>o4. sbind (add_u8 at 8) (\<lambda>o8. sbind (add_u8 at 12) (\<lambda>o12.
      let cfg_type = pci_read_u8 h c a o3;
          cap = \<lparr>cap_bar = pci_read_u8 h c a o4, cap_off = pci_read_u32 h c a o8, cap_length = pci_read_u32 h c a o12\<rparr>;
          bar = unat (cap_bar cap)
      in if bar \<ge> 6 then Inl IndexOutOfBounds
         else if unat (cap_off cap) + unat (cap_length cap) \<ge> 2 ^ 32 then Inl ArithmeticOverflow
         else
           (let acc = acc\<lparr>bar_min_size := (bar_min_size acc)[bar := max (bar_min_size acc ! bar) (cap_off cap + cap_length cap)]\<rparr> in
            if cfg_type = 1 then Inr (acc\<lparr>common_cap := Some cap\<rparr>)
            else if cfg_type = 2 then
              sbind (add_u8 at 16) (\<lambda>o16. Inr (acc\<lparr>notify_cap := Some cap, notify_mult := pci_read_u32 h c a o16\<rparr>))
            else if cfg_type = 4 then Inr (acc\<lparr>device_cap := Some cap\<rparr>)
            else Inr acc)))))"

fun scan_caps :: "nat \<Rightarrow> 'c pci_host \<Rightarrow> 'c \<Rightarrow> pci_address \<Rightarrow> u8 \<Rightarrow> cap_scan \<Rightarrow> cap_scan run" where
  "scan_caps 0 h c a next acc = None"
| "scan_caps (Suc n) h c a next acc =
    run_bind (Some (capability_next h c a next)) (\<lambda>item.
      case item of
        None \<Rightarrow> Some (Inr acc)
      | Some ((cap_id, at), next) \<Rightarrow>
          if cap_id \<noteq> PCI_CAP_ID_VENDOR_SPECIFIC then scan_caps n h c a next acc
          else run_bind (Some (note_cap h c a at acc)) (\<lambda>acc. scan_caps n h c a next acc))"

subsection \<open>Device registers\<close>

text \<open>
  The accesses made to the device's registers so far, oldest first, with their width in bytes; a
  load is answered by \<^term>\<open>dev\<close> from them.
\<close>

datatype mmio_access = MmioLoad nat u64 | MmioStore nat u64 u64

type_synonym mmio_device = "mmio_access list \<Rightarrow> nat \<Rightarrow> u64 \<Rightarrow> u64"

definition mmio_load :: "mmio_device \<Rightarrow> nat \<Rightarrow> u64 \<Rightarrow> mmio_access list \<Rightarrow> u64 \<times> mmio_access list" where
  "mmio_load dev width addr tr = (take_bit (8 * width) (dev tr width addr), tr @ [MmioLoad width addr])"

definition mmio_store :: "nat \<Rightarrow> u64 \<Rightarrow> u64 \<Rightarrow> mmio_access list \<Rightarrow> mmio_access list" where
  "mmio_store width addr v tr = tr @ [MmioStore width addr v]"

definition STATUS_ACKNOWLEDGE :: u64 where "STATUS_ACKNOWLEDGE = 1"
definition STATUS_DRIVER :: u64 where "STATUS_DRIVER = 2"
definition STATUS_FEATURES_OK :: u64 where "STATUS_FEATURES_OK = 8"
definition STATUS_DRIVER_OK :: u64 where "STATUS_DRIVER_OK = 4"
definition QUEUE_SIZE_CAP :: u64 where "QUEUE_SIZE_CAP = 8"

definition COMMON_DEVICE_FEATURE_SELECT :: u64 where "COMMON_DEVICE_FEATURE_SELECT = 0x00"
definition COMMON_DEVICE_FEATURE :: u64 where "COMMON_DEVICE_FEATURE = 0x04"
definition COMMON_GUEST_FEATURE_SELECT :: u64 where "COMMON_GUEST_FEATURE_SELECT = 0x08"
definition COMMON_GUEST_FEATURE :: u64 where "COMMON_GUEST_FEATURE = 0x0C"
definition COMMON_DEVICE_STATUS :: u64 where "COMMON_DEVICE_STATUS = 0x14"
definition COMMON_QUEUE_SELECT :: u64 where "COMMON_QUEUE_SELECT = 0x16"
definition COMMON_QUEUE_SIZE :: u64 where "COMMON_QUEUE_SIZE = 0x18"
definition COMMON_QUEUE_ENABLE :: u64 where "COMMON_QUEUE_ENABLE = 0x1C"
definition COMMON_QUEUE_NOTIFY_OFF :: u64 where "COMMON_QUEUE_NOTIFY_OFF = 0x1E"
definition COMMON_QUEUE_DESC :: u64 where "COMMON_QUEUE_DESC = 0x20"
definition COMMON_QUEUE_AVAIL :: u64 where "COMMON_QUEUE_AVAIL = 0x28"
definition COMMON_QUEUE_USED :: u64 where "COMMON_QUEUE_USED = 0x30"


text \<open>Waiting for the reset to finish.\<close>

fun await_reset :: "nat \<Rightarrow> mmio_device \<Rightarrow> u64 \<Rightarrow> mmio_access list \<Rightarrow> mmio_access list option" where
  "await_reset 0 dev common tr = None"
| "await_reset (Suc n) dev common tr =
    (case mmio_load dev 1 (common + COMMON_DEVICE_STATUS) tr of (v, tr) \<Rightarrow> if v \<noteq> 0 then await_reset n dev common tr else Some tr)"

definition negotiate :: "nat \<Rightarrow> mmio_device \<Rightarrow> u64 \<Rightarrow> mmio_access list \<Rightarrow> mmio_access list run" where
  "negotiate n dev common tr =
    (case await_reset n dev common (mmio_store 1 (common + COMMON_DEVICE_STATUS) 0 tr) of
       None \<Rightarrow> None
     | Some tr \<Rightarrow>
         (let tr = mmio_store 1 (common + COMMON_DEVICE_STATUS) STATUS_ACKNOWLEDGE tr;
              tr = mmio_store 1 (common + COMMON_DEVICE_STATUS) (STATUS_ACKNOWLEDGE OR STATUS_DRIVER) tr;
              tr = mmio_store 4 (common + COMMON_DEVICE_FEATURE_SELECT) 1 tr;
              (high_features, tr) = mmio_load dev 4 (common + COMMON_DEVICE_FEATURE) tr
          in if high_features AND 1 = 0 then Some (Inl ExpectFailed)
             else
               (let tr = mmio_store 4 (common + COMMON_GUEST_FEATURE_SELECT) 0 tr;
                    tr = mmio_store 4 (common + COMMON_GUEST_FEATURE) 0 tr;
                    tr = mmio_store 4 (common + COMMON_GUEST_FEATURE_SELECT) 1 tr;
                    tr = mmio_store 4 (common + COMMON_GUEST_FEATURE) 1 tr;
                    tr = mmio_store 1 (common + COMMON_DEVICE_STATUS) (STATUS_ACKNOWLEDGE OR STATUS_DRIVER OR STATUS_FEATURES_OK) tr;
                    (status, tr) = mmio_load dev 1 (common + COMMON_DEVICE_STATUS) tr
                in if status AND STATUS_FEATURES_OK = 0 then Some (Inl ExpectFailed) else Some (Inr tr))))"

text \<open>\<^verbatim>\<open>alloc_dma_frame\<close>: a fresh frame, zeroed; its address is also its alias in the direct map.\<close>

definition alloc_dma_frame :: "'pt mem \<Rightarrow> kpanic + (u64 \<times> 'pt mem)" where
  "alloc_dma_frame m =
    (case allocate_frame (falloc m) of
       (None, _) \<Rightarrow> Inl ExpectFailed
     | (Some frame, fa) \<Rightarrow> Inr (frame, m\<lparr>falloc := fa, pmem := mem_write frame (replicate 4096 0) (pmem m)\<rparr>))"

text \<open>
  Queue 0, given the three frames of its rings: its size and notification offset.  The driver asks
  for no interrupts in the ring itself, before it declares itself ready.
\<close>

definition VIRTQ_AVAIL_F_NO_INTERRUPT :: u16 where "VIRTQ_AVAIL_F_NO_INTERRUPT = 1"

definition setup_queue ::
  "mmio_device \<Rightarrow> u64 \<Rightarrow> u64 \<Rightarrow> u64 \<Rightarrow> u64 \<Rightarrow> 'pt mem \<Rightarrow> mmio_access list
    \<Rightarrow> kpanic + ((u64 \<times> u64) \<times> 'pt mem \<times> mmio_access list)" where
  "setup_queue dev common desc avail used m tr =
    (let tr = mmio_store 2 (common + COMMON_QUEUE_SELECT) 0 tr;
         (max_queue_size, tr) = mmio_load dev 2 (common + COMMON_QUEUE_SIZE) tr
     in if max_queue_size < 3 then Inl ExpectFailed
        else
          (let queue_size = min max_queue_size QUEUE_SIZE_CAP;
               tr = mmio_store 2 (common + COMMON_QUEUE_SIZE) queue_size tr;
               tr = mmio_store 8 (common + COMMON_QUEUE_DESC) desc tr;
               tr = mmio_store 8 (common + COMMON_QUEUE_AVAIL) avail tr;
               tr = mmio_store 8 (common + COMMON_QUEUE_USED) used tr;
               (queue_notify_off, tr) = mmio_load dev 2 (common + COMMON_QUEUE_NOTIFY_OFF) tr;
               tr = mmio_store 2 (common + COMMON_QUEUE_ENABLE) 1 tr;
               m = m\<lparr>pmem := mmio_write16 avail VIRTQ_AVAIL_F_NO_INTERRUPT (pmem m)\<rparr>;
               tr = mmio_store 1 (common + COMMON_DEVICE_STATUS)
                      (STATUS_ACKNOWLEDGE OR STATUS_DRIVER OR STATUS_FEATURES_OK OR STATUS_DRIVER_OK) tr
           in Inr ((queue_size, queue_notify_off), m, tr)))"

subsection \<open>Setting the driver up\<close>

text \<open>One window per base address register some capability needs, the window of register \<^term>\<open>i\<close> at \<^term>\<open>i\<close>.\<close>

fun map_bars :: "'pt paging \<Rightarrow> 'c pci_host \<Rightarrow> 'c \<Rightarrow> pci_address \<Rightarrow> (nat \<times> u32) list \<Rightarrow> 'pt mem \<Rightarrow> kpanic + (u64 option list \<times> 'pt mem)" where
  "map_bars pg h c a [] m = Inr ([], m)"
| "map_bars pg h c a ((i, n) # bars) m =
    (if n = 0 then sbind (map_bars pg h c a bars m) (\<lambda>(vs, m). Inr (None # vs, m))
     else
       sbind (mmio_bar_address h c a (of_nat i)) (\<lambda>phys_base.
       sbind (map_bar pg phys_base i (unat n) m) (\<lambda>(v, m).
       sbind (map_bars pg h c a bars m) (\<lambda>(vs, m). Inr (Some v # vs, m)))))"

definition resolve :: "u64 option list \<Rightarrow> virtio_cap \<Rightarrow> kpanic + u64" where
  "resolve bar_vbase cap =
    (case bar_vbase ! unat (cap_bar cap) of None \<Rightarrow> Inl ExpectFailed | Some v \<Rightarrow> Inr (v + ucast (cap_off cap)))"

definition expect :: "'a option \<Rightarrow> kpanic + 'a" where
  "expect x = (case x of None \<Rightarrow> Inl ExpectFailed | Some v \<Rightarrow> Inr v)"

text \<open>The addresses of the three register blocks: common configuration, notification, device configuration.\<close>

definition locate_blocks ::
  "'pt paging \<Rightarrow> 'c pci_host \<Rightarrow> 'c \<Rightarrow> pci_address \<Rightarrow> cap_scan \<Rightarrow> 'pt mem \<Rightarrow> kpanic + ((u64 \<times> u64 \<times> u64) \<times> 'pt mem)" where
  "locate_blocks pg h c a caps m =
    sbind (expect (common_cap caps)) (\<lambda>common.
    sbind (expect (notify_cap caps)) (\<lambda>notify.
    sbind (expect (device_cap caps)) (\<lambda>device_cfg.
    sbind (map_bars pg h c a (enumerate 0 (bar_min_size caps)) m) (\<lambda>(bar_vbase, m).
    sbind (resolve bar_vbase common) (\<lambda>common_cfg.
    sbind (resolve bar_vbase notify) (\<lambda>notify_base.
    sbind (resolve bar_vbase device_cfg) (\<lambda>device_cfg_addr.
      Inr ((common_cfg, notify_base, device_cfg_addr), m))))))))"

text \<open>From the negotiation on: \<^verbatim>\<open>new\<close> once it knows where the registers are.\<close>

definition bring_up ::
  "nat \<Rightarrow> mmio_device \<Rightarrow> u64 \<times> u64 \<times> u64 \<Rightarrow> u32 \<Rightarrow> 'pt mem \<Rightarrow> mmio_access list \<Rightarrow> (virtio_blk \<times> 'pt mem \<times> mmio_access list) run" where
  "bring_up n dev blocks mult m tr =
    (case blocks of (common_cfg, nbase, device_cfg_addr) \<Rightarrow>
      run_bind (negotiate n dev common_cfg tr) (\<lambda>tr.
      run_bind (Some (alloc_dma_frame m)) (\<lambda>(desc, m).
      run_bind (Some (alloc_dma_frame m)) (\<lambda>(avail, m).
      run_bind (Some (alloc_dma_frame m)) (\<lambda>(used, m).
      run_bind (Some (setup_queue dev common_cfg desc avail used m tr)) (\<lambda>((qsize, qnotify), m, tr).
      case mmio_load dev 8 device_cfg_addr tr of (nsectors, tr) \<Rightarrow>
      run_bind (Some (alloc_dma_frame m)) (\<lambda>(header, m).
      run_bind (Some (alloc_dma_frame m)) (\<lambda>(data, m).
      run_bind (Some (alloc_dma_frame m)) (\<lambda>(status, m).
        Some (Inr (\<lparr>notify_base = nbase, notify_off_multiplier = mult, queue_notify_off = ucast qnotify,
          capacity_sectors = nsectors, vq_desc = desc, vq_avail = avail, vq_used = used, queue_size = ucast qsize,
          header_phys = header, header_virt = header, data_phys = data, data_virt = data,
          status_phys = status, status_virt = status\<rparr>, m, tr)))))))))))"

definition virtio_new ::
  "nat \<Rightarrow> 'pt paging \<Rightarrow> 'c pci_host \<Rightarrow> mmio_device \<Rightarrow> 'c \<Rightarrow> pci_address \<Rightarrow> 'pt mem \<Rightarrow> mmio_access list
    \<Rightarrow> (virtio_blk \<times> 'pt mem \<times> mmio_access list) run" where
  "virtio_new n pg h dev c a m tr =
    run_bind (scan_caps n h c a (capabilities h c a) cap_scan_new) (\<lambda>caps.
    run_bind (Some (locate_blocks pg h c a caps m)) (\<lambda>(blocks, m).
      bring_up n dev blocks (notify_mult caps) m tr))"

text \<open>\<^verbatim>\<open>init\<close>: \<^term>\<open>None\<close> inside the result is its \<^verbatim>\<open>Err\<close>, no such device.\<close>

definition virtio_init ::
  "nat \<Rightarrow> 'pt paging \<Rightarrow> 'c pci_host \<Rightarrow> mmio_device \<Rightarrow> 'c \<Rightarrow> 'pt mem \<Rightarrow> (virtio_blk option \<times> 'c \<times> 'pt mem \<times> mmio_access list) run" where
  "virtio_init n pg h dev c m =
    (case find_device h c VIRTIO_VENDOR_ID VIRTIO_BLK_DEVICE_ID of
       None \<Rightarrow> Some (Inr (None, c, m, []))
     | Some d \<Rightarrow>
         (let a = pd_address d; c = enable_mmio_and_bus_master h a c in
          run_bind (Some (mmio_bar_address h c a 1)) (\<lambda>bar1.
          run_bind (Some (mmio_bar_address h c a 4)) (\<lambda>bar4.
          run_bind (virtio_new n pg h dev c a m []) (\<lambda>(blk, m, tr). Some (Inr (Some blk, c, m, tr)))))))"

subsection \<open>Finding a device\<close>

text \<open>
  The functions that exist, in the order of bus, device and function: those of a device whose
  function 0 answers, the others only if it says it has more than one.
\<close>

definition function_at :: "nat \<Rightarrow> nat \<Rightarrow> nat \<Rightarrow> pci_address" where
  "function_at bus device f = \<lparr>pa_bus = of_nat bus, pa_device = of_nat device, pa_function = of_nat f\<rparr>"

definition device_functions :: "'c pci_host \<Rightarrow> 'c \<Rightarrow> nat \<Rightarrow> nat \<Rightarrow> pci_address list" where
  "device_functions h c bus device =
    (if vendor_id h c (function_at bus device 0) = 0xFFFF then []
     else map (function_at bus device) [0..<if header_type h c (function_at bus device 0) AND 0x80 \<noteq> 0 then 8 else 1])"

definition all_functions :: "'c pci_host \<Rightarrow> 'c \<Rightarrow> pci_address list" where
  "all_functions h c = concat (map (\<lambda>bus. concat (map (device_functions h c bus) [0..<32])) [0..<256])"

definition the_device :: "'c pci_host \<Rightarrow> 'c \<Rightarrow> pci_address \<Rightarrow> pci_device" where
  "the_device h c a = \<lparr>pd_address = a, pd_vendor_id = vendor_id h c a, pd_device_id = device_id h c a\<rparr>"

abbreviation is_device :: "'c pci_host \<Rightarrow> 'c \<Rightarrow> u16 \<Rightarrow> u16 \<Rightarrow> pci_address \<Rightarrow> bool" where
  "is_device h c v d a \<equiv> vendor_id h c a = v \<and> device_id h c a = d"

lemma find_append: "List.find P (xs @ ys) = (case List.find P xs of None \<Rightarrow> List.find P ys | Some x \<Rightarrow> Some x)"
  by (induction xs) auto

lemma scan_functions_find:
  assumes "v \<noteq> 0xFFFF"
  shows "scan_functions h c v d bus device fs
    = map_option (the_device h c) (List.find (is_device h c v d) (map (function_at bus device) fs))"
  using assms by (induction fs) (auto simp: Let_def the_device_def function_at_def)

lemma scan_devices_find:
  assumes "v \<noteq> 0xFFFF"
  shows "scan_devices h c v d bus devices
    = map_option (the_device h c) (List.find (is_device h c v d) (concat (map (device_functions h c bus) devices)))"
proof (induction devices)
  case (Cons x xs)
  have f0: "function_at bus x 0 = \<lparr>pa_bus = of_nat bus, pa_device = of_nat x, pa_function = 0\<rparr>"
    by (simp add: function_at_def)
  show ?case
    using Cons.IH
    by (simp add: device_functions_def f0 Let_def find_append scan_functions_find [OF assms] split: option.splits)
qed simp

lemma scan_buses_find:
  assumes "v \<noteq> 0xFFFF"
  shows "scan_buses h c v d buses = map_option (the_device h c)
    (List.find (is_device h c v d) (concat (map (\<lambda>bus. concat (map (device_functions h c bus) [0..<32])) buses)))"
  by (induction buses) (auto simp: scan_devices_find [OF assms] find_append simp del: upt_Suc split: option.splits)

subsection \<open>Walking the capabilities\<close>






subsection \<open>Enabling the device\<close>

text \<open>
  The command register shares its double word with the status register, whose bits are cleared by
  writing ones: enabling the device writes the status bits back as they were read.
\<close>

lemma enable_writes_status_back:
  "enable_mmio_and_bus_master h a c = cfg_write h (config_address a 4) (pci_read_u32 h c a 4 OR 6) c"
proof -
  have m: "(0xFFFF :: u32) = mask 16" "(6 :: u32) = ucast (6 :: u16)" "(2 OR 4 :: u16) = 6"
    by (simp_all add: mask_eq_exp_minus_1)
  have "(x AND NOT (mask 16)) OR ucast (ucast x OR (6 :: u16)) = x OR ucast (6 :: u16)" for x :: u32
    by (rule bit_word_eqI) (auto simp only: bit_simps possible_bit_word len_num1 len_bit0 len_bit1 dest: bit_imp_le_length)
  then have "(x AND NOT 0xFFFF) OR ucast (ucast x OR 2 OR 4 :: u16) = x OR 6" for x :: u32
    by (simp only: m)
  then show ?thesis
    by (simp add: enable_mmio_and_bus_master_def set_command_def command_def pci_write_u16_def pci_read_u16_def Let_def)
qed

subsection \<open>Bringing the device up\<close>


fun stores :: "mmio_access list \<Rightarrow> (u64 \<times> u64) list" where
  "stores [] = []"
| "stores (MmioLoad n a # tr) = stores tr"
| "stores (MmioStore n a v # tr) = (a, v) # stores tr"

lemma stores_append [simp]: "stores (xs @ ys) = stores xs @ stores ys"
  by (induction xs rule: stores.induct) auto

lemma stores_loads [simp]: "stores (replicate j (MmioLoad n a)) = []"
  by (induction j) auto






subsection \<open>Properties\<close>

text \<open>
  C36. \<^verbatim>\<open>find_device\<close> returns the first function, in the order of bus, device and function, among
  those that exist whose vendor and device numbers are the ones asked for, and nothing if no
  function has them.
\<close>

theorem find_device_first:
  assumes "v \<noteq> 0xFFFF"
  shows "find_device h c v d = map_option (the_device h c) (List.find (is_device h c v d) (all_functions h c))"
  unfolding find_device_def all_functions_def by (rule scan_buses_find [OF assms])

text \<open>A machine whose only device is a virtio disk at bus 0, device 0.\<close>

definition disk_host :: "unit pci_host" where
  "disk_host = \<lparr>cfg_read = (\<lambda>_ addr. if addr = 0x80000000 then 0x10421AF4 else 0xFFFFFFFF), cfg_write = (\<lambda>_ _ _. ())\<rparr>"

theorem find_device_first_witness:
  "find_device disk_host () 0x1AF4 0x1042 = Some \<lparr>pd_address = function_at 0 0 0, pd_vendor_id = 0x1AF4, pd_device_id = 0x1042\<rparr>"
proof -
  have v: "vendor_id disk_host () (function_at 0 0 0) = 0x1AF4" "device_id disk_host () (function_at 0 0 0) = 0x1042"
    by (simp_all add: vendor_id_def device_id_def pci_read_u16_def pci_read_u32_def config_address_def function_at_def disk_host_def)
  have "\<exists>xs. all_functions disk_host () = function_at 0 0 0 # xs"
    by (simp add: all_functions_def device_functions_def v upt_conv_Cons [of 0] del: upt_Suc upt_rec_numeral)
  then show ?thesis using find_device_first [where v = "0x1AF4" and d = "0x1042" and h = disk_host] v by (auto simp: the_device_def)
qed














end
