(* ===== verification/Runtime.thy ===== *)
theory Runtime
  imports Entry Smp
begin

text \<open>
  The boundary between processes and the kernel, from both sides: \<^verbatim>\<open>libs/tarnos-rt/src/syscall.rs\<close>
  and \<^verbatim>\<open>heap.rs\<close>, the runtime every TarnOS program links, and what the kernel's entry points give
  back to a process.  A wrapper is the registers it loads before \<^verbatim>\<open>syscall\<close> and how it reads them
  afterwards; a register file is a \<^verbatim>\<open>trap_frame\<close>, since that is what the kernel's entry stub saves.
\<close>

subsection \<open>The wrappers: loading registers\<close>

definition rt_sys_yield :: "trap_frame \<Rightarrow> trap_frame" where
  "rt_sys_yield f = f\<lparr>rax := SYS_YIELD\<rparr>"

definition rt_sys_send :: "cap_index \<Rightarrow> message \<Rightarrow> trap_frame \<Rightarrow> trap_frame" where
  "rt_sys_send cap m f = f\<lparr>rax := SYS_SEND, rdi := ucast (cap_raw cap), rsi := msg_tag m,
    rdx := msg_words m ! 0, r10 := msg_words m ! 1, r8 := msg_words m ! 2, r9 := msg_words m ! 3\<rparr>"

definition rt_sys_recv :: "cap_index \<Rightarrow> trap_frame \<Rightarrow> trap_frame" where
  "rt_sys_recv cap f = f\<lparr>rax := SYS_RECV, rdi := ucast (cap_raw cap)\<rparr>"

definition rt_sys_spawn :: "bytes \<Rightarrow> trap_frame \<Rightarrow> trap_frame" where
  "rt_sys_spawn name f =
    (case pack_short_name name of (lo, hi, n) \<Rightarrow> f\<lparr>rax := SYS_SPAWN, rdi := lo, rsi := hi, rdx := n\<rparr>)"

definition rt_sys_grant :: "u64 \<Rightarrow> cap_index \<Rightarrow> cap_index \<Rightarrow> rights \<Rightarrow> trap_frame \<Rightarrow> trap_frame" where
  "rt_sys_grant target_pid src_cap dest_cap granted f =
    f\<lparr>rax := SYS_GRANT, rdi := target_pid, rsi := ucast (cap_raw src_cap), rdx := ucast (cap_raw dest_cap),
      r10 := ucast granted\<rparr>"

definition rt_sys_process_start :: "u64 \<Rightarrow> trap_frame \<Rightarrow> trap_frame" where
  "rt_sys_process_start target_pid f = f\<lparr>rax := SYS_PROCESS_START, rdi := target_pid\<rparr>"

definition rt_sys_wait :: "u64 \<Rightarrow> trap_frame \<Rightarrow> trap_frame" where
  "rt_sys_wait target_pid f = f\<lparr>rax := SYS_WAIT, rdi := target_pid\<rparr>"

definition rt_sys_kill :: "u64 \<Rightarrow> trap_frame \<Rightarrow> trap_frame" where
  "rt_sys_kill target_pid f = f\<lparr>rax := SYS_KILL, rdi := target_pid\<rparr>"

definition rt_sys_sbrk :: "u64 \<Rightarrow> trap_frame \<Rightarrow> trap_frame" where
  "rt_sys_sbrk increment f = f\<lparr>rax := SYS_SBRK, rdi := increment\<rparr>"

definition rt_sys_block_read :: "cap_index \<Rightarrow> u64 \<Rightarrow> u64 \<Rightarrow> u64 \<Rightarrow> trap_frame \<Rightarrow> trap_frame" where
  "rt_sys_block_read cap lba buf sector_count f =
    f\<lparr>rax := SYS_BLOCK_READ, rdi := ucast (cap_raw cap), rsi := lba, rdx := buf, r10 := sector_count, r8 := 0, r9 := 0\<rparr>"

definition rt_sys_file_read :: "cap_index \<Rightarrow> bytes \<Rightarrow> u64 \<Rightarrow> u64 \<Rightarrow> trap_frame \<Rightarrow> trap_frame" where
  "rt_sys_file_read cap name buf buf_len f =
    (case pack_short_name name of (lo, hi, n) \<Rightarrow>
       f\<lparr>rax := SYS_FILE_READ, rdi := ucast (cap_raw cap), rsi := lo, rdx := hi, r10 := n, r8 := buf, r9 := buf_len\<rparr>)"

text \<open>\<^verbatim>\<open>code as u64\<close> extends the sign of the \<^verbatim>\<open>i32\<close>.\<close>

definition rt_sys_exit :: "u32 \<Rightarrow> trap_frame \<Rightarrow> trap_frame" where
  "rt_sys_exit code f = f\<lparr>rax := SYS_EXIT, rdi := scast code\<rparr>"

subsection \<open>The wrappers: reading results\<close>

text \<open>
  The test \<^verbatim>\<open>retval < 0\<close> on an \<^verbatim>\<open>i64\<close>, which every wrapper makes; what it returns otherwise depends
  on the call: nothing, the value itself, a message, or an exit status.
\<close>

definition rt_result :: "(trap_frame \<Rightarrow> 'a) \<Rightarrow> trap_frame \<Rightarrow> syscall_error + 'a" where
  "rt_result value f = (if bit (rax f) 63 then Inl (from_retval (rax f)) else Inr (value f))"

definition rt_unit :: "trap_frame \<Rightarrow> syscall_error + unit" where
  "rt_unit = rt_result (\<lambda>_. ())"

definition rt_value :: "trap_frame \<Rightarrow> syscall_error + u64" where
  "rt_value = rt_result rax"

definition rt_recv_result :: "trap_frame \<Rightarrow> syscall_error + message" where
  "rt_recv_result = rt_result (\<lambda>f. \<lparr>msg_tag = rdi f, msg_words = [rsi f, rdx f, r10 f, 0]\<rparr>)"

definition rt_wait_result :: "trap_frame \<Rightarrow> syscall_error + exit_status" where
  "rt_wait_result = rt_result (\<lambda>f. from_regs (rdi f) (rsi f))"

subsection \<open>The program's heap\<close>

text \<open>
  \<^verbatim>\<open>UserHeap\<close>: the allocator that manages the memory is a library, known here by the region it was
  given with \<^verbatim>\<open>init\<close> and enlarged with \<^verbatim>\<open>extend\<close>.  \<^term>\<open>sbrk\<close> is the wrapper of the call;
  \<^term>\<open>fit\<close> is \<^verbatim>\<open>allocate_first_fit\<close> over the region.
\<close>

record user_heap =
  heap_initialized :: bool
  heap_bottom :: u64
  heap_bytes :: nat

definition MIN_GROW_BYTES :: nat where "MIN_GROW_BYTES = 16 * 1024"

definition user_heap_new :: user_heap where
  "user_heap_new = \<lparr>heap_initialized = False, heap_bottom = 0, heap_bytes = 0\<rparr>"

definition user_heap_grow ::
  "(u64 \<Rightarrow> 's \<Rightarrow> (syscall_error + u64) \<times> 's) \<Rightarrow> nat \<Rightarrow> user_heap \<Rightarrow> 's \<Rightarrow> bool \<times> user_heap \<times> 's" where
  "user_heap_grow sbrk min_bytes h s =
    (case sbrk (of_nat min_bytes) s of
       (Inl e, s) \<Rightarrow> (False, h, s)
     | (Inr old_end, s) \<Rightarrow>
         (True, if heap_initialized h then h\<lparr>heap_bytes := heap_bytes h + min_bytes\<rparr>
                else \<lparr>heap_initialized = True, heap_bottom = old_end, heap_bytes = min_bytes\<rparr>, s))"

definition user_heap_alloc ::
  "(user_heap \<Rightarrow> nat \<Rightarrow> u64 option) \<Rightarrow> (u64 \<Rightarrow> 's \<Rightarrow> (syscall_error + u64) \<times> 's) \<Rightarrow> nat \<Rightarrow> user_heap \<Rightarrow> 's
    \<Rightarrow> u64 option \<times> user_heap \<times> 's" where
  "user_heap_alloc fit sbrk n h s =
    (case fit h n of
       Some p \<Rightarrow> (Some p, h, s)
     | None \<Rightarrow>
         (case user_heap_grow sbrk (max n MIN_GROW_BYTES) h s of
            (False, h, s) \<Rightarrow> (None, h, s)
          | (True, h, s) \<Rightarrow> (fit h n, h, s)))"

text \<open>
  The comment in \<^verbatim>\<open>grow\<close>: the memory of a later call directly follows what the allocator has, if
  each call returns the break the one before it set.
\<close>

lemma user_heap_contiguous:
  assumes sbrk: "\<And>n s. case sbrk n s of (Inl _, s') \<Rightarrow> brk s' = brk s | (Inr old, s') \<Rightarrow> old = brk s \<and> brk s' = brk s + n"
    and inv: "heap_initialized h \<longrightarrow> brk s = heap_bottom h + of_nat (heap_bytes h)"
    and grow: "user_heap_grow sbrk n h s = (b, h', s')"
  shows "heap_initialized h' \<longrightarrow> brk s' = heap_bottom h' + of_nat (heap_bytes h')"
    and "b \<longrightarrow> heap_initialized h' \<and> heap_bytes h' \<ge> n"
proof -
  obtain r t where r: "sbrk (of_nat n) s = (r, t)" by fastforce
  show "heap_initialized h' \<longrightarrow> brk s' = heap_bottom h' + of_nat (heap_bytes h')"
    and "b \<longrightarrow> heap_initialized h' \<and> heap_bytes h' \<ge> n"
    using sbrk [of s "of_nat n"] inv grow r by (auto simp: user_heap_grow_def split: sum.splits if_splits)
qed

subsection \<open>What the kernel gives back\<close>

text \<open>The registers a call may change: its results.\<close>

definition result_frame :: "u64 \<Rightarrow> trap_frame \<Rightarrow> trap_frame \<Rightarrow> bool" where
  "result_frame n f g \<longleftrightarrow>
    (if n = SYS_RECV then g = f\<lparr>rax := rax g, rdi := rdi g, rsi := rsi g, rdx := rdx g, r10 := r10 g\<rparr>
     else if n = SYS_WAIT then g = f\<lparr>rax := rax g, rdi := rdi g, rsi := rsi g\<rparr>
     else g = f\<lparr>rax := rax g\<rparr>)"

lemma result_frame_rax [simp]: "result_frame n f (f\<lparr>rax := v\<rparr>)"
  by (simp add: result_frame_def)

text \<open>
  Where a core may resume: the frame it was entered with, as far as \<^term>\<open>P\<close> allows it to differ, a
  saved frame that has passed the checks of \<^verbatim>\<open>switch_to\<close>, or not in a process at all.
\<close>

definition user_resume :: "(trap_frame \<Rightarrow> bool) \<Rightarrow> resume \<times> 'pt kernel \<Rightarrow> bool" where
  "user_resume P x \<longleftrightarrow>
    (case x of
       (ResumeFrame g, s) \<Rightarrow> P g
     | (ResumeSlot i, s) \<Rightarrow> frame_check s (trap_frames s ! i) = None
     | _ \<Rightarrow> True)"

lemma user_resume_simps [simp]:
  "user_resume P (ResumeFrame g, s) = P g" "user_resume P (EnterIdle, s)" "user_resume P (HaltForever, s)"
  "user_resume P (ResumeSlot i, s) \<longleftrightarrow> frame_check s (trap_frames s ! i) = None"
  by (simp_all add: user_resume_def)

text \<open>\<^verbatim>\<open>switch_to\<close> hands out a slot only after checking its frame.\<close>

lemma switch_to_checked: "switch_to core p s = Inr (i, s') \<Longrightarrow> frame_check s' (trap_frames s' ! i) = None"
  by (auto simp: switch_to_def Let_def split: if_splits table_slot.splits option.splits)

lemma switch_to_next_typed: "switch_to_next_or_halt pg core out ds s = Inr x \<Longrightarrow> user_resume P x"
proof (cases "ring_pop (ready s)")
  case (Pair v q)
  assume r: "switch_to_next_or_halt pg core out ds s = Inr x"
  show ?thesis
  proof (cases v)
    case None
    then show ?thesis
      using r Pair by (auto simp: switch_to_next_or_halt_def abandon_process_stack_and_idle_def sbind_Inr_iff)
  next
    case (Some p)
    then obtain i s1 s2 where s1: "switch_to core p (s\<lparr>ready := q\<rparr>) = Inr (i, s1)" "drop_boxes pg ds s1 = Inr s2"
      and x: "x = (ResumeSlot i, clear_outgoing out s2)"
      using r Pair by (auto simp: switch_to_next_or_halt_def finish_switch_def sbind_Inr_iff)
    have "frame_check (clear_outgoing out s2) f = frame_check s1 f" for f
      using drop_boxes_fields [OF s1(2)] by (intro frame_check_cong) simp_all
    then show ?thesis using switch_to_checked [OF s1(1)] drop_boxes_fields [OF s1(2)] x by simp
  qed
qed

lemma block_typed: "block_current_process pg core f s = Inr x \<Longrightarrow> user_resume P x"
  by (auto simp: block_current_process_def sbind_Inr_iff intro: switch_to_next_typed)

lemma terminate_typed: "terminate_current_process pg core st s = Inr x \<Longrightarrow> user_resume P x"
  by (auto simp: terminate_current_process_def sbind_Inr_iff split: option.splits if_splits intro: switch_to_next_typed)

lemma tick_typed:
  assumes "on_timer_tick core f s = Inr x" "P f"
  shows "user_resume P x"
proof -
  obtain s1 where s1: "(case ring_pop (ready s1) of
        (Some next, q) \<Rightarrow> sbind (switch_to core next (s1\<lparr>ready := q\<rparr>)) (\<lambda>(i, s). Inr (ResumeSlot i, s))
      | (None, q) \<Rightarrow> Inr (ResumeFrame f, s1\<lparr>ready := q\<rparr>)) = Inr x"
    using assms(1) unfolding on_timer_tick_def sbind_Inr_iff by blast
  then show ?thesis
    using assms(2) by (auto simp: sbind_Inr_iff switch_to_checked split: prod.splits option.splits)
qed

lemma reschedule_typed: "on_reschedule_ipi pg core f s = Inr x \<Longrightarrow> P f \<Longrightarrow> user_resume P x"
  by (auto simp: on_reschedule_ipi_def Let_def split: if_splits intro: switch_to_next_typed)

lemma wait_typed:
  assumes "wait_for_child pg core f target caller s = Inr x"
  shows "user_resume (result_frame SYS_WAIT f) x"
  using assms
  by (auto simp: wait_for_child_def Let_def result_frame_def sys_numbers sbind_Inr_iff
      split: if_splits wait_outcome.splits prod.splits table_slot.splits intro: switch_to_next_typed)

lemma return_to_typed:
  "return_to f m s = Some (Inr x) \<Longrightarrow> n \<noteq> SYS_RECV \<Longrightarrow> n \<noteq> SYS_WAIT \<Longrightarrow> user_resume (result_frame n f) x"
  by (auto simp: return_to_def result_frame_def split: option.splits sum.splits)

lemma send_typed:
  assumes "sys_send pg core f s = Some (Inr x)"
  shows "user_resume (result_frame SYS_SEND f) x"
proof -
  obtain r s1 where r: "resolve_endpoint core (CapIndex (ucast (rdi f))) R_SEND s = Some (Inr (r, s1))"
    using assms by (auto simp: sys_send_def split: option.splits sum.splits)
  show ?thesis
  proof (cases r)
    case (Inr ep)
    obtain q s2 where "endpoint_try_send (fst ep) (send_message f) (snd ep) s1 = Inr (q, s2)"
      using assms r Inr by (auto simp: sys_send_def sbind_Inr_iff split: prod.splits)
    then show ?thesis
      using assms r Inr by (cases q) (auto simp: sys_send_def result_frame_def sys_numbers split: prod.splits intro: block_typed)
  qed (use assms r in \<open>auto simp: sys_send_def result_frame_def sys_numbers\<close>)
qed

lemma recv_typed:
  assumes "sys_recv pg core f s = Some (Inr x)"
  shows "user_resume (result_frame SYS_RECV f) x"
proof -
  obtain r s1 where r: "resolve_endpoint core (CapIndex (ucast (rdi f))) R_RECV s = Some (Inr (r, s1))"
    using assms by (auto simp: sys_recv_def split: option.splits sum.splits)
  show ?thesis
  proof (cases r)
    case (Inr ep)
    obtain q s2 where "endpoint_try_recv (fst ep) (snd ep) s1 = Inr (q, s2)"
      using assms r Inr by (auto simp: sys_recv_def sbind_Inr_iff split: prod.splits)
    then show ?thesis
      using assms r Inr by (cases q) (auto simp: sys_recv_def result_frame_def recv_frame_def split: prod.splits intro: block_typed)
  qed (use assms r in \<open>auto simp: sys_recv_def result_frame_def\<close>)
qed

lemma syscall_typed:
  assumes "syscall_dispatch pf core f s = Some (Inr x)"
  shows "user_resume (result_frame (rax f) f) x"
proof -
  have yield: "user_resume (result_frame SYS_YIELD f) x" if "on_syscall_yield core f s = Inr x"
    using tick_typed [of core f s x "result_frame SYS_YIELD f"] that
    by (simp add: on_syscall_yield_def result_frame_def sys_numbers)
  have wait: "user_resume (result_frame SYS_WAIT f) x" if "sys_wait (pf_paging pf) core f s = Some (Inr x)"
    using that wait_typed [of "pf_paging pf" core f "Pid (rdi f)" _ _ x]
    by (auto simp: sys_wait_def split: prod.splits option.splits)
  have plain: "user_resume (result_frame n f) x" if "n \<noteq> SYS_RECV" "n \<noteq> SYS_WAIT"
      "sys_spawn pf core f s = Some (Inr x) \<or> sys_grant core f s = Some (Inr x) \<or> sys_process_start core f s = Some (Inr x)
       \<or> sys_kill pf core f s = Some (Inr x) \<or> sys_sbrk (pf_paging pf) core f s = Some (Inr x)
       \<or> sys_block_read pf core f s = Some (Inr x) \<or> sys_file_read pf core f s = Some (Inr x)" for n
    using that(3)
    unfolding sys_spawn_def sys_grant_def sys_process_start_def sys_kill_def sys_sbrk_def sys_block_read_def
      sys_file_read_def Let_def
    by (elim disjE) (erule return_to_typed [OF _ that(1,2)])+
  have "SYS_SPAWN \<noteq> SYS_WAIT" "SYS_GRANT \<noteq> SYS_WAIT" "SYS_PROCESS_START \<noteq> SYS_WAIT" by (simp_all add: sys_numbers)
  then show ?thesis
    using assms yield wait plain [of "rax f"] send_typed [of _ core f s x] recv_typed [of _ core f s x]
      terminate_typed [of "pf_paging pf" core _ s x]
    by (auto simp: syscall_dispatch_def Let_def on_syscall_exit_def split: if_splits)
qed

lemma interrupt_typed:
  assumes "interrupt_entry pg core v f s = Inr (r, acks, s')"
  shows "user_resume (\<lambda>g. g = f) (r, s')"
  using assms
  by (auto simp: interrupt_entry_def Let_def fault_handler_defs irq_handler_defs with_acks_Inr
      split: option.splits gate.splits if_splits intro: tick_typed reschedule_typed terminate_typed)

subsection \<open>Granting\<close>

text \<open>What a grant that the kernel accepts has checked and done.\<close>

definition grant_allowed :: "process \<Rightarrow> pid \<Rightarrow> cap_index \<Rightarrow> rights \<Rightarrow> 'pt kernel \<Rightarrow> bool" where
  "grant_allowed proc target src req s \<longleftrightarrow>
    (case (captable_get (cap_table proc) src, occupied s target) of
       (Inr slot, Some child) \<Rightarrow>
         rights_contains (cap_rights slot) req \<and> parent child = Some (pid proc) \<and> pstate child = Suspended
     | _ \<Rightarrow> False)"

lemma put_process_same:
  assumes "occupied s p = Some proc"
  shows "put_process (pid_index p) proc s = s"
proof -
  obtain b where b: "processes s ! pid_index p = Occupied b proc" using occupied_SomeD(3) [OF assms] by blast
  then have "put_process (pid_index p) proc s = s\<lparr>processes := (processes s)[pid_index p := processes s ! pid_index p]\<rparr>"
    by (simp add: put_process_def)
  then show ?thesis by simp
qed

lemma grant_source_eq:
  assumes "current s ! core = Some p" "occupied s p = Some proc"
  shows "grant_source core src req s =
    (case captable_get (cap_table proc) src of
       Inl e \<Rightarrow> Some (Inr (Inl e, s))
     | Inr slot \<Rightarrow>
         if rights_contains (cap_rights slot) req then Some (Inr (Inr (cap_object slot, pid proc), s))
         else Some (Inr (Inl PermissionDenied, s)))"
  using assms put_process_same [OF assms(2)]
  by (simp add: grant_source_def on_current_def with_current_process_def with_process_def split: sum.splits)

lemma grant_into_eq:
  "grant_into target caller dest slot s =
    (case occupied s target of
       None \<Rightarrow> Some (Inr (Inl InvalidTarget, s))
     | Some child \<Rightarrow>
         if parent child = Some caller \<and> pstate child = Suspended
         then Some (Inr (Inr (), put_process (pid_index target) (child\<lparr>cap_table := captable_insert (cap_table child) dest slot\<rparr>) s))
         else Some (Inr (Inl InvalidTarget, s)))"
  using put_process_same [of s target]
  by (auto simp: grant_into_def with_process_def sys_err_def split: option.splits)

lemma rt_unit_rax [simp]: "rt_unit (f\<lparr>rax := as_retval e\<rparr>) = Inl e" "rt_unit (f\<lparr>rax := 0\<rparr>) = Inr ()"
  using wire_codes_roundtrip [of e] by (simp_all add: rt_unit_def rt_result_def)

subsection \<open>Properties\<close>

text \<open>
  C3. The authority a grant confers is exactly what the caller has: the call always returns; when
  the process that the core runs may not grant, it changes nothing; it may exactly when its own slot
  holds all the rights it passes on and the target is its own child, not yet started; and then only
  the one slot of that child's table changes, to the caller's object with the rights asked for.
\<close>

theorem grant_confers_only_own_rights:
  assumes cur: "current s ! core = Some p" "occupied s p = Some proc"
  shows "\<exists>g s'. sys_grant core (rt_sys_grant target src dst granted f) s = Some (Inr (ResumeFrame g, s'))
    \<and> (rt_unit g = Inr () \<longleftrightarrow> grant_allowed proc (Pid target) src (granted AND 7) s)
    \<and> s' = (case (captable_get (cap_table proc) src, occupied s (Pid target)) of
        (Inr slot, Some child) \<Rightarrow>
          if grant_allowed proc (Pid target) src (granted AND 7) s
          then put_process (pid_index (Pid target)) (child\<lparr>cap_table := captable_insert (cap_table child) dst
            \<lparr>cap_object = cap_object slot, cap_rights = granted AND 7\<rparr>\<rparr>) s
          else s
      | _ \<Rightarrow> s)"
proof -
  have args: "CapIndex (ucast (ucast (cap_raw c) :: u64)) = c" "rights_from_bits_truncate (ucast (ucast granted :: u64)) = granted AND 7" for c
    by (simp_all add: rights_from_bits_truncate_def ucast_up_ucast_id is_up)
  show ?thesis
    using grant_source_eq [OF cur, of src "granted AND 7"] grant_into_eq [of "Pid target" "pid proc" dst _ s]
    by (auto simp: sys_grant_def rt_sys_grant_def args return_to_def sys_bind_def sys_ok_def retval_def grant_allowed_def Let_def
        split: sum.splits option.splits if_splits)
qed

text \<open>Process 0 holds an endpoint with all rights; process 2 is its child, created and not started.\<close>

definition grant_parent :: process where
  "grant_parent = (sample_process 0 Running)\<lparr>cap_table := captable_insert captable_new (CapIndex 0) \<lparr>cap_object = KEndpoint 0, cap_rights = 7\<rparr>\<rparr>"

definition grant_child :: process where
  "grant_child = (sample_process 2 Suspended)\<lparr>parent := Some (pid_new 0 1)\<rparr>"

definition grant_kernel :: "flat_table kernel" where
  "grant_kernel = put_slot 2 (Occupied 2 grant_child) (put_slot 0 (Occupied 0 grant_parent) (set_current 0 (Some (pid_new 0 1)) two_core_base))"

lemma grant_kernel_fields:
  "current grant_kernel ! 0 = Some (pid_new 0 1)" "occupied grant_kernel (pid_new 0 1) = Some grant_parent"
  "occupied grant_kernel (pid_new 2 1) = Some grant_child"
proof -
  let ?b = "set_current 0 (Some (pid_new 0 1)) two_core_base"
  have M: "0 < MAX_PROCESSES" "2 < MAX_PROCESSES" "pid_new 0 1 \<noteq> pid_new 2 1" by (simp_all add: MAX_PROCESSES_def pid_new_def)
  have base: "table_ok ?b" "generations ?b = replicate MAX_PROCESSES 1"
    by (simp_all add: two_core_base_def kernel_init_def table_ok_def)
  show "occupied grant_kernel (pid_new 0 1) = Some grant_parent" "occupied grant_kernel (pid_new 2 1) = Some grant_child"
    using M base by (simp_all add: grant_kernel_def occupied_put_slot)
  show "current grant_kernel ! 0 = Some (pid_new 0 1)"
    by (simp add: grant_kernel_def two_core_base_def kernel_init_def MAX_CORES_def)
qed

theorem grant_confers_only_own_rights_witness:
  "\<exists>g s'. sys_grant 0 (rt_sys_grant (pid_raw (pid_new 2 1)) (CapIndex 0) (CapIndex 5) 1 zero_frame) grant_kernel = Some (Inr (ResumeFrame g, s'))
    \<and> rt_unit g = Inr ()"
proof -
  have "grant_allowed grant_parent (pid_new 2 1) (CapIndex 0) 1 grant_kernel"
    by (simp add: grant_allowed_def grant_kernel_fields grant_parent_def grant_child_def captable_get_insert rights_contains_def
        sample_process_def)
  then show ?thesis
    using grant_confers_only_own_rights [OF grant_kernel_fields(1,2), of "pid_raw (pid_new 2 1)" "CapIndex 0" "CapIndex 5" 1 zero_frame]
    by auto
qed

text \<open>
  C4. Whatever a process does, a core goes back to ring 3 only with registers of the right type: after
  a system call or an interrupt it resumes either a saved frame that has the user's code and data
  selectors and addresses in the lower half, or the very frame it was entered with; a system call
  changes in it only the result registers its wrapper declares, an interrupt none.
\<close>

theorem user_mode_resumed:
  "(syscall_dispatch pf core f s = Some (Inr (r, s')) \<longrightarrow> user_resume (result_frame (rax f) f) (r, s'))
   \<and> (interrupt_entry pg core v f s = Inr (r, acks, s') \<longrightarrow> user_resume (\<lambda>g. g = f) (r, s'))"
  using syscall_typed [of pf core f s "(r, s')"] interrupt_typed [of pg core v f s r acks s'] by blast

lemma two_cores_tick: "\<exists>s'. on_timer_tick 0 user_frame two_cores = Inr (ResumeSlot 2, s')"
proof -
  have i: "pid_index (pid_new 2 1) = 2" "pid_index (pid_new 0 1) = 0" "(0 :: nat) < MAX_CORES"
    by (simp_all add: MAX_PROCESSES_def MAX_CORES_def)
  have "(replicate MAX_PROCESSES user_frame)[0 := user_frame] ! 2 = user_frame" by (simp add: MAX_PROCESSES_def)
  then show ?thesis
    using tick_rotates [OF two_cores_inv i(3) two_cores_current(1) two_core_fields(1), of user_frame] two_cores_frames i by auto
qed

theorem user_mode_resumed_witness:
  "\<exists>pf :: flat_table platform. \<exists>r s'. syscall_dispatch pf 0 (rt_sys_yield user_frame) two_cores = Some (Inr (r, s'))
    \<and> user_resume (result_frame SYS_YIELD (rt_sys_yield user_frame)) (r, s')"
proof -
  let ?f = "rt_sys_yield user_frame"
  fix pf :: "flat_table platform"
  have f: "?f = user_frame" and ra: "rax user_frame = SYS_YIELD"
    by (simp_all add: rt_sys_yield_def user_frame_def zero_frame_def SYS_YIELD_def)
  obtain r s' where t: "on_timer_tick 0 user_frame two_cores = Inr (r, s')" using two_cores_tick by blast
  then have d: "syscall_dispatch pf 0 ?f two_cores = Some (Inr (r, s'))"
    by (simp add: f ra syscall_dispatch_def on_syscall_yield_def Let_def)
  have "rax ?f = SYS_YIELD" by (simp add: rt_sys_yield_def)
  then show ?thesis using user_mode_resumed [of pf 0 ?f two_cores r s'] d by metis
qed

text \<open>
  C26. Runtime and kernel agree on the wire: what a wrapper loads is what the handler reads (the
  message and capability of a send, the program name of a spawn, the capability, name and buffer of
  a file read, the exit code), and what the kernel stores is what the wrapper returns (errors, small
  values, an exit status).  One word is lost on the way: the fourth of a message is received as 0.
\<close>

theorem rt_kernel_roundtrip:
  assumes "message_wf m" "ascii_bytes name" "\<not> bit v 63"
  shows "send_message (rt_sys_send cap m f) = m \<and> CapIndex (ucast (rdi (rt_sys_send cap m f))) = cap
    \<and> (let g = rt_sys_spawn name f in unpack_short_name (rdi g) (rsi g) (rdx g) = take SHORT_NAME_MAX name)
    \<and> (let g = rt_sys_file_read cap name buf n f in CapIndex (ucast (rdi g)) = cap
        \<and> unpack_short_name (rsi g) (rdx g) (r10 g) = take SHORT_NAME_MAX name \<and> r8 g = buf \<and> r9 g = n)
    \<and> Exited (ucast (rdi (rt_sys_exit code f))) = Exited code
    \<and> rt_value (f\<lparr>rax := retval (Inl e)\<rparr>) = Inl e \<and> rt_value (f\<lparr>rax := retval (Inr v)\<rparr>) = Inr v
    \<and> rt_wait_result (wake_frame (WaitCompleted st) f) = Inr st
    \<and> rt_recv_result (recv_frame m f) = Inr (m\<lparr>msg_words := take 3 (msg_words m) @ [0]\<rparr>)
    \<and> rt_recv_result (wake_frame (recv_completed m) f) = rt_recv_result (recv_frame m f)"
proof -
  obtain a b c d where w: "msg_words m = [a, b, c, d]" 
    using assms(1) by (auto simp: message_wf_def MESSAGE_INLINE_WORDS_def numeral_eq_Suc length_Suc_conv)
  have idx: "CapIndex (ucast (ucast (cap_raw cap) :: u64)) = cap" by (simp add: ucast_up_ucast_id is_up)
  have code: "ucast (scast code :: u64) = code" by (rule bit_word_eqI) (auto simp: bit_simps)
  have pack: "(case pack_short_name name of (lo, hi, k) \<Rightarrow> unpack_short_name lo hi k) = take SHORT_NAME_MAX name"
    using pack_unpack_ascii [OF assms(2)] by (auto split: prod.split)
  show ?thesis
    using assms(3) w idx code pack wire_codes_roundtrip [of e st]
    by (auto simp: send_message_def rt_sys_send_def rt_sys_spawn_def rt_sys_file_read_def rt_sys_exit_def rt_value_def
        rt_result_def retval_def rt_wait_result_def rt_recv_result_def recv_frame_def recv_completed_def Let_def
        split: prod.splits)
qed

theorem rt_kernel_roundtrip_witness:
  "send_message (rt_sys_send CONSOLE_CAP (from_str_lossy [104, 105]) zero_frame) = from_str_lossy [104, 105]
   \<and> rt_value (zero_frame\<lparr>rax := retval (Inl NoSuchProgram)\<rparr>) = Inl NoSuchProgram"
  using rt_kernel_roundtrip [OF message_wf_from_str [of "[104, 105]"], where name = "[104, 105]" and v = 0
      and cap = CONSOLE_CAP and f = zero_frame and e = NoSuchProgram]
  by (simp add: ascii_bytes_def)

end
