(* ===== verification/Segments.thy ===== *)
theory Segments
  imports Layout_Safe Entry
begin

text \<open>
  \<^verbatim>\<open>arch/x86_64/gdt.rs\<close> and \<^verbatim>\<open>syscall::init\<close>: the descriptor table that all cores share, the task
  state segment of each core, and the registers that make \<^verbatim>\<open>SYSCALL\<close> work.  The descriptor table
  itself and the write to \<^verbatim>\<open>STAR\<close> are the \<^verbatim>\<open>x86_64\<close> crate, a parameter; what is relied on is its
  documentation (\<^verbatim>\<open>documented_gdt\<close>): a code or data descriptor takes one entry and a task state
  segment two, the selector is the index of the first with the descriptor's privilege level, and
  \<^verbatim>\<open>Star::write\<close> accepts selectors in the order that \<^verbatim>\<open>SYSCALL\<close> and \<^verbatim>\<open>SYSRET\<close> hard-code.
\<close>

subsection \<open>The crate\<close>

datatype descriptor = KernelCodeSegment | KernelDataSegment | UserDataSegment | UserCodeSegment | TssSegment nat

text \<open>
  \<^verbatim>\<open>gdt_append\<close> gives the selector and the longer table, \<^term>\<open>None\<close> when it panics because the table
  is full; \<^verbatim>\<open>star_write cs_sysret ss_sysret cs_syscall ss_syscall\<close> gives the two selector bases it
  stores, \<^term>\<open>None\<close> for its error.
\<close>

record 'g x86_tables =
  gdt_empty :: "nat \<Rightarrow> 'g"
  gdt_append :: "descriptor \<Rightarrow> 'g \<Rightarrow> (u16 \<times> 'g) option"
  star_write :: "u16 \<Rightarrow> u16 \<Rightarrow> u16 \<Rightarrow> u16 \<Rightarrow> (u16 \<times> u16) option"

definition privilege :: "descriptor \<Rightarrow> nat" where
  "privilege d = (if d = UserDataSegment \<or> d = UserCodeSegment then 3 else 0)"

definition entry_width :: "descriptor \<Rightarrow> nat" where
  "entry_width d = (case d of TssSegment _ \<Rightarrow> 2 | _ \<Rightarrow> 1)"

definition selector_of :: "nat \<Rightarrow> descriptor \<Rightarrow> u16" where
  "selector_of i d = of_nat (8 * i + privilege d)"

text \<open>\<^term>\<open>entries g\<close> is what the table holds, the second half of a double entry (and the null entry) as \<^term>\<open>None\<close>.\<close>

definition documented_gdt :: "'g x86_tables \<Rightarrow> ('g \<Rightarrow> nat) \<Rightarrow> ('g \<Rightarrow> descriptor option list) \<Rightarrow> bool" where
  "documented_gdt x room entries \<longleftrightarrow>
    (\<forall>n. room (gdt_empty x n) = n \<and> entries (gdt_empty x n) = [None])
    \<and> (\<forall>d g. length (entries g) + entry_width d \<le> room g \<longrightarrow>
        (\<exists>g'. gdt_append x d g = Some (selector_of (length (entries g)) d, g') \<and> room g' = room g
           \<and> entries g' = entries g @ Some d # replicate (entry_width d - 1) None))
    \<and> (\<forall>uc ud kc kd. 8 \<le> ud \<and> uc = ud + 8 \<and> kd = kc + 8 \<and> ud AND 3 = 3 \<and> kd AND 3 = 0 \<longrightarrow>
        star_write x uc ud kc kd = Some (ud - 8, kc))"

subsection \<open>State\<close>

text \<open>\<^verbatim>\<open>Selectors\<close>.\<close>

record selectors =
  kernel_code :: u16
  kernel_data :: u16
  user_data :: u16
  user_code :: u16
  tss_selectors :: "u16 list"

text \<open>
  The registers of a core that these functions write: \<^verbatim>\<open>GDTR\<close> as the table it points to, the segment
  registers and the task register, \<^verbatim>\<open>STAR\<close> as the bases for \<^verbatim>\<open>SYSRET\<close> and \<^verbatim>\<open>SYSCALL\<close>, \<^verbatim>\<open>LSTAR\<close> as the
  number of the entry stub, \<^verbatim>\<open>SFMASK\<close>, and the bit of \<^verbatim>\<open>EFER\<close>.
\<close>

record 'g core_segments =
  gdtr :: "'g option"
  reg_cs :: u16
  reg_ss :: u16
  reg_ds :: u16
  reg_es :: u16
  task_register :: u16
  msr_star :: "u16 \<times> u16"
  msr_lstar :: "nat option"
  msr_sfmask :: u64
  system_call_extensions :: bool

text \<open>
  The statics \<^verbatim>\<open>GDT\<close>, \<^verbatim>\<open>SELECTORS\<close>, \<^verbatim>\<open>TSS_TABLE\<close> (the double-fault entry of each interrupt stack table),
  \<^verbatim>\<open>USER_CS_SELECTOR\<close> and \<^verbatim>\<open>USER_SS_SELECTOR\<close>, with the memory and the cores.
\<close>

record ('g, 'pt) seg_state =
  gdt_once :: "('g \<times> selectors) option"
  selectors_once :: "selectors option"
  tss_double_fault :: "u64 list"
  user_cs_selector :: u64
  user_ss_selector :: u64
  seg_cores :: "'g core_segments list"
  seg_mem :: "'pt mem"

subsection \<open>Operations\<close>

text \<open>The closure of \<^verbatim>\<open>GDT.call_once\<close>, with room for \<^verbatim>\<open>GDT_ENTRIES\<close>.\<close>

definition append_segment :: "'g x86_tables \<Rightarrow> descriptor \<Rightarrow> 'g \<Rightarrow> kpanic + (u16 \<times> 'g)" where
  "append_segment x d g = (case gdt_append x d g of None \<Rightarrow> Inl ExpectFailed | Some r \<Rightarrow> Inr r)"

fun append_tss :: "'g x86_tables \<Rightarrow> nat list \<Rightarrow> 'g \<Rightarrow> kpanic + (u16 list \<times> 'g)" where
  "append_tss x [] g = Inr ([], g)"
| "append_tss x (core # cores) g =
    sbind (append_segment x (TssSegment core) g) (\<lambda>(s, g).
    sbind (append_tss x cores g) (\<lambda>(ss, g). Inr (s # ss, g)))"

definition gdt_build :: "'g x86_tables \<Rightarrow> kpanic + ('g \<times> selectors)" where
  "gdt_build x =
    sbind (append_segment x KernelCodeSegment (gdt_empty x (1 + 4 + 2 * MAX_CORES))) (\<lambda>(kc, g).
    sbind (append_segment x KernelDataSegment g) (\<lambda>(kd, g).
    sbind (append_segment x UserDataSegment g) (\<lambda>(ud, g).
    sbind (append_segment x UserCodeSegment g) (\<lambda>(uc, g).
    sbind (append_tss x [0..<MAX_CORES] g) (\<lambda>(tss, g).
      Inr (g, \<lparr>kernel_code = kc, kernel_data = kd, user_data = ud, user_code = uc, tss_selectors = tss\<rparr>))))))"

text \<open>Loading the table and the segment registers, the same lines in \<^verbatim>\<open>init_bsp\<close> and \<^verbatim>\<open>init_ap\<close>.\<close>

definition load_segment_registers :: "nat \<Rightarrow> 'g \<Rightarrow> selectors \<Rightarrow> ('g, 'pt) seg_state \<Rightarrow> ('g, 'pt) seg_state" where
  "load_segment_registers core g sel st = st\<lparr>seg_cores := (seg_cores st)[core := (seg_cores st ! core)
    \<lparr>gdtr := Some g, reg_cs := kernel_code sel, reg_ss := kernel_data sel, reg_ds := kernel_data sel,
     reg_es := kernel_data sel, task_register := tss_selectors sel ! core\<rparr>]\<rparr>"

fun init_double_fault :: "'pt paging \<Rightarrow> nat list \<Rightarrow> ('g, 'pt) seg_state \<Rightarrow> kpanic + ('g, 'pt) seg_state" where
  "init_double_fault pg [] st = Inr st"
| "init_double_fault pg (core # cores) st =
    sbind (double_fault_stack_top pg core (seg_mem st)) (\<lambda>(top, m).
      init_double_fault pg cores (st\<lparr>tss_double_fault := (tss_double_fault st)[core := top], seg_mem := m\<rparr>))"

definition gdt_init_bsp :: "'g x86_tables \<Rightarrow> 'pt paging \<Rightarrow> ('g, 'pt) seg_state \<Rightarrow> kpanic + ('g, 'pt) seg_state" where
  "gdt_init_bsp x pg st =
    sbind (init_double_fault pg [0..<MAX_CORES] st) (\<lambda>st.
    sbind (case gdt_once st of Some r \<Rightarrow> Inr r | None \<Rightarrow> gdt_build x) (\<lambda>(g, sel).
      let st = load_segment_registers 0 g sel (st\<lparr>gdt_once := Some (g, sel)\<rparr>) in
      Inr (if selectors_once st = None then st\<lparr>selectors_once := Some sel\<rparr> else st)))"

definition gdt_init_ap :: "nat \<Rightarrow> ('g, 'pt) seg_state \<Rightarrow> kpanic + ('g, 'pt) seg_state" where
  "gdt_init_ap core st =
    (case gdt_once st of None \<Rightarrow> Inl ExpectFailed | Some (g, sel) \<Rightarrow> Inr (load_segment_registers core g sel st))"

definition RFLAGS_IF :: u64 where "RFLAGS_IF = 0x200"

definition syscall_init :: "'g x86_tables \<Rightarrow> nat \<Rightarrow> ('g, 'pt) seg_state \<Rightarrow> kpanic + ('g, 'pt) seg_state" where
  "syscall_init x core st =
    (case selectors_once st of
       None \<Rightarrow> Inl ExpectFailed
     | Some sel \<Rightarrow>
         let st = st\<lparr>user_cs_selector := ucast (user_code sel), user_ss_selector := ucast (user_data sel),
               seg_cores := (seg_cores st)[core := (seg_cores st ! core)\<lparr>system_call_extensions := True\<rparr>]\<rparr> in
         case star_write x (user_code sel) (user_data sel) (kernel_code sel) (kernel_data sel) of
           None \<Rightarrow> Inl ExpectFailed
         | Some star \<Rightarrow> Inr (st\<lparr>seg_cores := (seg_cores st)[core := (seg_cores st ! core)
               \<lparr>msr_star := star, msr_lstar := Some core, msr_sfmask := RFLAGS_IF\<rparr>]\<rparr>))"

text \<open>
  The order of boot: the first core in \<^verbatim>\<open>arch::x86_64::init\<close>, each started core in
  \<^verbatim>\<open>ap_entry_on_own_stack\<close>, and \<^verbatim>\<open>syscall::init\<close> on the first core last (\<^verbatim>\<open>main.rs\<close>).
\<close>

fun bring_up_segments :: "'g x86_tables \<Rightarrow> nat list \<Rightarrow> ('g, 'pt) seg_state \<Rightarrow> kpanic + ('g, 'pt) seg_state" where
  "bring_up_segments x [] st = Inr st"
| "bring_up_segments x (core # cores) st =
    sbind (gdt_init_ap core st) (\<lambda>st. sbind (syscall_init x core st) (bring_up_segments x cores))"

definition boot_segments ::
  "'g x86_tables \<Rightarrow> 'pt paging \<Rightarrow> nat list \<Rightarrow> ('g, 'pt) seg_state \<Rightarrow> kpanic + ('g, 'pt) seg_state" where
  "boot_segments x pg aps st =
    sbind (gdt_init_bsp x pg st) (\<lambda>st. sbind (bring_up_segments x aps st) (syscall_init x 0))"

subsection \<open>What boot establishes\<close>

text \<open>A selector names a descriptor of the table with the right privilege level.\<close>

definition selects :: "descriptor option list \<Rightarrow> u16 \<Rightarrow> descriptor \<Rightarrow> bool" where
  "selects ds s d \<longleftrightarrow>
    unat s div 8 < length ds \<and> ds ! (unat s div 8) = Some d \<and> unat s mod 8 = privilege d"

definition segments_loaded :: "'g \<Rightarrow> selectors \<Rightarrow> nat \<Rightarrow> 'g core_segments \<Rightarrow> bool" where
  "segments_loaded g sel core c \<longleftrightarrow>
    gdtr c = Some g \<and> reg_cs c = kernel_code sel \<and> reg_ss c = kernel_data sel \<and> reg_ds c = kernel_data sel
    \<and> reg_es c = kernel_data sel \<and> task_register c = tss_selectors sel ! core"

definition syscalls_enabled :: "u16 \<times> u16 \<Rightarrow> nat \<Rightarrow> 'g core_segments \<Rightarrow> bool" where
  "syscalls_enabled star core c \<longleftrightarrow>
    msr_star c = star \<and> msr_lstar c = Some core \<and> msr_sfmask c = RFLAGS_IF \<and> system_call_extensions c"

definition gdt_ready :: "'g \<Rightarrow> selectors \<Rightarrow> ('g, 'pt) seg_state \<Rightarrow> bool" where
  "gdt_ready g sel st \<longleftrightarrow>
    gdt_once st = Some (g, sel) \<and> selectors_once st = Some sel \<and> length (seg_cores st) = MAX_CORES"

lemma documented_gdtD:
  assumes "documented_gdt x room entries"
  shows "room (gdt_empty x n) = n" "entries (gdt_empty x n) = [None]"
    and "length (entries g) + entry_width d \<le> room g \<Longrightarrow>
      \<exists>g'. gdt_append x d g = Some (selector_of (length (entries g)) d, g') \<and> room g' = room g
         \<and> entries g' = entries g @ Some d # replicate (entry_width d - 1) None"
    and "8 \<le> ud \<Longrightarrow> ud AND 3 = 3 \<Longrightarrow> (kc + 8) AND 3 = 0 \<Longrightarrow> star_write x (ud + 8) ud kc (kc + 8) = Some (ud - 8, kc)"
  using assms by (simp_all add: documented_gdt_def)

lemma append_segment_ok:
  assumes "documented_gdt x room entries" "length (entries g) + entry_width d \<le> room g"
  obtains g' where "append_segment x d g = Inr (selector_of (length (entries g)) d, g')" "room g' = room g"
    "entries g' = entries g @ Some d # replicate (entry_width d - 1) None"
  using documented_gdtD(3) [OF assms] by (auto simp: append_segment_def)

lemma append_tss_ok:
  assumes doc: "documented_gdt x room entries"
  shows "length (entries g) + 2 * length cores \<le> room g \<Longrightarrow>
    \<exists>g'. append_tss x cores g = Inr (map (\<lambda>i. of_nat (8 * (length (entries g) + 2 * i))) [0..<length cores], g')
      \<and> entries g' = entries g @ concat (map (\<lambda>c. [Some (TssSegment c), None]) cores)"
proof (induction cores arbitrary: g)
  case (Cons c cores)
  have w: "entry_width (TssSegment c) = 2" "privilege (TssSegment c) = 0" by (simp_all add: entry_width_def privilege_def)
  obtain g1 where g1: "append_segment x (TssSegment c) g = Inr (selector_of (length (entries g)) (TssSegment c), g1)" "room g1 = room g"
    "entries g1 = entries g @ [Some (TssSegment c), None]"
    using append_segment_ok [OF doc, of g "TssSegment c"] Cons.prems w by auto
  obtain g2 where g2: "append_tss x cores g1 = Inr (map (\<lambda>i. of_nat (8 * (length (entries g1) + 2 * i))) [0..<length cores], g2)"
    "entries g2 = entries g1 @ concat (map (\<lambda>c. [Some (TssSegment c), None]) cores)"
    using Cons.IH [of g1] Cons.prems g1 by auto
  have "map (\<lambda>i. of_nat (8 * (length (entries g) + 2 * i)) :: u16) [0..<Suc (length cores)]
     = of_nat (8 * length (entries g)) # map (\<lambda>i. of_nat (8 * (length (entries g1) + 2 * i))) [0..<length cores]"
    unfolding map_upt_Suc by (simp add: g1(3) algebra_simps)
  then show ?case using g1 g2 w by (simp add: selector_of_def del: upt_Suc)
qed simp

text \<open>The table and the selectors that \<^verbatim>\<open>init_bsp\<close> builds.\<close>

definition built_entries :: "descriptor option list" where
  "built_entries = [None, Some KernelCodeSegment, Some KernelDataSegment, Some UserDataSegment, Some UserCodeSegment]
    @ concat (map (\<lambda>c. [Some (TssSegment c), None]) [0..<MAX_CORES])"

definition built_selectors :: selectors where
  "built_selectors = \<lparr>kernel_code = 0x08, kernel_data = 0x10, user_data = 0x1b, user_code = 0x23,
    tss_selectors = map (\<lambda>i. of_nat (8 * (5 + 2 * i))) [0..<MAX_CORES]\<rparr>"

lemma gdt_build_ok:
  assumes doc: "documented_gdt x room entries"
  shows "\<exists>g. gdt_build x = Inr (g, built_selectors) \<and> entries g = built_entries"
proof -
  let ?n = "1 + 4 + 2 * MAX_CORES"
  let ?g = "gdt_empty x ?n"
  note w = entry_width_def privilege_def selector_of_def
  obtain g1 where g1: "append_segment x KernelCodeSegment ?g = Inr (0x08, g1)" "room g1 = ?n" "entries g1 = [None, Some KernelCodeSegment]"
    using append_segment_ok [OF doc, of ?g KernelCodeSegment] documented_gdtD(1,2) [OF doc] by (auto simp: w)
  obtain g2 where g2: "append_segment x KernelDataSegment g1 = Inr (0x10, g2)" "room g2 = ?n" "entries g2 = entries g1 @ [Some KernelDataSegment]"
    using append_segment_ok [OF doc, of g1 KernelDataSegment] g1 by (auto simp: w)
  obtain g3 where g3: "append_segment x UserDataSegment g2 = Inr (0x1b, g3)" "room g3 = ?n" "entries g3 = entries g2 @ [Some UserDataSegment]"
    using append_segment_ok [OF doc, of g2 UserDataSegment] g1 g2 by (auto simp: w)
  obtain g4 where g4: "append_segment x UserCodeSegment g3 = Inr (0x23, g4)" "room g4 = ?n" "entries g4 = entries g3 @ [Some UserCodeSegment]"
    using append_segment_ok [OF doc, of g3 UserCodeSegment] g1 g2 g3 by (auto simp: w)
  show ?thesis
    using append_tss_ok [OF doc, of g4 "[0..<MAX_CORES]"] g1 g2 g3 g4
    by (auto simp: gdt_build_def built_selectors_def built_entries_def)
qed

text \<open>Every selector names the descriptor it is meant to name; the bases in \<^verbatim>\<open>STAR\<close> give the same ones.\<close>

lemma built_selectors_select:
  "selects built_entries (kernel_code built_selectors) KernelCodeSegment"
  "selects built_entries (kernel_data built_selectors) KernelDataSegment"
  "selects built_entries (user_data built_selectors) UserDataSegment"
  "selects built_entries (user_code built_selectors) UserCodeSegment"
  by (simp_all add: selects_def built_entries_def built_selectors_def privilege_def)

lemma built_tss_select:
  assumes "core < MAX_CORES"
  shows "selects built_entries (tss_selectors built_selectors ! core) (TssSegment core)"
proof -
  have "core = 0 \<or> core = 1 \<or> core = 2 \<or> core = 3 \<or> core = 4 \<or> core = 5 \<or> core = 6 \<or> core = 7"
    using assms by (auto simp: MAX_CORES_def)
  then show ?thesis
    by (elim disjE) (simp_all add: selects_def built_entries_def built_selectors_def privilege_def MAX_CORES_def upt_rec)
qed

lemma star_write_ok:
  assumes "documented_gdt x room entries"
  shows "star_write x (user_code built_selectors) (user_data built_selectors) (kernel_code built_selectors) (kernel_data built_selectors)
    = Some (0x13, 0x08)"
  using documented_gdtD(4) [OF assms, of "0x1b" "0x08"] by (simp add: built_selectors_def)

text \<open>The stack each task state segment gets for double faults is the one mapped for its core.\<close>

lemma init_double_fault_ok:
  assumes "map_slots (\<lambda>core m. sbind (double_fault_stack_top pg core m) (\<lambda>(_, m). Inr m)) cores (seg_mem st) = Inr m'"
    and "distinct cores" "\<forall>c \<in> set cores. c < length (tss_double_fault st)"
  shows "\<exists>tops. init_double_fault pg cores st = Inr (st\<lparr>tss_double_fault := tops, seg_mem := m'\<rparr>)
    \<and> (\<forall>c \<in> set cores. tops ! c = double_fault_stack_slot_base c + 0x6000)
    \<and> (\<forall>c. c \<notin> set cores \<longrightarrow> tops ! c = tss_double_fault st ! c)"
  using assms
proof (induction cores arbitrary: st)
  case (Cons c cores)
  obtain top m1 where m1: "double_fault_stack_top pg c (seg_mem st) = Inr (top, m1)"
    "map_slots (\<lambda>core m. sbind (double_fault_stack_top pg core m) (\<lambda>(_, m). Inr m)) cores m1 = Inr m'"
    using Cons.prems(1) by (auto simp: sbind_Inr_iff)
  have top: "top = double_fault_stack_slot_base c + 0x6000"
    using m1(1) by (auto simp: double_fault_stack_top_def sbind_Inr_iff DOUBLE_FAULT_STACK_PAGES_def)
  let ?st = "st\<lparr>tss_double_fault := (tss_double_fault st)[c := top], seg_mem := m1\<rparr>"
  obtain tops where t: "init_double_fault pg cores ?st = Inr (?st\<lparr>tss_double_fault := tops, seg_mem := m'\<rparr>)"
    "\<forall>c \<in> set cores. tops ! c = double_fault_stack_slot_base c + 0x6000"
    "\<forall>d. d \<notin> set cores \<longrightarrow> tops ! d = (tss_double_fault st)[c := top] ! d"
    using Cons.IH [of ?st] Cons.prems m1(2) by auto
  then show ?case using m1(1) top Cons.prems by (intro exI [of _ tops]) auto
next
  case Nil
  then show ?case by (intro exI [of _ "tss_double_fault st"]) auto
qed

text \<open>Bringing up one more core.\<close>

lemma load_segment_registers_ready:
  assumes "gdt_ready g sel st" "core < MAX_CORES"
  shows "gdt_ready g sel (load_segment_registers core g sel st)"
    and "segments_loaded g sel core (seg_cores (load_segment_registers core g sel st) ! core)"
  using assms by (simp_all add: gdt_ready_def load_segment_registers_def segments_loaded_def)

lemma syscall_init_ok:
  assumes "gdt_ready g sel st" "core < MAX_CORES"
    and "star_write x (user_code sel) (user_data sel) (kernel_code sel) (kernel_data sel) = Some star"
  shows "\<exists>c. syscall_init x core st = Inr (st\<lparr>user_cs_selector := ucast (user_code sel), user_ss_selector := ucast (user_data sel),
      seg_cores := (seg_cores st)[core := c]\<rparr>)
    \<and> syscalls_enabled star core c
    \<and> (segments_loaded g sel core (seg_cores st ! core) \<longrightarrow> segments_loaded g sel core c)"
  using assms
  by (intro exI [of _ "(seg_cores st ! core)\<lparr>system_call_extensions := True, msr_star := star, msr_lstar := Some core, msr_sfmask := RFLAGS_IF\<rparr>"])
    (simp add: syscall_init_def gdt_ready_def syscalls_enabled_def segments_loaded_def)

lemma bring_up_segments_ok:
  assumes "gdt_ready g sel st" "\<forall>c \<in> set aps. c < MAX_CORES"
    and star: "star_write x (user_code sel) (user_data sel) (kernel_code sel) (kernel_data sel) = Some star"
  shows "\<exists>st'. bring_up_segments x aps st = Inr st' \<and> gdt_ready g sel st' \<and> tss_double_fault st' = tss_double_fault st
    \<and> (\<forall>c < MAX_CORES. c \<in> set aps \<or> segments_loaded g sel c (seg_cores st ! c) \<longrightarrow> segments_loaded g sel c (seg_cores st' ! c))
    \<and> (\<forall>c < MAX_CORES. c \<in> set aps \<or> syscalls_enabled star c (seg_cores st ! c) \<longrightarrow> syscalls_enabled star c (seg_cores st' ! c))"
  using assms(1,2)
proof (induction aps arbitrary: st)
  case (Cons core aps)
  let ?s1 = "load_segment_registers core g sel st"
  have core: "core < MAX_CORES" using Cons.prems(2) by simp
  note r = load_segment_registers_ready [OF Cons.prems(1) core]
  obtain c where c: "syscall_init x core ?s1 = Inr (?s1\<lparr>user_cs_selector := ucast (user_code sel), user_ss_selector := ucast (user_data sel),
      seg_cores := (seg_cores ?s1)[core := c]\<rparr>)" "syscalls_enabled star core c" "segments_loaded g sel core c"
    using syscall_init_ok [OF r(1) core star] r(2) by blast
  let ?s2 = "?s1\<lparr>user_cs_selector := ucast (user_code sel), user_ss_selector := ucast (user_data sel), seg_cores := (seg_cores ?s1)[core := c]\<rparr>"
  have "gdt_ready g sel ?s2" using r(1) by (simp add: gdt_ready_def)
  then obtain st' where st': "bring_up_segments x aps ?s2 = Inr st'" "gdt_ready g sel st'" "tss_double_fault st' = tss_double_fault ?s2"
    "\<forall>c < MAX_CORES. c \<in> set aps \<or> segments_loaded g sel c (seg_cores ?s2 ! c) \<longrightarrow> segments_loaded g sel c (seg_cores st' ! c)"
    "\<forall>c < MAX_CORES. c \<in> set aps \<or> syscalls_enabled star c (seg_cores ?s2 ! c) \<longrightarrow> syscalls_enabled star c (seg_cores st' ! c)"
    using Cons.IH [of ?s2] Cons.prems(2) by auto
  have at: "seg_cores ?s2 ! k = (if k = core then c else seg_cores st ! k)" for k
    using core Cons.prems(1) by (simp add: load_segment_registers_def gdt_ready_def nth_list_update)
  have "gdt_init_ap core st = Inr ?s1" using Cons.prems(1) by (simp add: gdt_init_ap_def gdt_ready_def)
  then have "bring_up_segments x (core # aps) st = Inr st'" using c(1) st'(1) by simp
  moreover have "tss_double_fault st' = tss_double_fault st" using st'(3) by (simp add: load_segment_registers_def)
  ultimately show ?case using st'(2,4,5) c(2,3) unfolding at by auto
qed simp

subsection \<open>Properties\<close>

text \<open>
  C21. The segments agree on every core that boot brings up: building the table and programming the
  registers never panics, and on each core the segment registers name the kernel's descriptors, the
  task register names the core's own task state segment, whose double-fault stack is the core's own,
  \<^verbatim>\<open>SYSCALL\<close> enters the core's own stub with the kernel's segments and interrupts masked, and the
  selectors the entry stubs store as those of the process name the two ring-3 descriptors.
\<close>

theorem segments_agree:
  assumes doc: "documented_gdt x room entries"
    and st: "gdt_once st = None" "selectors_once st = None"
      "length (tss_double_fault st) = MAX_CORES" "length (seg_cores st) = MAX_CORES"
    and stacks: "map_slots (\<lambda>core m. sbind (double_fault_stack_top pg core m) (\<lambda>(_, m). Inr m)) [0..<MAX_CORES] (seg_mem st) = Inr m'"
    and aps: "\<forall>c \<in> set aps. c < MAX_CORES"
  shows "\<exists>st' g. boot_segments x pg aps st = Inr st'
    \<and> (\<forall>core \<in> insert 0 (set aps). let c = seg_cores st' ! core in
        gdtr c = Some g \<and> selects (entries g) (reg_cs c) KernelCodeSegment \<and> selects (entries g) (reg_ss c) KernelDataSegment
        \<and> selects (entries g) (task_register c) (TssSegment core)
        \<and> tss_double_fault st' ! core = double_fault_stack_slot_base core + 0x6000
        \<and> system_call_extensions c \<and> msr_lstar c = Some core \<and> msr_sfmask c = RFLAGS_IF
        \<and> selects (entries g) (snd (msr_star c)) KernelCodeSegment \<and> selects (entries g) (snd (msr_star c) + 8) KernelDataSegment)
    \<and> selects (entries g) (ucast (user_cs_selector st')) UserCodeSegment
    \<and> selects (entries g) (ucast (user_ss_selector st')) UserDataSegment"
proof -
  let ?sel = built_selectors and ?star = "(0x13, 0x08) :: u16 \<times> u16"
  obtain tops where tops: "init_double_fault pg [0..<MAX_CORES] st = Inr (st\<lparr>tss_double_fault := tops, seg_mem := m'\<rparr>)"
    "\<forall>c < MAX_CORES. tops ! c = double_fault_stack_slot_base c + 0x6000"
    using init_double_fault_ok [OF stacks] st(3) by auto
  obtain g where g: "gdt_build x = Inr (g, ?sel)" "entries g = built_entries" using gdt_build_ok [OF doc] by blast
  let ?s1 = "(load_segment_registers 0 g ?sel (st\<lparr>tss_double_fault := tops, seg_mem := m', gdt_once := Some (g, ?sel)\<rparr>))\<lparr>selectors_once := Some ?sel\<rparr>"
  have z: "0 < MAX_CORES" by (simp add: MAX_CORES_def)
  have s1: "gdt_init_bsp x pg st = Inr ?s1" "gdt_ready g ?sel ?s1" "segments_loaded g ?sel 0 (seg_cores ?s1 ! 0)" "tss_double_fault ?s1 = tops"
    using tops(1) g(1) st z by (simp_all add: gdt_init_bsp_def gdt_ready_def load_segment_registers_def segments_loaded_def Let_def)
  obtain s2 where s2: "bring_up_segments x aps ?s1 = Inr s2" "gdt_ready g ?sel s2" "tss_double_fault s2 = tops"
    "\<forall>c < MAX_CORES. c \<in> set aps \<or> segments_loaded g ?sel c (seg_cores ?s1 ! c) \<longrightarrow> segments_loaded g ?sel c (seg_cores s2 ! c)"
    "\<forall>c < MAX_CORES. c \<in> set aps \<or> syscalls_enabled ?star c (seg_cores ?s1 ! c) \<longrightarrow> syscalls_enabled ?star c (seg_cores s2 ! c)"
    using bring_up_segments_ok [OF s1(2) aps star_write_ok [OF doc]] s1(4) by metis
  obtain c0 where c0: "syscall_init x 0 s2 = Inr (s2\<lparr>user_cs_selector := ucast (user_code ?sel), user_ss_selector := ucast (user_data ?sel),
      seg_cores := (seg_cores s2)[0 := c0]\<rparr>)" "syscalls_enabled ?star 0 c0" "segments_loaded g ?sel 0 c0"
    using syscall_init_ok [OF s2(2) z star_write_ok [OF doc]] s2(4) s1(3) z by blast
  have len: "length (seg_cores s2) = MAX_CORES" using s2(2) by (simp add: gdt_ready_def)
  have all: "segments_loaded g ?sel k ((seg_cores s2)[0 := c0] ! k) \<and> syscalls_enabled ?star k ((seg_cores s2)[0 := c0] ! k) \<and> k < MAX_CORES"
    if "k \<in> insert 0 (set aps)" for k
    using that c0(2,3) s2(4,5) aps z len by (auto simp: nth_list_update)
  show ?thesis
    using s1(1) s2(1,3) c0(1) g(2) tops(2) all built_selectors_select built_tss_select
    by (intro exI [of _ "s2\<lparr>user_cs_selector := ucast (user_code ?sel), user_ss_selector := ucast (user_data ?sel),
          seg_cores := (seg_cores s2)[0 := c0]\<rparr>"] exI [of _ g] conjI ballI)
      (simp_all add: boot_segments_def Let_def segments_loaded_def syscalls_enabled_def built_selectors_def ucast_up_ucast_id is_up)
qed

text \<open>A table as the list of its entries behaves as documented.\<close>

definition list_tables :: "(nat \<times> descriptor option list) x86_tables" where
  "list_tables = \<lparr>gdt_empty = \<lambda>n. (n, [None]),
    gdt_append = \<lambda>d (n, es). if length es + entry_width d \<le> n
      then Some (selector_of (length es) d, (n, es @ Some d # replicate (entry_width d - 1) None)) else None,
    star_write = \<lambda>uc ud kc kd. if 8 \<le> ud \<and> uc = ud + 8 \<and> kd = kc + 8 \<and> ud AND 3 = 3 \<and> kd AND 3 = 0
      then Some (ud - 8, kc) else None\<rparr>"

lemma list_tables_documented: "documented_gdt list_tables fst snd"
  by (auto simp: documented_gdt_def list_tables_def)

lemma double_fault_stacks_map:
  "\<exists>m m' :: flat_table mem. map_slots (\<lambda>core m. sbind (double_fault_stack_top flat_paging core m) (\<lambda>(_, m). Inr m)) [0..<MAX_CORES] m = Inr m'"
proof -
  let ?ps = "region DOUBLE_FAULT_STACK_BASE DOUBLE_FAULT_STACK_SLOT_STRIDE (\<lambda>_. DOUBLE_FAULT_STACK_PAGES) MAX_CORES"
  have df: "(\<lambda>core m. sbind (double_fault_stack_top flat_paging core m) (\<lambda>(_, m). Inr m)) = (\<lambda>core.
      map_fresh flat_paging KERNEL_DATA_FLAGS (slot_pages (DOUBLE_FAULT_STACK_BASE + of_nat core * DOUBLE_FAULT_STACK_SLOT_STRIDE) DOUBLE_FAULT_STACK_PAGES))"
    by (simp add: double_fault_stack_top_def sbind_assoc sbind_id double_fault_stack_slot_base_def)
  obtain fa where fa: "fa_wf fa" "free_frame_count fa = 16384" using low_memory_boot by blast
  let ?m = "\<lparr>falloc = fa, pmem = (\<lambda>_. 0), ptab = []\<rparr> :: flat_table mem"
  have sz: "\<forall>k < 4. [0, 0, 0, 0] ! k \<le> (0xF000 :: nat)" "(0 :: nat) \<le> 0xF000" by (simp_all add: nth_Cons')
  have sub: "set ?ps \<subseteq> set (boot_pages [0, 0, 0, 0] 0)" by (auto simp: boot_pages_def early_pages_def)
  have d: "distinct ?ps" using boot_pages_distinct [OF sz] by (simp add: boot_pages_def early_pages_def)
  have l: "length ?ps = MAX_CORES * DOUBLE_FAULT_STACK_PAGES" by (simp add: region_length map_replicate_const sum_list_replicate)
  have "\<exists>m'. map_fresh flat_paging KERNEL_DATA_FLAGS ?ps ?m = Inr m'"
    using map_fresh_ok [OF flat_mapper_ok, of ?m ?ps KERNEL_DATA_FLAGS] fa d l sub boot_pages_aligned [OF sz]
    by (auto simp: MAX_CORES_def DOUBLE_FAULT_STACK_PAGES_def mapping_def translate_in_def flat_paging_def)
  then show ?thesis unfolding df map_slots_fresh region_def by blast
qed

definition power_on :: "'pt mem \<Rightarrow> ('g, 'pt) seg_state" where
  "power_on m = \<lparr>gdt_once = None, selectors_once = None, tss_double_fault = replicate MAX_CORES 0, user_cs_selector = 0, user_ss_selector = 0,
    seg_cores = replicate MAX_CORES \<lparr>gdtr = None, reg_cs = 0x28, reg_ss = 0x30, reg_ds = 0x30, reg_es = 0x30, task_register = 0, msr_star = (0, 0),
      msr_lstar = None, msr_sfmask = 0, system_call_extensions = False\<rparr>, seg_mem = m\<rparr>"

theorem segments_agree_witness:
  "\<exists>m st' :: (nat \<times> descriptor option list, flat_table) seg_state. boot_segments list_tables flat_paging [1] (power_on (m :: flat_table mem)) = Inr st'
    \<and> tss_double_fault st' ! 1 = double_fault_stack_slot_base 1 + 0x6000 \<and> msr_lstar (seg_cores st' ! 1) = Some 1"
proof -
  obtain m m' :: "flat_table mem" where m: "map_slots (\<lambda>core m. sbind (double_fault_stack_top flat_paging core m) (\<lambda>(_, m). Inr m)) [0..<MAX_CORES] m = Inr m'"
    using double_fault_stacks_map by blast
  have "\<forall>c \<in> set [1]. c < MAX_CORES" by (simp add: MAX_CORES_def)
  then show ?thesis
    using segments_agree [OF list_tables_documented, of "power_on m" flat_paging m' "[1]"] m
    by (auto simp: power_on_def Let_def)
qed

end
