(* ===== verification/Spec2Isabelle.thy ===== *)
theory Spec2Isabelle
  imports Abi Ring Bitmap Captable Boot Cores Locks Smp Uart Pci Runtime Segments
begin

text \<open>
  A verification of TarnOS, a multi-core x86-64 microkernel in Rust: the kernel (\<^verbatim>\<open>src/kernel\<close>), its
  algorithmic library (\<^verbatim>\<open>src/libs/tarnos-kcore\<close>), the wire contract shared with programs
  (\<^verbatim>\<open>src/libs/tarnos-abi\<close>) and the runtime that programs link (\<^verbatim>\<open>src/libs/tarnos-rt\<close>).

  \<^bold>\<open>How the program works.\<close>  Boot maps fixed regions of kernel memory, builds the descriptor and
  interrupt tables, starts the other cores, mounts a FAT12 volume if there is a virtio disk, and spawns
  \<^verbatim>\<open>init\<close>.  From then on each core runs processes of one shared table, under one scheduler lock.  A core
  enters the kernel by \<^verbatim>\<open>SYSCALL\<close>, an exception, or an interrupt; an assembly stub saves the registers as
  a \<^verbatim>\<open>TrapFrame\<close>, a handler changes the kernel's state and names the frame to resume.  Processes talk
  through endpoints (a rendezvous of senders and one receiver) that they hold capabilities for.  Kernel
  tasks (the serial echo and console) are futures that an executor polls on ticks and when a core idles.

  \<^bold>\<open>Theories and sources.\<close>
  \<^item> \<^verbatim>\<open>Tarn_Prelude\<close>: Rust integers, checked arithmetic, little-endian bytes, UTF-8, list and word
    lemmas, and the collection \<^verbatim>\<open>inv_intros\<close>.
  \<^item> \<^verbatim>\<open>Abi\<close> (\<^verbatim>\<open>tarnos-abi/src/lib.rs\<close>): call numbers, messages, exit statuses, rights, names, error codes,
    with the round trips of each encoding.
  \<^item> \<^verbatim>\<open>Ring\<close>, \<^verbatim>\<open>Bitmap\<close>, \<^verbatim>\<open>Captable\<close>, \<^verbatim>\<open>Rendezvous\<close> (\<^verbatim>\<open>tarnos-kcore\<close>): the four data structures, operation by
    operation.  The first three implement the contracts \<^verbatim>\<open>bounded_fifo\<close>, \<^verbatim>\<open>index_pool\<close> and \<^verbatim>\<open>cap_store\<close>, which
    their clients use; the last refines a queue of pending messages with at most one waiting receiver.
  \<^item> \<^verbatim>\<open>Phys\<close>, \<^verbatim>\<open>Virt\<close> (\<^verbatim>\<open>memory/phys.rs\<close>, \<^verbatim>\<open>virt.rs\<close>): frames and address spaces.
  \<^item> \<^verbatim>\<open>Proc\<close>, \<^verbatim>\<open>Create\<close>, \<^verbatim>\<open>Elf\<close> (\<^verbatim>\<open>task/mod.rs\<close>, \<^verbatim>\<open>task/process.rs\<close>, \<^verbatim>\<open>elf.rs\<close>): pids, processes, their stacks,
    building them and loading programs.
  \<^item> \<^verbatim>\<open>Kstate\<close>: the kernel's statics and per-core registers as one record, and the panics.
  \<^item> \<^verbatim>\<open>Sched\<close> (\<^verbatim>\<open>task/scheduler.rs\<close>): one definition per function: dispatch, ticks, blocking, waking, exit,
    killing on another core, waiting.  \<^verbatim>\<open>Sched_Inv\<close> states the invariant; \<^verbatim>\<open>Sched_Ops\<close> and \<^verbatim>\<open>Sched_Exit\<close>
    show that every operation keeps it.
  \<^item> \<^verbatim>\<open>Ipc\<close> (\<^verbatim>\<open>ipc/endpoint.rs\<close>, \<^verbatim>\<open>message.rs\<close>), \<^verbatim>\<open>Syscall\<close> (\<^verbatim>\<open>arch/x86_64/syscall.rs\<close>): endpoints, their futures
    and all system calls with every error path.
  \<^item> \<^verbatim>\<open>Block\<close>, \<^verbatim>\<open>Fat\<close> (\<^verbatim>\<open>driver/block.rs\<close>, reading in \<^verbatim>\<open>driver/virtio_blk.rs\<close>, \<^verbatim>\<open>fs/fat.rs\<close>): the contract
    \<^verbatim>\<open>block_device\<close>, the driver that meets it, and the file system over it.
  \<^item> \<^verbatim>\<open>Entry\<close> (\<^verbatim>\<open>context_switch.rs\<close>, \<^verbatim>\<open>idt.rs\<close>, \<^verbatim>\<open>interrupts.rs\<close>, \<^verbatim>\<open>driver/mod.rs\<close>): the stubs as pushes and pops, the
    gates, and what every vector does in ring 0 and ring 3.
  \<^item> \<^verbatim>\<open>Kernel_Inv\<close>, \<^verbatim>\<open>Kernel_Sys\<close>, \<^verbatim>\<open>Boot\<close> (\<^verbatim>\<open>main.rs\<close>): the invariant over whole kernel entries, and the
    kernel as a transition system whose steps are all entries of all cores.
  \<^item> \<^verbatim>\<open>Layout\<close>, \<^verbatim>\<open>Layout_Safe\<close> (\<^verbatim>\<open>memory/heap.rs\<close> and the mapping functions of the others), \<^verbatim>\<open>Segments\<close>
    (\<^verbatim>\<open>gdt.rs\<close>, \<^verbatim>\<open>syscall::init\<close>): what boot maps, and the descriptor and \<^verbatim>\<open>SYSCALL\<close> registers of each core.
  \<^item> \<^verbatim>\<open>Cores\<close> (\<^verbatim>\<open>percpu.rs\<close>, \<^verbatim>\<open>smp.rs\<close>, \<^verbatim>\<open>lapic.rs\<close>, \<^verbatim>\<open>lang_items.rs\<close>), \<^verbatim>\<open>Locks\<close> (\<^verbatim>\<open>sync.rs\<close>, \<^verbatim>\<open>earlycon.rs\<close>): starting
    cores, panics, spin locks.  \<^verbatim>\<open>Smp\<close>: ticks over time, and the interleaving of cores.
  \<^item> \<^verbatim>\<open>Executor\<close>, \<^verbatim>\<open>Uart\<close> (\<^verbatim>\<open>task/executor.rs\<close>, \<^verbatim>\<open>driver/uart.rs\<close>), \<^verbatim>\<open>Pci\<close> (\<^verbatim>\<open>pci.rs\<close>, set-up in \<^verbatim>\<open>virtio_blk.rs\<close>): kernel
    tasks, with the contract \<^verbatim>\<open>kernel_futures\<close>, and the devices.
  \<^item> \<^verbatim>\<open>Runtime\<close> (\<^verbatim>\<open>tarnos-rt\<close>): the wrappers and the heap of a program, and what crosses between ring 3
    and the kernel.

  \<^bold>\<open>How the model reads.\<close>  State is passed explicitly.  A Rust \<^verbatim>\<open>Err\<close> or a panic is the left of a sum, with
  all changes made before it; code that may not return gives an option.  Integers keep their width
  where the code depends on it.  Between two entries of the scheduler lock the state changes in one step;
  \<^verbatim>\<open>Smp\<close> breaks the tick into what happens under the lock and after it.  What is not source of this
  repository is an argument: the paging, descriptor-table and register functions of the \<^verbatim>\<open>x86_64\<close> crate,
  the serial chip, the disk, the PCI bridge, the processor's \<^verbatim>\<open>CPUID\<close>, the user heap's allocator.
  What the code relies on of them is a named hypothesis (\<^verbatim>\<open>mapper_ok\<close>, \<^verbatim>\<open>documented_gdt\<close>,
  \<^verbatim>\<open>documented_16550\<close> and the like), and a witness gives a concrete instance of each.

  \<^bold>\<open>What is shown.\<close>  In every reachable state the scheduler's data agree and no step trips a consistency
  assertion (\<^verbatim>\<open>Boot\<close>).  A core returns to ring 3 only with user registers, a grant confers only what the
  caller holds, and runtime and kernel agree on the wire except for the fourth message word (\<^verbatim>\<open>Runtime\<close>).
  Messages arrive exactly once and in order; a frame has one owner; dropping an address space frees
  exactly its frames; segments stay in user memory; cluster chains are followed exactly.  Ready processes
  run after as many ticks as their place in the queue; woken kernel tasks are polled; the receive path of
  the serial driver loses no wake-up.  Faults kill only the process; guard pages stay unmapped; locks
  exclude with interrupts off; one panic is reported.  Some theorems state what goes wrong: two cores on
  one kernel stack, an unacknowledged interrupt, a truncated register, an early panic that recurses,
  a device window over an idle stack, an executor that never ends its drain, a capability list that loops.

  \<^bold>\<open>Bounds and fuel.\<close>  Finalising a process recurses into its children with fuel of one more than
  \<^verbatim>\<open>MAX_PROCESSES\<close>; each level empties a slot, and \<^verbatim>\<open>Sched_Exit\<close> shows that it never runs out.  The serial
  driver's wait takes any fuel above what the chip needs.  The walk over capabilities needs 256 steps when they
  ascend.  The executor's drain has no bound in the code: \<^verbatim>\<open>Uart\<close> shows that it ends when polled futures
  wake nobody, and that otherwise no fuel is enough.  Waits for another core, for the disk and for the
  timer take fuel too, since only the other side can end them.

  \<^bold>\<open>Not modelled.\<close>  The host-side build and test driver (\<^verbatim>\<open>xtask\<close>) runs external programs and compares their
  output.  The milestone test modules and the demonstration programs in \<^verbatim>\<open>userland\<close> are inputs to the
  kernel, which is verified for every sequence of calls.  Module roots only declare and call what is
  modelled.  In \<^verbatim>\<open>memory/virt.rs\<close> the boot-time mapper is the crate's and appears as the paging argument.
  Panic dumps are formatting.  The instructions that switch stacks for good (to the idle loop, to
  a core's own stack) appear as the state they lead to.  Memory ordering is not modelled: atomics and
  locked sections are single steps.
\<close>

end
